theory Spec2Isabelle
  imports Complex_Main "HOL-Library.Multiset"
begin

section \<open>Strings and values of the background worker\<close>

text \<open>
  A JavaScript string is a sequence of UTF-16 code units. The worker tests for the glyphs
  U+266D, U+266F and U+2019 and for the Unicode white space of the regular expression
  class \<open>\s\<close>, so a code unit is a natural number (below 65536) and not an 8-bit
  \<open>char\<close>. \<open>js\<close> embeds an ASCII literal.
\<close>

type_synonym jstring = "nat list"

definition js :: "string \<Rightarrow> jstring" where
  "js s = map of_char s"

text \<open>
  The values a field of a record or a table lookup can hold. \<open>ProtoMember n\<close> is the
  member \<open>n\<close> that every object literal inherits from \<open>Object.prototype\<close> (a function,
  or the prototype itself for \<open>__proto__\<close>): it is what \<open>MAJOR[k]\<close> evaluates to when
  \<open>k\<close> is, say, \<open>toString\<close>. A field that an object literal does not list is \<open>Undefined\<close>.
\<close>

datatype jsval = Undefined | Null | Str jstring | Num int | ProtoMember jstring

fun truthy :: "jsval \<Rightarrow> bool" where
  "truthy Undefined = False"
| "truthy Null = False"
| "truthy (Str s) = (s \<noteq> [])"
| "truthy (Num n) = (n \<noteq> 0)"
| "truthy (ProtoMember n) = True"

text \<open>\<open>a || b\<close>\<close>

definition jsOr :: "jsval \<Rightarrow> jsval \<Rightarrow> jsval" where
  "jsOr a b = (if truthy a then a else b)"

text \<open>\<open>(s || "")\<close> for a string that may be missing (\<open>undefined\<close> or \<open>null\<close>).\<close>

fun orEmpty :: "jstring option \<Rightarrow> jstring" where
  "orEmpty None = []"
| "orEmpty (Some s) = s"

definition objectPrototypeNames :: "jstring list" where
  "objectPrototypeNames =
     [js ''constructor'', js ''__defineGetter__'', js ''__defineSetter__'',
      js ''hasOwnProperty'', js ''__lookupGetter__'', js ''__lookupSetter__'',
      js ''isPrototypeOf'', js ''propertyIsEnumerable'', js ''toString'',
      js ''valueOf'', js ''__proto__'', js ''toLocaleString'']"

text \<open>
  \<open>obj[k]\<close> on an object literal whose own properties are the string table \<open>tbl\<close>:
  an own property first, then the prototype chain.
\<close>

definition objGet :: "(jstring \<times> jstring) list \<Rightarrow> jstring \<Rightarrow> jsval" where
  "objGet tbl k =
     (case map_of tbl k of
        Some v \<Rightarrow> Str v
      | None \<Rightarrow> if k \<in> set objectPrototypeNames then ProtoMember k else Undefined)"

subsection \<open>White space and case\<close>

text \<open>The class \<open>\s\<close>, which is also what \<open>trim\<close> strips.\<close>

definition isWhiteSpace :: "nat \<Rightarrow> bool" where
  "isWhiteSpace c =
     (c \<in> {9, 10, 11, 12, 13, 32, 160, 5760, 8232, 8233, 8239, 8287, 12288, 65279}
      \<or> (8192 \<le> c \<and> c \<le> 8202))"

text \<open>\<open>s.replace(/[class]+/g, r)\<close>: every maximal run of code units of the class becomes \<open>r\<close>.\<close>

function replaceRuns :: "(nat \<Rightarrow> bool) \<Rightarrow> jstring \<Rightarrow> jstring \<Rightarrow> jstring" where
  "replaceRuns P r [] = []"
| "replaceRuns P r (c # cs) =
     (if P c then r @ replaceRuns P r (dropWhile P cs) else c # replaceRuns P r cs)"
  by pat_completeness auto
termination
  by (relation "measure (\<lambda>(P, r, s). length s)")
     (auto simp: length_dropWhile_le less_Suc_eq_le)

text \<open>\<open>s.replace(/c/g, r)\<close> for a single code unit \<open>c\<close>.\<close>

definition replaceAll :: "nat \<Rightarrow> jstring \<Rightarrow> jstring \<Rightarrow> jstring" where
  "replaceAll c r s = concat (map (\<lambda>x. if x = c then r else [x]) s)"

text \<open>\<open>s.replace(c, r)\<close> with a string pattern of one code unit: the first occurrence only.\<close>

fun replaceFirst :: "nat \<Rightarrow> jstring \<Rightarrow> jstring \<Rightarrow> jstring" where
  "replaceFirst c r [] = []"
| "replaceFirst c r (x # xs) = (if x = c then r @ xs else x # replaceFirst c r xs)"

definition trim :: "jstring \<Rightarrow> jstring" where
  "trim s = rev (dropWhile isWhiteSpace (rev (dropWhile isWhiteSpace s)))"

text \<open>
  \<open>toLowerCase\<close> and \<open>toUpperCase\<close>. The model is exact on every code unit whose image
  touches ASCII: the letters, U+0130 (which lower-cases to \<open>i\<close> followed by U+0307) and the
  Kelvin sign U+212A (which lower-cases to \<open>k\<close>). Any other code unit is left as it is, where
  JavaScript may map it to another code unit outside ASCII. This \<open>toLowerCase\<close> stands for
  the calls whose result the worker compares with ASCII text or strips of what is not ASCII;
  the one call whose result is kept, the \<open>mode\<close> of a record of the fallback, is
  \<open>toLowerCaseOf\<close> below. \<open>toUpperCase\<close> is applied by the worker only to text that a
  regular expression has already restricted to ASCII.
\<close>

definition lowerUnit :: "nat \<Rightarrow> jstring" where
  "lowerUnit c =
     (if 65 \<le> c \<and> c \<le> 90 then [c + 32]
      else if c = 304 then [105, 775]
      else if c = 8490 then [107]
      else [c])"

definition toLowerCase :: "jstring \<Rightarrow> jstring" where
  "toLowerCase s = concat (map lowerUnit s)"

definition upperUnit :: "nat \<Rightarrow> nat" where
  "upperUnit c = (if 97 \<le> c \<and> c \<le> 122 then c - 32 else c)"

definition toUpperCase :: "jstring \<Rightarrow> jstring" where
  "toUpperCase s = map upperUnit s"

text \<open>\<open>normalizeWhitespace\<close>: \<open>(s || "").replace(/\s+/g, " ").trim()\<close>\<close>

definition normalizeWhitespace :: "jstring option \<Rightarrow> jstring" where
  "normalizeWhitespace s = trim (replaceRuns isWhiteSpace (js '' '') (orEmpty s))"

section \<open>Key theory\<close>

text \<open>\<open>[A-Ga-g]\<close>\<close>

definition isNoteLetter :: "nat \<Rightarrow> bool" where
  "isNoteLetter c = ((65 \<le> c \<and> c \<le> 71) \<or> (97 \<le> c \<and> c \<le> 103))"

definition flatsToSharps :: "(jstring \<times> jstring) list" where
  "flatsToSharps =
     [(js ''DB'', js ''C#''), (js ''EB'', js ''D#''), (js ''GB'', js ''F#''),
      (js ''AB'', js ''G#''), (js ''BB'', js ''A#'')]"

text \<open>
  \<open>normalizeKeyName\<close>. The three anchored tests \<open>/^[A-Ga-g]b$/\<close>, \<open>/^[A-Ga-g]#$/\<close> and
  \<open>/^[A-Ga-g]$/\<close> are the three list patterns. In \<open>flatsToSharps[up] || up[0]\<close> the key
  \<open>up\<close> has two code units, so no inherited member can answer (lemma
  \<open>objGet_flatsToSharps\<close> below) and the lookup is the one in the table.
\<close>

definition normalizeKeyName :: "jstring option \<Rightarrow> jstring" where
  "normalizeKeyName key =
     (let k = normalizeWhitespace key;
          k = replaceAll 9839 (js ''#'') (replaceAll 9837 (js ''b'') k)
      in case k of
           [l, a] \<Rightarrow>
             if isNoteLetter l \<and> a = 98 then
               (let up = toUpperCase k
                in case map_of flatsToSharps up of
                     Some v \<Rightarrow> if v \<noteq> [] then v else [hd up]
                   | None \<Rightarrow> [hd up])
             else if isNoteLetter l \<and> a = 35 then upperUnit l # js ''#''
             else k
         | [l] \<Rightarrow> if isNoteLetter l then toUpperCase k else k
         | _ \<Rightarrow> k)"

definition MAJOR :: "(jstring \<times> jstring) list" where
  "MAJOR =
     [(js ''C'', js ''8B''), (js ''G'', js ''9B''), (js ''D'', js ''10B''),
      (js ''A'', js ''11B''), (js ''E'', js ''12B''), (js ''B'', js ''1B''),
      (js ''F#'', js ''2B''), (js ''C#'', js ''3B''), (js ''G#'', js ''4B''),
      (js ''D#'', js ''5B''), (js ''A#'', js ''6B''), (js ''F'', js ''7B'')]"

definition MINOR :: "(jstring \<times> jstring) list" where
  "MINOR =
     [(js ''A'', js ''8A''), (js ''E'', js ''9A''), (js ''B'', js ''10A''),
      (js ''F#'', js ''11A''), (js ''C#'', js ''12A''), (js ''G#'', js ''1A''),
      (js ''D#'', js ''2A''), (js ''A#'', js ''3A''), (js ''F'', js ''4A''),
      (js ''C'', js ''5A''), (js ''G'', js ''6A''), (js ''D'', js ''7A'')]"

definition keyToCamelot :: "jstring option \<Rightarrow> jstring option \<Rightarrow> jsval" where
  "keyToCamelot key mode =
     (let k = normalizeKeyName key;
          m = toLowerCase (orEmpty mode)
      in if m = js ''major'' then jsOr (objGet MAJOR k) Null
         else if m = js ''minor'' then jsOr (objGet MINOR k) Null
         else Null)"

subsection \<open>The Camelot wheel, stated independently of the tables\<close>

text \<open>
  The twelve normalized note names, indexed by pitch class (\<open>C\<close> is 0, \<open>B\<close> is 11). On
  the Camelot wheel a step of one number is a step of a fifth (seven semitones), \<open>C\<close> major
  is \<open>8B\<close>, and a minor key carries the number of its relative major (three semitones up)
  with the letter \<open>A\<close>. \<open>canonicalWheel\<close> computes the code from that rule alone; it is
  the reference the two tables of \<open>keyToCamelot\<close> are compared with.
\<close>

definition noteNames :: "jstring list" where
  "noteNames =
     [js ''C'', js ''C#'', js ''D'', js ''D#'', js ''E'', js ''F'',
      js ''F#'', js ''G'', js ''G#'', js ''A'', js ''A#'', js ''B'']"

definition camelotNumber :: "nat \<Rightarrow> bool \<Rightarrow> nat" where
  "camelotNumber p major = (7 * (if major then p else p + 3) + 7) mod 12 + 1"

definition decimal :: "nat \<Rightarrow> jstring" where
  "decimal n = (if n < 10 then [48 + n] else [48 + n div 10, 48 + n mod 10])"

definition canonicalWheel :: "nat \<Rightarrow> bool \<Rightarrow> jstring" where
  "canonicalWheel p major =
     decimal (camelotNumber p major) @ (if major then js ''B'' else js ''A'')"

subsection \<open>Vocabulary for the statements about \<open>normalizeKeyName\<close>\<close>

text \<open>
  What \<open>normalizeKeyName\<close> computes before it tests the spelling: the white space
  normalized, then the two Unicode accidentals replaced by \<open>b\<close> and \<open>#\<close>.
\<close>

definition asciiAccidentals :: "jstring \<Rightarrow> jstring" where
  "asciiAccidentals k = replaceAll 9839 (js ''#'') (replaceAll 9837 (js ''b'') k)"

text \<open>A recognized spelling: a letter \<open>A\<close> to \<open>G\<close> of either case, alone or followed by \<open>#\<close> or \<open>b\<close>.\<close>

definition recognizedSpelling :: "jstring \<Rightarrow> bool" where
  "recognizedSpelling k =
     (case k of
        [l] \<Rightarrow> isNoteLetter l
      | [l, a] \<Rightarrow> isNoteLetter l \<and> (a = 35 \<or> a = 98)
      | _ \<Rightarrow> False)"

section \<open>Text matching\<close>

text \<open>
  \<open>normForMatch\<close>: after \<open>normalizeWhitespace\<close> and \<open>toLowerCase\<close>, the two apostrophes
  \<open>/[U+2019 ']/g\<close> (U+2019 and the ASCII one) become the ASCII apostrophe, every run outside
  \<open>[a-z0-9#\s]\<close> becomes one space, white space is collapsed again and the ends are trimmed.
\<close>

definition isMatchUnit :: "nat \<Rightarrow> bool" where
  "isMatchUnit c =
     ((97 \<le> c \<and> c \<le> 122) \<or> (48 \<le> c \<and> c \<le> 57) \<or> c = 35 \<or> isWhiteSpace c)"

definition normForMatch :: "jstring option \<Rightarrow> jstring" where
  "normForMatch s =
     trim (replaceRuns isWhiteSpace (js '' '')
       (replaceRuns (\<lambda>c. \<not> isMatchUnit c) (js '' '')
         (map (\<lambda>c. if c = 8217 \<or> c = 39 then 39 else c)
           (toLowerCase (normalizeWhitespace s)))))"

text \<open>\<open>s.split(" ")\<close>: the pieces between the spaces, empty ones included.\<close>

fun splitOn :: "nat \<Rightarrow> jstring \<Rightarrow> jstring list" where
  "splitOn c [] = [[]]"
| "splitOn c (x # xs) =
     (if x = c then [] # splitOn c xs
      else (case splitOn c xs of [] \<Rightarrow> [[x]] | t # ts \<Rightarrow> (x # t) # ts))"

text \<open>
  A JavaScript \<open>Set\<close> of strings is the list of its members in insertion order, without
  repetition: \<open>new Set(xs)\<close> adds the elements of \<open>xs\<close> one after the other.
\<close>

definition setAdd :: "'a list \<Rightarrow> 'a \<Rightarrow> 'a list" where
  "setAdd S x = (if x \<in> set S then S else S @ [x])"

definition newSet :: "'a list \<Rightarrow> 'a list" where
  "newSet xs = foldl setAdd [] xs"

definition tokenSet :: "jstring option \<Rightarrow> jstring list" where
  "tokenSet s = newSet (filter (\<lambda>t. t \<noteq> []) (splitOn 32 (normForMatch s)))"

text \<open>
  \<open>tokenOverlapScore\<close>. The loop counts the members of \<open>A\<close> that \<open>B\<close> has. A JavaScript
  number is a double; the quotient is modelled as the exact rational, of which the double the
  function returns is the rounding (\<open>toDouble\<close> below, applied where the score is used).
\<close>

definition tokenOverlapScore :: "jstring option \<Rightarrow> jstring option \<Rightarrow> rat" where
  "tokenOverlapScore a b =
     (let A = tokenSet a; B = tokenSet b
      in if length A = 0 \<or> length B = 0 then 0
         else (let inter = foldl (\<lambda>n t. if t \<in> set B then n + 1 else n) (0::nat) A
               in of_nat inter / of_nat (max (length A) (length B))))"

section \<open>Parsing the key string of the primary provider\<close>

text \<open>
  \<open>parseGetsongKeyOf\<close>. The compact form \<open>/^([A-Ga-g])([#b..]?)(m)?$/\<close> (the class also
  holds U+266F and U+266D) matches a letter, at most one accidental and at most one \<open>m\<close>:
  the list patterns of \<open>matchCompact\<close> (an accidental is never \<open>m\<close>, so the match is
  unambiguous). The verbose form \<open>/^([A-Ga-g])([#b..]?)\s*(major|minor)$/i\<close> ignores case,
  so its accidental class also holds \<open>B\<close>; a code unit outside ASCII never matches an ASCII
  letter under \<open>/i\<close>. Since no accidental is white space or the letter \<open>m\<close>, taking the
  accidental whenever one is there is what the backtracking matcher finds. Both matchers
  return the groups: the letter, the accidental (possibly empty) and the third group.
\<close>

definition isAccidental :: "nat \<Rightarrow> bool" where
  "isAccidental c = (c = 35 \<or> c = 98 \<or> c = 9839 \<or> c = 9837)"

text \<open>The two single replacements applied to the accidental group: U+266F to \<open>#\<close>, U+266D to \<open>b\<close>.\<close>

definition accidentalAscii :: "jstring \<Rightarrow> jstring" where
  "accidentalAscii acc = replaceFirst 9837 (js ''b'') (replaceFirst 9839 (js ''#'') acc)"

text \<open>ASCII lower case, the folding \<open>/i\<close> applies when it matches \<open>major|minor\<close>.\<close>

definition asciiLower :: "jstring \<Rightarrow> jstring" where
  "asciiLower s = map (\<lambda>c. if 65 \<le> c \<and> c \<le> 90 then c + 32 else c) s"

definition matchCompact :: "jstring \<Rightarrow> (nat \<times> jstring \<times> bool) option" where
  "matchCompact raw =
     (case raw of
        [l] \<Rightarrow>
          if isNoteLetter l then Some (l, [], False) else None
      | [l, a] \<Rightarrow>
          if isNoteLetter l \<and> isAccidental a then Some (l, [a], False)
          else if isNoteLetter l \<and> a = 109 then Some (l, [], True)
          else None
      | [l, a, m] \<Rightarrow>
          if isNoteLetter l \<and> isAccidental a \<and> m = 109 then Some (l, [a], True) else None
      | _ \<Rightarrow> None)"

definition matchVerbose :: "jstring \<Rightarrow> (nat \<times> jstring \<times> jstring) option" where
  "matchVerbose raw =
     (case raw of
        [] \<Rightarrow> None
      | l # rest \<Rightarrow>
          if \<not> isNoteLetter l then None
          else
            (let (acc, rest') =
                   (case rest of
                      a # r \<Rightarrow> if isAccidental a \<or> a = 66 then ([a], r) else ([], rest)
                    | [] \<Rightarrow> ([], rest));
                 word = dropWhile isWhiteSpace rest'
             in if asciiLower word = js ''major'' \<or> asciiLower word = js ''minor''
                then Some (l, acc, word)
                else None))"

definition parseGetsongKeyOf :: "jstring option \<Rightarrow> (jstring \<times> jstring) option" where
  "parseGetsongKeyOf keyOfRaw =
     (let raw = normalizeWhitespace keyOfRaw
      in if raw = [] then None
         else
           (case matchCompact raw of
              Some (l, acc, isMinor) \<Rightarrow>
                Some (normalizeKeyName (Some (upperUnit l # accidentalAscii acc)),
                      if isMinor then js ''minor'' else js ''major'')
            | None \<Rightarrow>
                (case matchVerbose raw of
                   Some (l, acc, word) \<Rightarrow>
                     Some (normalizeKeyName (Some (upperUnit l # accidentalAscii acc)),
                           toLowerCase word)
                 | None \<Rightarrow> None)))"

section \<open>Records, the store and the outside world\<close>

text \<open>
  What \<open>lookupViaGetSongBpm\<close> returns: the object literal with the fields \<open>camelot\<close>,
  \<open>key\<close>, \<open>mode\<close>, \<open>provider\<close> and \<open>providerId\<close>. The record written to the cache has
  three more fields; the fallback path builds it without \<open>provider\<close> and \<open>providerId\<close>,
  which are then \<open>Undefined\<close>.
\<close>

record keyInfo =
  camelot :: jsval
  key :: jsval
  mode :: jsval
  provider :: jsval
  providerId :: jsval

record resolvedKey = keyInfo +
  mbid :: jsval
  score :: jsval
  cachedAt :: int

text \<open>
  \<open>chrome.storage.local\<close> holds the credential (a string, written by the options page under
  \<open>getsongApiKey\<close>) and the cached records, in one key space.
\<close>

datatype stored = SString jstring | SRecord resolvedKey

datatype request =
    GetSongSearch jstring jstring
  | MusicBrainzSearch jstring
  | AcousticBrainzLowLevel jstring nat

text \<open>
  The state of the worker and of what it touches: the store, the module variable
  \<open>lastMbRequestAt\<close>, the wall clock read by \<open>Date.now()\<close> (milliseconds), and the log of
  the HTTP requests issued so far, each with the time it was issued at.
\<close>

record world =
  storage :: "jstring \<Rightarrow> stored option"
  lastMbRequestAt :: int
  clock :: int
  trace :: "(request \<times> int) list"

datatype error = TypeError | URIError | NetworkFailure | HttpError nat | SyntaxError

text \<open>
  An HTTP exchange ends in a rejected \<open>fetch\<close> or in a status with a body; the body is
  \<open>None\<close> when \<open>res.json()\<close> rejects.
\<close>

datatype 'b response = NetworkError | Http nat "'b option"

text \<open>
  The JSON value of a body that is read with \<open>data.recordings\<close>: the access throws when
  the value is \<open>null\<close>, and any other value is given by what the access yields.
\<close>

datatype 'b json = JsonNull | Json 'b

text \<open>\<open>res.ok\<close>\<close>

definition ok :: "nat \<Rightarrow> bool" where
  "ok st = (200 \<le> st \<and> st \<le> 299)"

text \<open>
  The JSON the providers answer with, typed by the fields the worker reads. A field that is
  absent or \<open>null\<close> is \<open>None\<close>. An item of the primary provider's \<open>search\<close> array:
\<close>

record searchItem =
  s_title :: "jstring option"
  s_artist_name :: "jstring option"
  s_key_of :: "jstring option"
  s_id :: "jstring option"

text \<open>An element of \<open>recordings\<close>; the relevance score is an integer from 0 to 100.\<close>

record recording =
  r_id :: "jstring option"
  r_score :: "int option"

text \<open>The \<open>tonal\<close> object of a low-level analysis.\<close>

record tonal =
  key_key :: "jstring option"
  chords_key :: "jstring option"
  key_scale :: "jstring option"
  chords_scale :: "jstring option"

text \<open>
  The environment is arbitrary but deterministic: each service answers a request, in the
  current state of the world, with a response and the number of milliseconds by which the
  reading of \<open>Date.now()\<close> has moved when the answer arrives. The body of the primary
  provider is its \<open>search\<close> member when that is an array (\<open>data?.search\<close>, so a \<open>null\<close> body
  has none); the body of the recording search is \<open>null\<close> or has a \<open>recordings\<close> member, given
  when that is an array; the body of the analysis service is its \<open>tonal\<close> member
  (\<open>data?.tonal\<close>, every field absent when there is none). \<open>lag\<close> is by how much the clock
  has moved when a storage callback runs, and \<open>timer w ms\<close> by how much it has moved when
  the promise of \<open>sleep(ms)\<close> resolves. None of these is constrained: a timer may fire late
  or early, and the clock may be set back. Time moves where the worker awaits; the code
  between two awaits runs to completion, and every reading of the clock there gives the same
  value. \<open>lowerCase\<close> is the \<open>toLowerCase\<close> of the runtime on text that is not ASCII.
\<close>

record env =
  getsong :: "world \<Rightarrow> jstring \<Rightarrow> jstring \<Rightarrow> searchItem list option response \<times> int"
  musicbrainz :: "world \<Rightarrow> jstring \<Rightarrow> recording list option json response \<times> int"
  acousticbrainz :: "world \<Rightarrow> jstring \<Rightarrow> nat \<Rightarrow> tonal response \<times> int"
  lag :: "world \<Rightarrow> int"
  timer :: "world \<Rightarrow> int \<Rightarrow> int"
  lowerCase :: "jstring \<Rightarrow> jstring"

definition CACHE_TTL_MS :: int where
  "CACHE_TTL_MS = 1000 * 60 * 60 * 24 * 30"

definition MUSICBRAINZ_MIN_SCORE :: int where
  "MUSICBRAINZ_MIN_SCORE = 60"

definition GETSONG_KEY_STORAGE :: jstring where
  "GETSONG_KEY_STORAGE = js ''getsongApiKey''"

definition MB_MIN_INTERVAL_MS :: int where
  "MB_MIN_INTERVAL_MS = 1100"

text \<open>
  \<open>await sleep(ms)\<close>: the worker goes on when the timer fires; it does not read the clock
  to see whether \<open>ms\<close> milliseconds have passed.
\<close>

definition sleep :: "env \<Rightarrow> int \<Rightarrow> world \<Rightarrow> world" where
  "sleep e ms w = w\<lparr>clock := clock w + timer e w ms\<rparr>"

definition storageGet :: "env \<Rightarrow> jstring \<Rightarrow> world \<Rightarrow> stored option \<times> world" where
  "storageGet e k w = (storage w k, w\<lparr>clock := clock w + lag e w\<rparr>)"

definition storageSet :: "env \<Rightarrow> jstring \<Rightarrow> stored \<Rightarrow> world \<Rightarrow> world" where
  "storageSet e k v w =
     (let w1 = w\<lparr>storage := (storage w)(k \<mapsto> v)\<rparr>
      in w1\<lparr>clock := clock w1 + lag e w1\<rparr>)"

text \<open>
  A request leaves at the current time; when its answer arrives the clock has moved by \<open>d\<close>
  milliseconds.
\<close>

definition issue :: "request \<Rightarrow> int \<Rightarrow> world \<Rightarrow> world" where
  "issue r d w = w\<lparr>trace := trace w @ [(r, clock w)], clock := clock w + d\<rparr>"

text \<open>
  \<open>toLowerCase\<close> where the result is kept: \<open>toLowerCase\<close> above on ASCII text, where it is
  exact, and the case mapping of the runtime on any other text.
\<close>

definition toLowerCaseOf :: "env \<Rightarrow> jstring \<Rightarrow> jstring" where
  "toLowerCaseOf e s = (if list_all (\<lambda>c. c < 128) s then toLowerCase s else lowerCase e s)"

text \<open>
  \<open>encodeURIComponent\<close> throws a \<open>URIError\<close> on a lone surrogate; \<open>wellFormed\<close> is the
  absence of one.
\<close>

fun wellFormed :: "jstring \<Rightarrow> bool" where
  "wellFormed [] = True"
| "wellFormed [c] = (\<not> (55296 \<le> c \<and> c \<le> 57343))"
| "wellFormed (c # d # ds) =
     (if 55296 \<le> c \<and> c \<le> 56319 then 56320 \<le> d \<and> d \<le> 57343 \<and> wellFormed ds
      else \<not> (56320 \<le> c \<and> c \<le> 57343) \<and> wellFormed (d # ds))"

text \<open>
  \<open>getGetsongApiKey\<close>: \<open>(r?.[GETSONG_KEY_STORAGE] || "").trim()\<close>. Should a cached record sit
  under that key, \<open>trim\<close> is not a function of it and the call throws.
\<close>

definition getGetsongApiKey :: "env \<Rightarrow> world \<Rightarrow> (error + jstring) \<times> world" where
  "getGetsongApiKey e w =
     (let (r, w1) = storageGet e GETSONG_KEY_STORAGE w
      in case r of
           None \<Rightarrow> (Inr (trim []), w1)
         | Some (SString s) \<Rightarrow> (Inr (trim s), w1)
         | Some (SRecord c) \<Rightarrow> (Inl TypeError, w1))"

section \<open>The rate limiter and the fallback provider\<close>

text \<open>
  \<open>rateLimitedMusicBrainzFetch\<close>. The caller builds the URL from the query \<open>q\<close>, which
  stands for it here. \<open>lastMbRequestAt\<close> is set from a second reading of the clock, after
  the wait.
\<close>

definition rateLimitedMusicBrainzFetch ::
  "env \<Rightarrow> jstring \<Rightarrow> world \<Rightarrow> (error + recording list option json) \<times> world" where
  "rateLimitedMusicBrainzFetch e q w =
     (let now = clock w;
          wait = max 0 (MB_MIN_INTERVAL_MS - (now - lastMbRequestAt w));
          w1 = (if wait \<noteq> 0 then sleep e wait w else w);
          w2 = w1\<lparr>lastMbRequestAt := clock w1\<rparr>;
          (res, d) = musicbrainz e w2 q;
          w3 = issue (MusicBrainzSearch q) d w2
      in case res of
           NetworkError \<Rightarrow> (Inl NetworkFailure, w3)
         | Http st body \<Rightarrow>
             if \<not> ok st then (Inl (HttpError st), w3)
             else (case body of
                     None \<Rightarrow> (Inl SyntaxError, w3)
                   | Some data \<Rightarrow> (Inr data, w3)))"

text \<open>\<open>luceneEscapePhrase\<close>: the backslash (92) first, then the double quote (34).\<close>

definition luceneEscapePhrase :: "jstring option \<Rightarrow> jstring" where
  "luceneEscapePhrase s =
     replaceAll 34 [92, 34] (replaceAll 92 [92, 92] (normalizeWhitespace s))"

text \<open>
  The ranking of one answer: \<open>{mbid: r.id, score: Number(r.score ?? 0)}\<close>, the entries
  with a truthy \<open>mbid\<close> (a missing identifier and an empty one are both dropped), the stable
  sort by descending score, the floor, the first six.
\<close>

definition rankRecordings :: "recording list option \<Rightarrow> (jstring \<times> int) list" where
  "rankRecordings data =
     (let recs = (case data of Some rs \<Rightarrow> rs | None \<Rightarrow> [])
      in take 6
           (filter (\<lambda>x. snd x \<ge> MUSICBRAINZ_MIN_SCORE)
              (sort_key (\<lambda>x. - snd x)
                 (filter (\<lambda>x. fst x \<noteq> [])
                    (map (\<lambda>r. (orEmpty (r_id r), case r_score r of Some n \<Rightarrow> n | None \<Rightarrow> 0))
                       recs)))))"

text \<open>
  The loop \<open>for (const q of queries)\<close>. \<open>data.recordings\<close> throws a \<open>TypeError\<close> when the
  body is \<open>null\<close>.
\<close>

fun searchQueries ::
  "env \<Rightarrow> jstring list \<Rightarrow> world \<Rightarrow> (error + (jstring \<times> int) list) \<times> world" where
  "searchQueries e [] w = (Inr [], w)"
| "searchQueries e (q # qs) w =
     (if \<not> wellFormed q then (Inl URIError, w)
      else (case rateLimitedMusicBrainzFetch e q w of
              (Inl err, w1) \<Rightarrow> (Inl err, w1)
            | (Inr JsonNull, w1) \<Rightarrow> (Inl TypeError, w1)
            | (Inr (Json data), w1) \<Rightarrow>
                (let ranked = rankRecordings data
                 in if ranked \<noteq> [] then (Inr ranked, w1) else searchQueries e qs w1)))"

definition searchMusicBrainzRecordings ::
  "env \<Rightarrow> jstring \<Rightarrow> jstring \<Rightarrow> world \<Rightarrow> (error + (jstring \<times> int) list) \<times> world" where
  "searchMusicBrainzRecordings e title artist w =
     (let t = luceneEscapePhrase (Some title);
          a = luceneEscapePhrase (Some artist);
          queries =
            [js ''recording:'' @ [34] @ t @ [34] @ js '' AND artist:'' @ [34] @ a @ [34],
             js ''recording:'' @ [34] @ t @ [34] @ js '' AND artist:'' @ a,
             js ''recording:'' @ [34] @ t @ [34]]
      in searchQueries e queries w)"

text \<open>
  \<open>fetchAcousticBrainzKeyAnySubmission\<close>: the loop over the submission index \<open>n\<close>, from
  \<open>n\<close> on. It calls \<open>fetch\<close> itself, not the rate-limited one.
\<close>

function submissionsFrom ::
  "env \<Rightarrow> jstring \<Rightarrow> nat \<Rightarrow> world \<Rightarrow> (error + (jstring \<times> jstring) option) \<times> world" where
  "submissionsFrom e m n w =
     (if n < 3 then
        (let (res, d) = acousticbrainz e w m n;
             w1 = issue (AcousticBrainzLowLevel m n) d w
         in case res of
              NetworkError \<Rightarrow> (Inl NetworkFailure, w1)
            | Http st body \<Rightarrow>
                if st = 404 then (Inr None, w1)
                else if \<not> ok st then (Inr None, w1)
                else (case body of
                        None \<Rightarrow> (Inl SyntaxError, w1)
                      | Some t \<Rightarrow>
                          (let k = (case key_key t of Some x \<Rightarrow> Some x | None \<Rightarrow> chords_key t);
                               s = (case key_scale t of Some x \<Rightarrow> Some x | None \<Rightarrow> chords_scale t)
                           in if orEmpty k \<noteq> [] \<and> orEmpty s \<noteq> []
                              then (Inr (Some (orEmpty k, orEmpty s)), w1)
                              else submissionsFrom e m (n + 1) w1)))
      else (Inr None, w))"
  by pat_completeness auto
termination
  by (relation "measure (\<lambda>(e, m, n, w). 3 - n)") auto

declare submissionsFrom.simps [simp del]

definition fetchAcousticBrainzKeyAnySubmission ::
  "env \<Rightarrow> jstring \<Rightarrow> world \<Rightarrow> (error + (jstring \<times> jstring) option) \<times> world" where
  "fetchAcousticBrainzKeyAnySubmission e m w = submissionsFrom e m 0 w"

section \<open>The primary provider\<close>

subsection \<open>Double-precision arithmetic\<close>

text \<open>
  A JavaScript number is an IEEE 754 double, and every arithmetic operation returns the
  double nearest to the exact result, a tie going to the one with an even significand. A
  finite double is a rational number, so the numbers of the score are rationals and
  \<open>toDouble\<close> is that rounding. \<open>binade x\<close> is the exponent \<open>e\<close> with
  \<open>2^e \<le> x < 2^(e+1)\<close>, but never below -1022, where the subnormal numbers begin; the
  doubles of that binade are the multiples of \<open>2^(e-52)\<close>. The search for the exponent
  covers the whole range of the finite doubles (magnitudes below \<open>2^1024\<close>).
\<close>

definition pow2 :: "int \<Rightarrow> rat" where
  "pow2 d = (if 0 \<le> d then 2 ^ nat d else 1 / 2 ^ nat (- d))"

fun exponentDown :: "nat \<Rightarrow> rat \<Rightarrow> int \<Rightarrow> int" where
  "exponentDown n x d = (if n = 0 \<or> pow2 d \<le> x then d else exponentDown (n - 1) x (d - 1))"

fun exponentUp :: "nat \<Rightarrow> rat \<Rightarrow> int \<Rightarrow> int" where
  "exponentUp n x d = (if n = 0 \<or> x < pow2 (d + 1) then d else exponentUp (n - 1) x (d + 1))"

declare exponentDown.simps [simp del] exponentUp.simps [simp del]

definition binade :: "rat \<Rightarrow> int" where
  "binade x = (if 1 \<le> x then exponentUp 1023 x 0 else exponentDown 1022 x 0)"

text \<open>The integer nearest to \<open>q\<close>, the even one when two are equally near.\<close>

definition roundHalfEven :: "rat \<Rightarrow> int" where
  "roundHalfEven q =
     (let n = \<lfloor>q\<rfloor>; r = q - of_int n
      in if r < 1 / 2 then n else if 1 / 2 < r then n + 1 else if even n then n else n + 1)"

definition roundTo :: "rat \<Rightarrow> rat \<Rightarrow> rat" where
  "roundTo ulp x = of_int (roundHalfEven (x / ulp)) * ulp"

definition toDouble :: "rat \<Rightarrow> rat" where
  "toDouble x = (if x = 0 then 0 else roundTo (pow2 (binade \<bar>x\<bar> - 52)) x)"

text \<open>
  The match score of one search result, \<open>(tScore * 0.7) + (aScore * 0.3)\<close>: the two
  quotients, the two literals, the two products and the sum are each rounded to a double.
\<close>

definition matchScore :: "jstring \<Rightarrow> jstring \<Rightarrow> searchItem \<Rightarrow> rat" where
  "matchScore title artist s =
     (let tScore = toDouble (tokenOverlapScore (Some (orEmpty (s_title s))) (Some title));
          aScore = toDouble (tokenOverlapScore (Some (orEmpty (s_artist_name s))) (Some artist))
      in toDouble (toDouble (tScore * toDouble (7 / 10)) + toDouble (aScore * toDouble (3 / 10))))"

text \<open>
  \<open>items.map(...).sort((a, b) => b.score - a.score)\<close>; the sort is stable, and the
  difference of two doubles has the sign of their exact difference.
\<close>

definition rankItems :: "jstring \<Rightarrow> jstring \<Rightarrow> searchItem list \<Rightarrow> (searchItem \<times> rat) list" where
  "rankItems title artist items =
     sort_key (\<lambda>p. - snd p) (map (\<lambda>s. (s, matchScore title artist s)) items)"

text \<open>The loop over \<open>ranked.slice(0, 5)\<close>, given that slice.\<close>

fun firstParsed :: "(searchItem \<times> rat) list \<Rightarrow> keyInfo option" where
  "firstParsed [] = None"
| "firstParsed ((s, sc) # rest) =
     (case parseGetsongKeyOf (s_key_of s) of
        None \<Rightarrow> firstParsed rest
      | Some (k, scale) \<Rightarrow>
          Some \<lparr>camelot = jsOr (keyToCamelot (Some k) (Some scale)) Null,
                key = Str k,
                mode = Str scale,
                provider = Str (js ''getsongbpm''),
                providerId = jsOr (Str (orEmpty (s_id s))) Null\<rparr>)"

definition lookupViaGetSongBpm ::
  "env \<Rightarrow> jstring \<Rightarrow> jstring \<Rightarrow> world \<Rightarrow> (error + keyInfo option) \<times> world" where
  "lookupViaGetSongBpm e title artist w =
     (case getGetsongApiKey e w of
        (Inl err, w1) \<Rightarrow> (Inl err, w1)
      | (Inr apiKey, w1) \<Rightarrow>
          if apiKey = [] then (Inr None, w1)
          else
            (let lookup = js ''song:'' @ normalizeWhitespace (Some title)
                          @ js '' artist:'' @ normalizeWhitespace (Some artist)
             in if \<not> wellFormed lookup then (Inl URIError, w1)
                else
                  (let (res, d) = getsong e w1 lookup apiKey;
                       w2 = issue (GetSongSearch lookup apiKey) d w1
                   in case res of
                        NetworkError \<Rightarrow> (Inl NetworkFailure, w2)
                      | Http st body \<Rightarrow>
                          if \<not> ok st then (Inr None, w2)
                          else
                            (case body of
                               None \<Rightarrow> (Inl SyntaxError, w2)
                             | Some data \<Rightarrow>
                                 (let items = (case data of Some xs \<Rightarrow> xs | None \<Rightarrow> [])
                                  in if items = [] then (Inr None, w2)
                                     else (Inr (firstParsed (take 5 (rankItems title artist items))),
                                           w2))))))"

section \<open>The orchestrator\<close>

text \<open>The loop \<open>for (const mb of candidates)\<close>: the first candidate with tonal data.\<close>

fun firstTonal ::
  "env \<Rightarrow> (jstring \<times> int) list \<Rightarrow> world \<Rightarrow>
     (error + ((jstring \<times> int) \<times> (jstring \<times> jstring)) option) \<times> world" where
  "firstTonal e [] w = (Inr None, w)"
| "firstTonal e (mb # rest) w =
     (case fetchAcousticBrainzKeyAnySubmission e (fst mb) w of
        (Inl err, w1) \<Rightarrow> (Inl err, w1)
      | (Inr None, w1) \<Rightarrow> firstTonal e rest w1
      | (Inr (Some ab), w1) \<Rightarrow> (Inr (Some (mb, ab)), w1))"

text \<open>
  \<open>lookupCamelot\<close> is one function in the source; it is written here as its three
  consecutive parts. \<open>fallback\<close> is the part from the comment \<open>2) Fallback: MusicBrainz ->
  AcousticBrainz\<close> to the end: the search, the miss when there is no candidate, the loop, and
  the miss that carries the first candidate. None of its three records lists a \<open>provider\<close>
  or a \<open>providerId\<close>. The \<open>mode\<close> is \<open>ab.scale?.toLowerCase() || null\<close>, kept as it is.
\<close>

definition fallback ::
  "env \<Rightarrow> int \<Rightarrow> jstring \<Rightarrow> jstring \<Rightarrow> jstring \<Rightarrow> world \<Rightarrow> (error + resolvedKey) \<times> world" where
  "fallback e now cacheKey title artist w =
     (case searchMusicBrainzRecordings e title artist w of
        (Inl err, w1) \<Rightarrow> (Inl err, w1)
      | (Inr candidates, w1) \<Rightarrow>
          if candidates = [] then
            (let miss = \<lparr>camelot = Null, key = Null, mode = Null,
                          provider = Undefined, providerId = Undefined,
                          mbid = Null, score = Null, cachedAt = now\<rparr>
             in (Inr miss, storageSet e cacheKey (SRecord miss) w1))
          else
            (case firstTonal e candidates w1 of
               (Inl err, w2) \<Rightarrow> (Inl err, w2)
             | (Inr (Some (mb, ab)), w2) \<Rightarrow>
                 (let out = \<lparr>camelot = jsOr (keyToCamelot (Some (fst ab)) (Some (snd ab))) Null,
                              key = Str (normalizeKeyName (Some (fst ab))),
                              mode = jsOr (Str (toLowerCaseOf e (snd ab))) Null,
                              provider = Undefined, providerId = Undefined,
                              mbid = Str (fst mb), score = Num (snd mb),
                              cachedAt = now\<rparr>
                  in (Inr out, storageSet e cacheKey (SRecord out) w2))
             | (Inr None, w2) \<Rightarrow>
                 (let miss = \<lparr>camelot = Null, key = Null, mode = Null,
                               provider = Undefined, providerId = Undefined,
                               mbid = Str (fst (hd candidates)),
                               score = Num (snd (hd candidates)),
                               cachedAt = now\<rparr>
                  in (Inr miss, storageSet e cacheKey (SRecord miss) w2))))"

text \<open>
  \<open>resolveUncached\<close> is the part from the comment \<open>1) Try GetSongBPM first\<close> on: the primary
  provider, whose hit is completed by \<open>{...gsb, mbid: null, score: null, cachedAt: now}\<close>,
  then the fallback.
\<close>

definition resolveUncached ::
  "env \<Rightarrow> int \<Rightarrow> jstring \<Rightarrow> jstring \<Rightarrow> jstring \<Rightarrow> world \<Rightarrow> (error + resolvedKey) \<times> world" where
  "resolveUncached e now cacheKey title artist w =
     (case lookupViaGetSongBpm e title artist w of
        (Inl err, w1) \<Rightarrow> (Inl err, w1)
      | (Inr (Some gsb), w1) \<Rightarrow>
          (let out = \<lparr>camelot = camelot gsb, key = key gsb, mode = mode gsb,
                       provider = provider gsb, providerId = providerId gsb,
                       mbid = Null, score = Null, cachedAt = now\<rparr>
           in (Inr out, storageSet e cacheKey (SRecord out) w1))
      | (Inr None, w1) \<Rightarrow> fallback e now cacheKey title artist w1)"

text \<open>
  The entry of \<open>lookupCamelot\<close>: \<open>now\<close> is read once, then the cache check
  \<open>cached && (now - cached.cachedAt) < CACHE_TTL_MS\<close>. A stored value that is not a record
  has no \<open>cachedAt\<close> and is not fresh.
\<close>

definition lookupCamelot ::
  "env \<Rightarrow> jstring \<Rightarrow> jstring \<Rightarrow> jstring \<Rightarrow> world \<Rightarrow> (error + resolvedKey) \<times> world" where
  "lookupCamelot e cacheKey title artist w =
     (let now = clock w;
          (cached, w1) = storageGet e cacheKey w
      in case cached of
           Some (SRecord c) \<Rightarrow>
             if now - cachedAt c < CACHE_TTL_MS then (Inr c, w1)
             else resolveUncached e now cacheKey title artist w1
         | _ \<Rightarrow> resolveUncached e now cacheKey title artist w1)"

section \<open>The message listener and the serial queue\<close>

record message =
  msg_type :: "jstring option"
  msg_cacheKey :: "jstring option"
  msg_title :: "jstring option"
  msg_artist :: "jstring option"

text \<open>What \<open>sendResponse\<close> is called with: \<open>{ok: true, data}\<close> or \<open>{ok: false, error}\<close>.\<close>

datatype reply = Okay "resolvedKey option" | Failed error

text \<open>The body of the continuation appended to the chain: the \<open>try\<close> block and its \<open>catch\<close>.\<close>

definition job :: "env \<Rightarrow> message \<Rightarrow> world \<Rightarrow> reply \<times> world" where
  "job e msg w =
     (let title = normalizeWhitespace (msg_title msg);
          artist = normalizeWhitespace (msg_artist msg);
          cacheKey = msg_cacheKey msg
      in if title = [] \<or> artist = [] \<or> orEmpty cacheKey = [] then (Okay None, w)
         else (case lookupCamelot e (orEmpty cacheKey) title artist w of
                 (Inl err, w1) \<Rightarrow> (Failed err, w1)
               | (Inr data, w1) \<Rightarrow> (Okay (Some data), w1)))"

section \<open>Concrete worlds and environments for the examples\<close>

text \<open>
  A world at some time of day with an empty store, and the same world once the options page
  has saved a credential. \<open>constEnv\<close> is an environment in which every service always gives
  the same answer: the primary provider the given \<open>search\<close> array after 120 ms, the
  recording search the given \<open>recordings\<close> after 80 ms, the analysis service the given
  response for a recording and a submission index after 50 ms; a storage callback takes no
  time and a timer fires exactly when it is due. Its \<open>lowerCase\<close> maps the capital letters
  of ASCII and of Latin-1 (U+00C0 to U+00DE without the sign U+00D7), which is the
  \<open>toLowerCase\<close> of JavaScript on text whose code units are all below 256.
\<close>

definition latin1LowerCase :: "jstring \<Rightarrow> jstring" where
  "latin1LowerCase s =
     map (\<lambda>c. if (65 \<le> c \<and> c \<le> 90) \<or> (192 \<le> c \<and> c \<le> 222 \<and> c \<noteq> 215)
              then c + 32 else c) s"

definition world0 :: world where
  "world0 = \<lparr>storage = Map.empty, lastMbRequestAt = 0, clock = 1700000000000, trace = []\<rparr>"

definition worldWithKey :: world where
  "worldWithKey = world0\<lparr>storage := [GETSONG_KEY_STORAGE \<mapsto> SString (js ''k1'')]\<rparr>"

definition constEnv ::
  "searchItem list \<Rightarrow> recording list \<Rightarrow> (jstring \<Rightarrow> nat \<Rightarrow> tonal response) \<Rightarrow> env" where
  "constEnv items recs ab =
     \<lparr>getsong = (\<lambda>w l k. (Http 200 (Some (Some items)), 120)),
      musicbrainz = (\<lambda>w q. (Http 200 (Some (Json (Some recs))), 80)),
      acousticbrainz = (\<lambda>w m n. (ab m n, 50)),
      lag = (\<lambda>w. 0),
      timer = (\<lambda>w ms. ms),
      lowerCase = latin1LowerCase\<rparr>"

text \<open>
  Two search results for the query \<open>Strobe\<close> by \<open>deadmau5\<close>: an exact match without a key
  string, and a live version with the key string \<open>F#m\<close>.
\<close>

definition strobeExact :: searchItem where
  "strobeExact =
     \<lparr>s_title = Some (js ''Strobe''), s_artist_name = Some (js ''deadmau5''),
      s_key_of = None, s_id = Some (js ''7'')\<rparr>"

definition strobeLive :: searchItem where
  "strobeLive =
     \<lparr>s_title = Some (js ''Strobe (Live)''), s_artist_name = Some (js ''deadmau5''),
      s_key_of = Some (js ''F#m''), s_id = Some (js ''42'')\<rparr>"

definition noAnalysis :: "jstring \<Rightarrow> nat \<Rightarrow> tonal response" where
  "noAnalysis m n = Http 404 None"

section \<open>Vocabulary for the statements about the fallback\<close>

text \<open>
  \<open>skipped e pre w\<close>: the candidates \<open>pre\<close> are tried in order from the world \<open>w\<close> and
  each lookup of tonal data returns \<open>null\<close>; the result is the world after the last of them.
\<close>

fun skipped :: "env \<Rightarrow> (jstring \<times> int) list \<Rightarrow> world \<Rightarrow> world option" where
  "skipped e [] w = Some w"
| "skipped e (c # cs) w =
     (case fetchAcousticBrainzKeyAnySubmission e (fst c) w of
        (Inr None, w1) \<Rightarrow> skipped e cs w1
      | _ \<Rightarrow> None)"

text \<open>Two recordings and an analysis service that knows the second one only.\<close>

definition recA :: recording where
  "recA = \<lparr>r_id = Some (js ''mb-1''), r_score = Some 100\<rparr>"

definition recB :: recording where
  "recB = \<lparr>r_id = Some (js ''mb-2''), r_score = Some 95\<rparr>"

definition recLow :: recording where
  "recLow = \<lparr>r_id = Some (js ''mb-3''), r_score = Some 59\<rparr>"

text \<open>The recording \<open>mb-2\<close> with a score of exactly 60.\<close>

definition recFloor :: recording where
  "recFloor = \<lparr>r_id = Some (js ''mb-2''), r_score = Some 60\<rparr>"

definition analysisOfB :: "jstring \<Rightarrow> nat \<Rightarrow> tonal response" where
  "analysisOfB m n =
     (if m = js ''mb-2''
      then Http 200 (Some \<lparr>key_key = Some (js ''A''), chords_key = None,
                            key_scale = Some (js ''minor''), chords_scale = None\<rparr>)
      else Http 404 None)"

text \<open>A search result whose key string is \<open>B#\<close>, and the cache key of the query.\<close>

definition strobeBsharp :: searchItem where
  "strobeBsharp =
     \<lparr>s_title = Some (js ''Strobe''), s_artist_name = Some (js ''deadmau5''),
      s_key_of = Some (js ''B#''), s_id = Some (js ''9'')\<rparr>"

definition strobeKey :: jstring where
  "strobeKey = js ''ta:strobe|deadmau5''"

text \<open>The first query of the recording search for it: \<open>recording:"Strobe" AND artist:"deadmau5"\<close>.\<close>

definition strobeQuery :: jstring where
  "strobeQuery =
     js ''recording:'' @ [34] @ js ''Strobe'' @ [34] @ js '' AND artist:'' @ [34]
       @ js ''deadmau5'' @ [34]"

text \<open>A record cached at time \<open>t\<close> under the cache key of the query, beside the credential.\<close>

definition cachedRecord :: "int \<Rightarrow> resolvedKey" where
  "cachedRecord t =
     \<lparr>camelot = Str (js ''5A''), key = Str (js ''C''), mode = Str (js ''minor''),
      provider = Str (js ''getsongbpm''), providerId = Str (js ''3''),
      mbid = Null, score = Null, cachedAt = t\<rparr>"

definition worldCached :: "int \<Rightarrow> world" where
  "worldCached t =
     worldWithKey\<lparr>storage := (storage worldWithKey)(strobeKey \<mapsto> SRecord (cachedRecord t))\<rparr>"

text \<open>
  The same record in a store without a credential, and an environment whose recording
  search is out of service (status 503).
\<close>

definition worldStale :: "int \<Rightarrow> world" where
  "worldStale t = world0\<lparr>storage := [strobeKey \<mapsto> SRecord (cachedRecord t)]\<rparr>"

definition outOfService :: "env \<Rightarrow> env" where
  "outOfService e = e\<lparr>musicbrainz := (\<lambda>w q. (Http 503 None, 80))\<rparr>"

text \<open>An environment whose recording search answers with the JSON value \<open>null\<close>.\<close>

definition nullBody :: "env \<Rightarrow> env" where
  "nullBody e = e\<lparr>musicbrainz := (\<lambda>w q. (Http 200 (Some JsonNull), 80))\<rparr>"

text \<open>
  Two search results for the query \<open>a b c d\<close> by \<open>w x y z\<close>: the first shares three of
  four tokens in the title and in the artist, the second has the exact title and shares one
  of six tokens in the artist. Both scores are 3/4 in exact arithmetic.
\<close>

definition nearBoth :: searchItem where
  "nearBoth =
     \<lparr>s_title = Some (js ''a b c''), s_artist_name = Some (js ''w x y''),
      s_key_of = Some (js ''Am''), s_id = Some (js ''1'')\<rparr>"

definition exactTitle :: searchItem where
  "exactTitle =
     \<lparr>s_title = Some (js ''a b c d''), s_artist_name = Some (js ''w p q r s t''),
      s_key_of = Some (js ''Em''), s_id = Some (js ''2'')\<rparr>"

section \<open>Vocabulary for the statements about the rate limiter\<close>

fun isRecordingSearch :: "request \<Rightarrow> bool" where
  "isRecordingSearch (MusicBrainzSearch q) = True"
| "isRecordingSearch (GetSongSearch l k) = False"
| "isRecordingSearch (AcousticBrainzLowLevel m n) = False"

text \<open>The times at which the requests to the recording search left, in order.\<close>

definition mbTimes :: "(request \<times> int) list \<Rightarrow> int list" where
  "mbTimes tr = map snd (filter (\<lambda>p. isRecordingSearch (fst p)) tr)"

text \<open>Each time is at least the minimum interval after the one before it.\<close>

fun spaced :: "int list \<Rightarrow> bool" where
  "spaced [] = True"
| "spaced [t] = True"
| "spaced (t # t' # ts) = (t + MB_MIN_INTERVAL_MS \<le> t' \<and> spaced (t' # ts))"

text \<open>
  The invariant of the limiter: the recording searches so far are spaced, and none left
  later than \<open>lastMbRequestAt\<close>.
\<close>

definition limited :: "world \<Rightarrow> bool" where
  "limited w =
     (spaced (mbTimes (trace w))
      \<and> (\<forall>t \<in> set (mbTimes (trace w)). t \<le> lastMbRequestAt w))"

text \<open>
  A step that leaves the limiter alone: no recording search is sent and \<open>lastMbRequestAt\<close>
  is kept.
\<close>

definition quiet :: "world \<Rightarrow> world \<Rightarrow> bool" where
  "quiet w w' =
     (mbTimes (trace w') = mbTimes (trace w)
      \<and> lastMbRequestAt w' = lastMbRequestAt w)"

text \<open>
  A step that only reads the store and sends requests: the store is kept and the log grows
  at its end. A calm step, besides, sends no recording search and keeps \<open>lastMbRequestAt\<close>.
\<close>

definition readOnly :: "world \<Rightarrow> world \<Rightarrow> bool" where
  "readOnly w w' = (storage w' = storage w \<and> (\<exists>tr. trace w' = trace w @ tr))"

definition calm :: "world \<Rightarrow> world \<Rightarrow> bool" where
  "calm w w' =
     (storage w' = storage w
      \<and> lastMbRequestAt w' = lastMbRequestAt w
      \<and> (\<exists>tr. trace w' = trace w @ tr \<and> list_all (\<lambda>p. \<not> isRecordingSearch (fst p)) tr))"

text \<open>
  An environment in which no timer fires early: when the promise of \<open>sleep(ms)\<close> resolves,
  the clock reads at least \<open>ms\<close> more than it did. \<open>hasty e\<close> is \<open>e\<close> with timers that fire
  one millisecond early.
\<close>

definition punctual :: "env \<Rightarrow> bool" where
  "punctual e = (\<forall>w ms. ms \<le> timer e w ms)"

definition hasty :: "env \<Rightarrow> env" where
  "hasty e = e\<lparr>timer := (\<lambda>w ms. ms - 1)\<rparr>"

text \<open>The worker handles the messages one after the other (the serial queue).\<close>

definition runJobs :: "env \<Rightarrow> message list \<Rightarrow> world \<Rightarrow> world" where
  "runJobs e msgs w = foldl (\<lambda>w msg. snd (job e msg w)) w msgs"

text \<open>An analysis service that has a submission without tonal data at every index.\<close>

definition analysisEmpty :: "jstring \<Rightarrow> nat \<Rightarrow> tonal response" where
  "analysisEmpty m n =
     Http 200 (Some \<lparr>key_key = None, chords_key = None, key_scale = None, chords_scale = None\<rparr>)"

definition strobeMessage :: message where
  "strobeMessage =
     \<lparr>msg_type = Some (js ''LOOKUP_CAMELot''), msg_cacheKey = Some strobeKey,
      msg_title = Some (js ''Strobe''), msg_artist = Some (js ''deadmau5'')\<rparr>"

section \<open>The promise chain\<close>

text \<open>
  The module variable \<open>queue\<close> is a promise. The listener replaces it by
  \<open>queue.then(continuation)\<close>, so the promises form a chain with one entry per accepted
  message, in the order of arrival. An entry is waiting until the promise before it is
  fulfilled, then its continuation runs, and it is settled when the continuation returns;
  the continuation catches every exception, so its promise is always fulfilled.

  A running continuation sends its requests one at a time, each under an \<open>await\<close>:
  \<open>Running a rs\<close> is a continuation that awaits the answer to the request \<open>a\<close>, if any,
  and will still send the requests \<open>rs\<close>.
\<close>

datatype status = Waiting | Running "request option" "request list" | Settled reply

record worker =
  wstate :: world
  chain :: "(message \<times> status) list"

text \<open>
  The listener: a message of another type is ignored (the listener returns without
  answering); otherwise the continuation is appended, whatever the message holds.
\<close>

definition onMessage :: "message \<Rightarrow> worker \<Rightarrow> worker" where
  "onMessage msg k =
     (let t = msg_type msg
      in if t \<noteq> Some (js ''LOOKUP_CAMELOT'') \<and> t \<noteq> Some (js ''LOOKUP_CAMELot'') then k
         else k\<lparr>chain := chain k @ [(msg, Waiting)]\<rparr>)"

fun isSettled :: "status \<Rightarrow> bool" where
  "isSettled (Settled r) = True"
| "isSettled Waiting = False"
| "isSettled (Running a rs) = False"

fun isRunning :: "status \<Rightarrow> bool" where
  "isRunning (Running a rs) = True"
| "isRunning Waiting = False"
| "isRunning (Settled r) = False"

text \<open>The world \<open>w\<close> once the clock has moved by \<open>d\<close> milliseconds.\<close>

definition later :: "int \<Rightarrow> world \<Rightarrow> world" where
  "later d w = w\<lparr>clock := clock w + d\<rparr>"

text \<open>The requests that the continuation of \<open>msg\<close> sends when it runs from the world \<open>w\<close>.\<close>

definition requestsOf :: "env \<Rightarrow> message \<Rightarrow> world \<Rightarrow> request list" where
  "requestsOf e msg w = map fst (drop (length (trace w)) (trace (snd (job e msg w))))"

text \<open>
  One step of the event loop. A message may arrive at any moment. While no continuation is
  running, time may pass (while one is running, time passes as the environment says, at each
  \<open>await\<close>). A waiting continuation starts when it is the first of the chain or the entry
  just before it is settled. A running continuation that awaits no answer sends its next
  request; the answer to the request it awaits arrives; when it awaits none and has none left
  to send it finishes, with the reply and the world that \<open>job\<close> computes.
\<close>

inductive step :: "env \<Rightarrow> worker \<Rightarrow> worker \<Rightarrow> bool" for e :: env where
  arrive: "step e k (onMessage msg k)"
| idle:
    "list_all (\<lambda>p. \<not> isRunning (snd p)) (chain k) \<Longrightarrow>
     step e k (k\<lparr>wstate := later d (wstate k)\<rparr>)"
| start:
    "chain k = before @ (msg, Waiting) # rest \<Longrightarrow>
     before = [] \<or> isSettled (snd (last before)) \<Longrightarrow>
     step e k (k\<lparr>chain := before @ (msg, Running None (requestsOf e msg (wstate k))) # rest\<rparr>)"
| send:
    "chain k = before @ (msg, Running None (q # qs)) # rest \<Longrightarrow>
     step e k (k\<lparr>chain := before @ (msg, Running (Some q) qs) # rest\<rparr>)"
| receive:
    "chain k = before @ (msg, Running (Some q) qs) # rest \<Longrightarrow>
     step e k (k\<lparr>chain := before @ (msg, Running None qs) # rest\<rparr>)"
| finish:
    "chain k = before @ (msg, Running None []) # rest \<Longrightarrow>
     job e msg (wstate k) = (r, w') \<Longrightarrow>
     step e k (k\<lparr>wstate := w', chain := before @ (msg, Settled r) # rest\<rparr>)"

section \<open>Vocabulary for the statements about the queue\<close>

text \<open>
  The shape of a serial chain: settled entries, then at most one running entry, then
  waiting entries only.
\<close>

fun serial :: "status list \<Rightarrow> bool" where
  "serial [] = True"
| "serial (Settled r # ss) = serial ss"
| "serial (Running a rs # ss) = list_all (\<lambda>s. s = Waiting) ss"
| "serial (Waiting # ss) = list_all (\<lambda>s. s = Waiting) ss"

text \<open>The provider requests that have been sent and not yet answered.\<close>

fun awaited :: "status \<Rightarrow> request list" where
  "awaited (Running (Some q) rs) = [q]"
| "awaited (Running None rs) = []"
| "awaited Waiting = []"
| "awaited (Settled r) = []"

definition inFlight :: "worker \<Rightarrow> request list" where
  "inFlight k = concat (map (\<lambda>p. awaited (snd p)) (chain k))"

text \<open>The entries that have been answered, in the order of the chain.\<close>

definition settled :: "worker \<Rightarrow> (message \<times> status) list" where
  "settled k = filter (\<lambda>p. isSettled (snd p)) (chain k)"

text \<open>
  The continuations of a schedule run one after the other from \<open>w\<close>, the clock having
  moved by the given number of milliseconds before each: the world they leave, and their
  replies.
\<close>

fun runAt :: "env \<Rightarrow> (int \<times> message) list \<Rightarrow> world \<Rightarrow> world" where
  "runAt e [] w = w"
| "runAt e ((d, msg) # sched) w = runAt e sched (snd (job e msg (later d w)))"

fun repliesAt :: "env \<Rightarrow> (int \<times> message) list \<Rightarrow> world \<Rightarrow> reply list" where
  "repliesAt e [] w = []"
| "repliesAt e ((d, msg) # sched) w =
     fst (job e msg (later d w)) # repliesAt e sched (snd (job e msg (later d w)))"

text \<open>
  A message the continuation answers at once: the title or the artist is missing or
  normalizes to the empty string, or the cache key is missing or empty.
\<close>

definition incomplete :: "message \<Rightarrow> bool" where
  "incomplete msg =
     (normalizeWhitespace (msg_title msg) = []
      \<or> normalizeWhitespace (msg_artist msg) = []
      \<or> orEmpty (msg_cacheKey msg) = [])"

definition isLookup :: "message \<Rightarrow> bool" where
  "isLookup msg =
     (msg_type msg = Some (js ''LOOKUP_CAMELOT'') \<or> msg_type msg = Some (js ''LOOKUP_CAMELot''))"

text \<open>A lookup message without a title, and a worker that has just started.\<close>

definition untitledMessage :: message where
  "untitledMessage =
     \<lparr>msg_type = Some (js ''LOOKUP_CAMELot''), msg_cacheKey = Some strobeKey,
      msg_title = None, msg_artist = Some (js ''deadmau5'')\<rparr>"

definition worker0 :: worker where
  "worker0 = \<lparr>wstate = world0, chain = []\<rparr>"

text \<open>
  A worker that has just started with a credential in the store, the request that a lookup
  of \<open>Strobe\<close> sends to the primary provider, and the record that the lookup returns when
  the live version answers.
\<close>

definition workerWithKey :: worker where
  "workerWithKey = \<lparr>wstate = worldWithKey, chain = []\<rparr>"

definition strobeSearch :: request where
  "strobeSearch = GetSongSearch (js ''song:Strobe artist:deadmau5'') (js ''k1'')"

definition strobeRecord :: resolvedKey where
  "strobeRecord =
     \<lparr>camelot = Str (js ''11A''), key = Str (js ''F#''), mode = Str (js ''minor''),
      provider = Str (js ''getsongbpm''), providerId = Str (js ''42''),
      mbid = Null, score = Null, cachedAt = 1700000000000\<rparr>"

section \<open>Properties of the key theory\<close>

lemmas string_defs = js_def toLowerCase_def lowerUnit_def toUpperCase_def upperUnit_def
  normalizeWhitespace_def trim_def isWhiteSpace_def replaceAll_def

lemma map_of_MAJOR_None: "map_of MAJOR k = None \<longleftrightarrow> k \<notin> set noteNames"
  by (simp add: MAJOR_def noteNames_def js_def)

lemma map_of_MINOR_None: "map_of MINOR k = None \<longleftrightarrow> k \<notin> set noteNames"
  by (simp add: MINOR_def noteNames_def js_def)

lemma pitch_class_cases: "(p::nat) < 12 \<Longrightarrow> p \<in> {0, 1, 2, 3, 4, 5, 6, 7, 8, 9, 10, 11}"
  by simp arith

lemma MAJOR_wheel: "p < 12 \<Longrightarrow> objGet MAJOR (noteNames ! p) = Str (canonicalWheel p True)"
  apply (drule pitch_class_cases)
  apply (simp add: objGet_def)
  apply (elim disjE)
  apply (simp_all add: MAJOR_def noteNames_def js_def canonicalWheel_def camelotNumber_def
      decimal_def)
  done

lemma MINOR_wheel: "p < 12 \<Longrightarrow> objGet MINOR (noteNames ! p) = Str (canonicalWheel p False)"
  apply (drule pitch_class_cases)
  apply (simp add: objGet_def)
  apply (elim disjE)
  apply (simp_all add: MINOR_def noteNames_def js_def canonicalWheel_def camelotNumber_def
      decimal_def)
  done

lemma canonicalWheel_nonempty: "canonicalWheel p m \<noteq> []"
  by (simp add: canonicalWheel_def decimal_def)

lemma normalizeKeyName_C: "normalizeKeyName (Some (js ''C'')) = noteNames ! 0"
  by (simp add: normalizeKeyName_def string_defs isNoteLetter_def noteNames_def)

lemma normalizeKeyName_a: "normalizeKeyName (Some (js ''a'')) = noteNames ! 9"
  by (simp add: normalizeKeyName_def string_defs isNoteLetter_def noteNames_def)

text \<open>
  A note name that is the name of an inherited member selects that member: the lookup
  \<open>MAJOR[k] || null\<close> does not stop at the own properties of the table.
\<close>

lemma keyToCamelot_inherited:
  "keyToCamelot (Some (js ''toString'')) (Some (js ''major'')) = ProtoMember (js ''toString'')"
  by (simp add: keyToCamelot_def normalizeKeyName_def isNoteLetter_def objGet_def MAJOR_def
      objectPrototypeNames_def jsOr_def string_defs)

text \<open>
  C1 (as amended). Whenever the normalized note is the name of pitch class \<open>p\<close> and the
  mode, lower-cased, is \<open>major\<close> or \<open>minor\<close>, \<open>keyToCamelot\<close> returns the code of the
  canonical wheel for \<open>p\<close>. It returns \<open>null\<close> whenever the lower-cased mode is neither
  \<open>major\<close> nor \<open>minor\<close>, and whenever the normalized note is neither one of the twelve
  names nor the name of a member inherited from \<open>Object.prototype\<close>. The mode is compared
  after \<open>toLowerCase\<close>, so \<open>MAJOR\<close> or \<open>Minor\<close> select a table as well.
\<close>

theorem keyToCamelot_wheel:
  "(p < 12 \<and> normalizeKeyName note = noteNames ! p \<longrightarrow>
      (toLowerCase (orEmpty md) = js ''major'' \<longrightarrow>
         keyToCamelot note md = Str (canonicalWheel p True)) \<and>
      (toLowerCase (orEmpty md) = js ''minor'' \<longrightarrow>
         keyToCamelot note md = Str (canonicalWheel p False)))
   \<and> (toLowerCase (orEmpty md) \<noteq> js ''major'' \<and> toLowerCase (orEmpty md) \<noteq> js ''minor'' \<longrightarrow>
         keyToCamelot note md = Null)
   \<and> (normalizeKeyName note \<notin> set noteNames \<and> normalizeKeyName note \<notin> set objectPrototypeNames \<longrightarrow>
         keyToCamelot note md = Null)"
proof (intro conjI impI)
  assume h: "p < 12 \<and> normalizeKeyName note = noteNames ! p"
    and m: "toLowerCase (orEmpty md) = js ''major''"
  show "keyToCamelot note md = Str (canonicalWheel p True)"
    using h m MAJOR_wheel [of p]
    by (simp add: keyToCamelot_def jsOr_def canonicalWheel_nonempty)
next
  assume h: "p < 12 \<and> normalizeKeyName note = noteNames ! p"
    and m: "toLowerCase (orEmpty md) = js ''minor''"
  have "js ''minor'' \<noteq> js ''major''" by (simp add: js_def)
  then show "keyToCamelot note md = Str (canonicalWheel p False)"
    using h m MINOR_wheel [of p]
    by (simp add: keyToCamelot_def jsOr_def canonicalWheel_nonempty)
next
  assume "toLowerCase (orEmpty md) \<noteq> js ''major'' \<and> toLowerCase (orEmpty md) \<noteq> js ''minor''"
  then show "keyToCamelot note md = Null"
    by (simp add: keyToCamelot_def)
next
  assume h: "normalizeKeyName note \<notin> set noteNames
    \<and> normalizeKeyName note \<notin> set objectPrototypeNames"
  then have "map_of MAJOR (normalizeKeyName note) = None"
    "map_of MINOR (normalizeKeyName note) = None"
    by (simp_all add: map_of_MAJOR_None map_of_MINOR_None)
  with h show "keyToCamelot note md = Null"
    by (simp add: keyToCamelot_def objGet_def jsOr_def Let_def)
qed

theorem keyToCamelot_wheel_witness:
  "keyToCamelot (Some (js ''C'')) (Some (js ''major'')) = Str (js ''8B'')
   \<and> keyToCamelot (Some (js ''a'')) (Some (js ''Minor'')) = Str (js ''8A'')
   \<and> keyToCamelot (Some (js ''C'')) (Some (js ''dorian'')) = Null
   \<and> keyToCamelot (Some (js ''H'')) (Some (js ''major'')) = Null"
proof -
  have 1: "keyToCamelot (Some (js ''C'')) (Some (js ''major'')) = Str (js ''8B'')"
    using keyToCamelot_wheel [of 0 "Some (js ''C'')" "Some (js ''major'')"] normalizeKeyName_C
    by (simp add: string_defs canonicalWheel_def camelotNumber_def decimal_def)
  have 2: "keyToCamelot (Some (js ''a'')) (Some (js ''Minor'')) = Str (js ''8A'')"
    using keyToCamelot_wheel [of 9 "Some (js ''a'')" "Some (js ''Minor'')"] normalizeKeyName_a
    by (simp add: string_defs canonicalWheel_def camelotNumber_def decimal_def)
  have 3: "keyToCamelot (Some (js ''C'')) (Some (js ''dorian'')) = Null"
    using keyToCamelot_wheel [of 0 "Some (js ''C'')" "Some (js ''dorian'')"]
    by (simp add: string_defs)
  have 4: "keyToCamelot (Some (js ''H'')) (Some (js ''major'')) = Null"
    using keyToCamelot_wheel [of 0 "Some (js ''H'')" "Some (js ''major'')"]
    by (simp add: normalizeKeyName_def string_defs isNoteLetter_def noteNames_def
        objectPrototypeNames_def)
  from 1 2 3 4 show ?thesis by simp
qed

text \<open>
  C1 as the specification states it fails: the mode \<open>MAJOR\<close> is neither \<open>major\<close> nor \<open>minor\<close>,
  and the result is not \<open>null\<close>.
\<close>

theorem keyToCamelot_mode_case_counterexample:
  "js ''MAJOR'' \<noteq> js ''major'' \<and> js ''MAJOR'' \<noteq> js ''minor''
   \<and> keyToCamelot (Some (js ''C'')) (Some (js ''MAJOR'')) = Str (js ''8B'')"
  by (simp add: keyToCamelot_def normalizeKeyName_def string_defs isNoteLetter_def
      objGet_def MAJOR_def jsOr_def)

lemma replaceAll_absent: "c \<notin> set s \<Longrightarrow> replaceAll c r s = s"
  by (induction s) (auto simp: replaceAll_def)

lemma asciiAccidentals_id: "9837 \<notin> set s \<Longrightarrow> 9839 \<notin> set s \<Longrightarrow> asciiAccidentals s = s"
  by (simp add: asciiAccidentals_def replaceAll_absent)

lemma normalizeKeyName_unrecognized:
  "\<not> recognizedSpelling (asciiAccidentals (normalizeWhitespace note)) \<Longrightarrow>
   normalizeKeyName note = asciiAccidentals (normalizeWhitespace note)"
  by (auto simp: normalizeKeyName_def recognizedSpelling_def asciiAccidentals_def Let_def
      split: list.splits)

lemma normalizeKeyName_natural:
  "isNoteLetter l \<Longrightarrow> asciiAccidentals (normalizeWhitespace note) = [l] \<Longrightarrow>
   normalizeKeyName note = [upperUnit l]"
  by (simp add: normalizeKeyName_def asciiAccidentals_def Let_def toUpperCase_def)

lemma normalizeKeyName_sharp:
  "isNoteLetter l \<Longrightarrow> asciiAccidentals (normalizeWhitespace note) = [l, 35] \<Longrightarrow>
   normalizeKeyName note = [upperUnit l, 35]"
  by (simp add: normalizeKeyName_def asciiAccidentals_def Let_def js_def)

lemma normalizeKeyName_flat:
  "asciiAccidentals (normalizeWhitespace note) = [l, 98] \<Longrightarrow>
   (l \<in> {68, 100} \<longrightarrow> normalizeKeyName note = js ''C#'') \<and>
   (l \<in> {69, 101} \<longrightarrow> normalizeKeyName note = js ''D#'') \<and>
   (l \<in> {71, 103} \<longrightarrow> normalizeKeyName note = js ''F#'') \<and>
   (l \<in> {65, 97} \<longrightarrow> normalizeKeyName note = js ''G#'') \<and>
   (l \<in> {66, 98} \<longrightarrow> normalizeKeyName note = js ''A#'')"
  by (auto simp: normalizeKeyName_def asciiAccidentals_def Let_def js_def isNoteLetter_def
      toUpperCase_def upperUnit_def flatsToSharps_def)

text \<open>
  The two remaining flat spellings are not in the table: \<open>flatsToSharps[up] || up[0]\<close>
  keeps the letter and drops the flat.
\<close>

lemma normalizeKeyName_Cb_Fb:
  "asciiAccidentals (normalizeWhitespace note) = [l, 98] \<Longrightarrow> l \<in> {67, 99, 70, 102} \<Longrightarrow>
   normalizeKeyName note = [upperUnit l]"
  by (auto simp: normalizeKeyName_def asciiAccidentals_def Let_def js_def isNoteLetter_def
      toUpperCase_def upperUnit_def flatsToSharps_def)

lemma proto_names_length: "k \<in> set objectPrototypeNames \<Longrightarrow> 2 < length k"
  by (auto simp: objectPrototypeNames_def js_def)

lemma objGet_flatsToSharps:
  "length up = 2 \<Longrightarrow>
   objGet flatsToSharps up = (case map_of flatsToSharps up of Some v \<Rightarrow> Str v | None \<Rightarrow> Undefined)"
  using proto_names_length [of up] by (cases "map_of flatsToSharps up") (auto simp: objGet_def)

text \<open>
  C8 (as amended). \<open>normalizeKeyName\<close> is total on a string or a missing value. An input
  that is not a recognized spelling once its white space is normalized and its Unicode
  accidentals are made ASCII is returned in that normalized form, and unchanged when there was
  nothing to normalize. A recognized spelling has its letter upper-cased, keeps its single
  trailing \<open>#\<close>, and the five flats \<open>Db\<close>, \<open>Eb\<close>, \<open>Gb\<close>, \<open>Ab\<close>, \<open>Bb\<close> become
  \<open>C#\<close>, \<open>D#\<close>, \<open>F#\<close>, \<open>G#\<close>, \<open>A#\<close>; the two remaining flats \<open>Cb\<close> and \<open>Fb\<close>
  are not in the table and lose the flat (\<open>C\<close> and \<open>F\<close>).
\<close>

theorem normalizeKeyName_spec:
  "(\<not> recognizedSpelling (asciiAccidentals (normalizeWhitespace note)) \<longrightarrow>
      normalizeKeyName note = asciiAccidentals (normalizeWhitespace note))
   \<and> (\<not> recognizedSpelling s \<and> normalizeWhitespace (Some s) = s \<and> 9837 \<notin> set s \<and> 9839 \<notin> set s \<longrightarrow>
      normalizeKeyName (Some s) = s)
   \<and> (isNoteLetter l \<and> asciiAccidentals (normalizeWhitespace note) = [l] \<longrightarrow>
      normalizeKeyName note = [upperUnit l])
   \<and> (isNoteLetter l \<and> asciiAccidentals (normalizeWhitespace note) = [l, 35] \<longrightarrow>
      normalizeKeyName note = [upperUnit l, 35])
   \<and> (asciiAccidentals (normalizeWhitespace note) = [l, 98] \<longrightarrow>
        (l \<in> {68, 100} \<longrightarrow> normalizeKeyName note = js ''C#'') \<and>
        (l \<in> {69, 101} \<longrightarrow> normalizeKeyName note = js ''D#'') \<and>
        (l \<in> {71, 103} \<longrightarrow> normalizeKeyName note = js ''F#'') \<and>
        (l \<in> {65, 97} \<longrightarrow> normalizeKeyName note = js ''G#'') \<and>
        (l \<in> {66, 98} \<longrightarrow> normalizeKeyName note = js ''A#'') \<and>
        (l \<in> {67, 99, 70, 102} \<longrightarrow> normalizeKeyName note = [upperUnit l]))"
proof (intro conjI impI)
  assume "\<not> recognizedSpelling (asciiAccidentals (normalizeWhitespace note))"
  then show "normalizeKeyName note = asciiAccidentals (normalizeWhitespace note)"
    by (rule normalizeKeyName_unrecognized)
next
  assume h: "\<not> recognizedSpelling s \<and> normalizeWhitespace (Some s) = s \<and> 9837 \<notin> set s \<and> 9839 \<notin> set s"
  then have "asciiAccidentals (normalizeWhitespace (Some s)) = s"
    by (simp add: asciiAccidentals_id)
  with h show "normalizeKeyName (Some s) = s"
    using normalizeKeyName_unrecognized [of "Some s"] by simp
next
  assume "isNoteLetter l \<and> asciiAccidentals (normalizeWhitespace note) = [l]"
  then show "normalizeKeyName note = [upperUnit l]"
    by (simp add: normalizeKeyName_natural)
next
  assume "isNoteLetter l \<and> asciiAccidentals (normalizeWhitespace note) = [l, 35]"
  then show "normalizeKeyName note = [upperUnit l, 35]"
    by (simp add: normalizeKeyName_sharp)
qed (simp_all add: normalizeKeyName_flat normalizeKeyName_Cb_Fb)

lemmas key_defs = normalizeKeyName_def asciiAccidentals_def recognizedSpelling_def
  isNoteLetter_def flatsToSharps_def

theorem normalizeKeyName_spec_witness:
  "normalizeKeyName (Some (js '' H '')) = js ''H''
   \<and> normalizeKeyName (Some (js ''Hb'')) = js ''Hb''
   \<and> normalizeKeyName (Some (js '' g'')) = js ''G''
   \<and> normalizeKeyName (Some [102, 9839]) = js ''F#''
   \<and> normalizeKeyName (Some [101, 9837]) = js ''D#''
   \<and> normalizeKeyName (Some (js ''Cb'')) = js ''C''
   \<and> normalizeKeyName (Some (js ''fb'')) = js ''F''"
proof -
  have 1: "normalizeKeyName (Some (js '' H '')) = js ''H''"
    using normalizeKeyName_spec [of "Some (js '' H '')" "js ''Hb''" 103]
    by (simp add: asciiAccidentals_def recognizedSpelling_def isNoteLetter_def string_defs)
  have 2: "normalizeKeyName (Some (js ''Hb'')) = js ''Hb''"
    using normalizeKeyName_spec [of "Some (js '' H '')" "js ''Hb''" 103]
    by (simp add: asciiAccidentals_def recognizedSpelling_def isNoteLetter_def string_defs)
  have 3: "normalizeKeyName (Some (js '' g'')) = js ''G''"
    using normalizeKeyName_spec [of "Some (js '' g'')" "js ''Hb''" 103]
    by (simp add: asciiAccidentals_def recognizedSpelling_def isNoteLetter_def string_defs)
  have 4: "normalizeKeyName (Some [102, 9839]) = js ''F#''"
    using normalizeKeyName_spec [of "Some [102, 9839]" "js ''Hb''" 102]
    by (simp add: asciiAccidentals_def recognizedSpelling_def isNoteLetter_def string_defs)
  have 5: "normalizeKeyName (Some [101, 9837]) = js ''D#''"
    using normalizeKeyName_spec [of "Some [101, 9837]" "js ''Hb''" 101]
    by (simp add: asciiAccidentals_def recognizedSpelling_def isNoteLetter_def string_defs)
  have 6: "normalizeKeyName (Some (js ''Cb'')) = js ''C''"
    using normalizeKeyName_spec [of "Some (js ''Cb'')" "js ''Hb''" 67]
    by (simp add: asciiAccidentals_def recognizedSpelling_def isNoteLetter_def string_defs)
  have 7: "normalizeKeyName (Some (js ''fb'')) = js ''F''"
    using normalizeKeyName_spec [of "Some (js ''fb'')" "js ''Hb''" 102]
    by (simp add: asciiAccidentals_def recognizedSpelling_def isNoteLetter_def string_defs)
  from 1 2 3 4 5 6 7 show ?thesis by simp
qed

text \<open>
  C8 as the specification states it fails: \<open>" H "\<close> is not a recognized spelling, and it is not
  returned unchanged (the result is \<open>"H"\<close>).
\<close>

theorem normalizeKeyName_unchanged_counterexample:
  "\<not> recognizedSpelling (js '' H '') \<and> normalizeKeyName (Some (js '' H '')) \<noteq> js '' H ''"
  by (simp add: key_defs string_defs Let_def)

section \<open>Properties of the text matching\<close>

lemma set_setAdd: "set (setAdd S x) = insert x (set S)"
  by (auto simp: setAdd_def)

lemma distinct_setAdd: "distinct S \<Longrightarrow> distinct (setAdd S x)"
  by (simp add: setAdd_def)

lemma foldl_setAdd:
  "set (foldl setAdd S xs) = set S \<union> set xs \<and> (distinct S \<longrightarrow> distinct (foldl setAdd S xs))"
  by (induction xs arbitrary: S) (simp_all add: set_setAdd distinct_setAdd)

lemma set_newSet: "set (newSet xs) = set xs"
  by (simp add: newSet_def foldl_setAdd)

lemma distinct_newSet: "distinct (newSet xs)"
  by (simp add: newSet_def foldl_setAdd)

lemma distinct_tokenSet: "distinct (tokenSet s)"
  by (simp add: tokenSet_def distinct_newSet)

lemma count_loop:
  "foldl (\<lambda>n t. if t \<in> B then n + 1 else n) (k::nat) A = k + length (filter (\<lambda>t. t \<in> B) A)"
  by (induction A arbitrary: k) simp_all

lemma inter_count:
  assumes d: "distinct A"
  shows "foldl (\<lambda>n t. if t \<in> set B then n + 1 else n) (0::nat) A = card (set A \<inter> set B)"
proof -
  have "set (filter (\<lambda>t. t \<in> set B) A) = set A \<inter> set B" by auto
  moreover have "distinct (filter (\<lambda>t. t \<in> set B) A)" using d by simp
  ultimately have "card (set A \<inter> set B) = length (filter (\<lambda>t. t \<in> set B) A)"
    using distinct_card by metis
  then show ?thesis by (simp add: count_loop)
qed

lemma tokenOverlapScore_eq:
  "tokenOverlapScore a b =
     (if tokenSet a = [] \<or> tokenSet b = [] then 0
      else of_nat (card (set (tokenSet a) \<inter> set (tokenSet b)))
           / of_nat (max (card (set (tokenSet a))) (card (set (tokenSet b)))))"
  by (simp add: tokenOverlapScore_def Let_def inter_count distinct_tokenSet distinct_card)

lemma tokenOverlapScore_sym: "tokenOverlapScore a b = tokenOverlapScore b a"
  by (simp add: tokenOverlapScore_eq Int_commute max.commute disj_commute)

lemma tokenOverlapScore_range: "0 \<le> tokenOverlapScore a b \<and> tokenOverlapScore a b \<le> 1"
proof -
  let ?A = "set (tokenSet a)" and ?B = "set (tokenSet b)"
  have "card (?A \<inter> ?B) \<le> card ?A" by (simp add: card_mono)
  then have le: "card (?A \<inter> ?B) \<le> max (card ?A) (card ?B)" by simp
  show ?thesis
  proof (cases "tokenSet a = [] \<or> tokenSet b = []")
    case True
    then show ?thesis by (simp add: tokenOverlapScore_eq)
  next
    case False
    then have "0 < card ?A" by (simp add: card_gt_0_iff)
    then have "0 < max (card ?A) (card ?B)" by simp
    with le False show ?thesis
      by (simp add: tokenOverlapScore_eq divide_le_eq_1)
  qed
qed

lemma tokenOverlapScore_self: "tokenSet a \<noteq> [] \<Longrightarrow> tokenOverlapScore a a = 1"
  by (simp add: tokenOverlapScore_eq card_gt_0_iff)

lemma tokenOverlapScore_disjoint:
  "set (tokenSet a) \<inter> set (tokenSet b) = {} \<Longrightarrow> tokenOverlapScore a b = 0"
  by (simp add: tokenOverlapScore_eq)

lemmas match_defs = tokenOverlapScore_def tokenSet_def newSet_def setAdd_def normForMatch_def
  isMatchUnit_def

lemma tokenSet_strobe_live:
  "tokenSet (Some (js ''Strobe (Live)'')) = [js ''strobe'', js ''live'']"
  by (simp add: match_defs string_defs)

lemma tokenSet_strobe: "tokenSet (Some (js ''strobe'')) = [js ''strobe'']"
  by (simp add: match_defs string_defs)

lemma tokenSet_rain: "tokenSet (Some (js ''Rain'')) = [js ''rain'']"
  by (simp add: match_defs string_defs)

lemma tokenSet_None: "tokenSet None = []"
  by (simp add: match_defs string_defs)

text \<open>
  C7 (as amended). \<open>tokenOverlapScore(a, a)\<close> is 1 for every \<open>a\<close> whose normalized token
  set is not empty; the score is 0 whenever the two token sets share no token, in particular
  when either is empty; it is symmetric; it lies in \<open>[0, 1]\<close> and, for two non-empty token
  sets, equals the size of their intersection over the larger of their sizes.
\<close>

theorem tokenOverlapScore_spec:
  "(tokenSet a \<noteq> [] \<longrightarrow> tokenOverlapScore a a = 1)
   \<and> (set (tokenSet a) \<inter> set (tokenSet b) = {} \<longrightarrow> tokenOverlapScore a b = 0)
   \<and> (tokenSet a = [] \<or> tokenSet b = [] \<longrightarrow> tokenOverlapScore a b = 0)
   \<and> tokenOverlapScore a b = tokenOverlapScore b a
   \<and> 0 \<le> tokenOverlapScore a b \<and> tokenOverlapScore a b \<le> 1
   \<and> (tokenSet a \<noteq> [] \<and> tokenSet b \<noteq> [] \<longrightarrow>
        tokenOverlapScore a b =
          of_nat (card (set (tokenSet a) \<inter> set (tokenSet b)))
          / of_nat (max (card (set (tokenSet a))) (card (set (tokenSet b)))))"
  using tokenOverlapScore_self [of a] tokenOverlapScore_disjoint [of a b]
    tokenOverlapScore_sym [of a b] tokenOverlapScore_range [of a b]
  by (simp add: tokenOverlapScore_eq [of a b])

theorem tokenOverlapScore_spec_witness:
  "tokenOverlapScore (Some (js ''Strobe (Live)'')) (Some (js ''Strobe (Live)'')) = 1
   \<and> tokenOverlapScore (Some (js ''Strobe (Live)'')) (Some (js ''Rain'')) = 0
   \<and> tokenOverlapScore (Some (js ''Strobe (Live)'')) None = 0
   \<and> tokenOverlapScore (Some (js ''Strobe (Live)'')) (Some (js ''strobe'')) = 1 / 2"
proof -
  have 1: "tokenOverlapScore (Some (js ''Strobe (Live)'')) (Some (js ''Strobe (Live)'')) = 1"
    using tokenOverlapScore_spec [of "Some (js ''Strobe (Live)'')" "Some (js ''Rain'')"]
    unfolding tokenSet_strobe_live tokenSet_rain by simp
  have 2: "tokenOverlapScore (Some (js ''Strobe (Live)'')) (Some (js ''Rain'')) = 0"
    using tokenOverlapScore_spec [of "Some (js ''Strobe (Live)'')" "Some (js ''Rain'')"]
    unfolding tokenSet_strobe_live tokenSet_rain by (simp add: js_def)
  have 3: "tokenOverlapScore (Some (js ''Strobe (Live)'')) None = 0"
    using tokenOverlapScore_spec [of "Some (js ''Strobe (Live)'')" None]
    unfolding tokenSet_None by simp
  have 4: "tokenOverlapScore (Some (js ''Strobe (Live)'')) (Some (js ''strobe'')) = 1 / 2"
    using tokenOverlapScore_spec [of "Some (js ''Strobe (Live)'')" "Some (js ''strobe'')"]
    unfolding tokenSet_strobe_live tokenSet_strobe by (simp add: js_def)
  from 1 2 3 4 show ?thesis by simp
qed

text \<open>
  C7 as the specification states it fails: \<open>"(!)"\<close> is a non-empty string, its token set is empty,
  and its score against itself is 0.
\<close>

theorem tokenOverlapScore_self_counterexample:
  "js ''(!)'' \<noteq> [] \<and> tokenOverlapScore (Some (js ''(!)'')) (Some (js ''(!)'')) \<noteq> 1"
  by (simp add: match_defs string_defs)

section \<open>Properties of the primary provider\<close>

lemma mset_rankItems:
  "mset (rankItems title artist items) = mset (map (\<lambda>s. (s, matchScore title artist s)) items)"
  by (simp add: rankItems_def)

lemma sorted_rankItems:
  "sorted_wrt (\<lambda>p q. snd q \<le> snd p) (rankItems title artist items)"
proof -
  have "sorted (map (\<lambda>p. - snd p) (rankItems title artist items))"
    unfolding rankItems_def by (rule sorted_sort_key)
  then show ?thesis by (simp add: sorted_map)
qed

lemma firstParsed_none:
  "(\<forall>p \<in> set xs. parseGetsongKeyOf (s_key_of (fst p)) = None) \<Longrightarrow> firstParsed xs = None"
  by (induction xs) auto

lemma firstParsed_first:
  "i < length xs \<Longrightarrow>
   \<forall>j < i. parseGetsongKeyOf (s_key_of (fst (xs ! j))) = None \<Longrightarrow>
   parseGetsongKeyOf (s_key_of (fst (xs ! i))) = Some (k, scale) \<Longrightarrow>
   firstParsed xs =
     Some \<lparr>camelot = jsOr (keyToCamelot (Some k) (Some scale)) Null, key = Str k,
           mode = Str scale, provider = Str (js ''getsongbpm''),
           providerId = jsOr (Str (orEmpty (s_id (fst (xs ! i))))) Null\<rparr>"
proof (induction xs arbitrary: i)
  case Nil
  then show ?case by simp
next
  case (Cons p xs)
  obtain s sc where p: "p = (s, sc)" by (cases p)
  show ?case
  proof (cases i)
    case 0
    with Cons.prems p show ?thesis by simp
  next
    case (Suc i')
    from Cons.prems(2) Suc have h0: "parseGetsongKeyOf (s_key_of (fst ((p # xs) ! 0))) = None"
      by blast
    have hj: "\<forall>j < i'. parseGetsongKeyOf (s_key_of (fst (xs ! j))) = None"
    proof (intro allI impI)
      fix j assume "j < i'"
      then have "Suc j < i" using Suc by simp
      with Cons.prems(2) have "parseGetsongKeyOf (s_key_of (fst ((p # xs) ! Suc j))) = None"
        by blast
      then show "parseGetsongKeyOf (s_key_of (fst (xs ! j))) = None" by simp
    qed
    from Cons.prems Suc have len: "i' < length xs"
      and hit: "parseGetsongKeyOf (s_key_of (fst (xs ! i'))) = Some (k, scale)" by simp_all
    have "firstParsed xs =
      Some \<lparr>camelot = jsOr (keyToCamelot (Some k) (Some scale)) Null, key = Str k,
           mode = Str scale, provider = Str (js ''getsongbpm''),
           providerId = jsOr (Str (orEmpty (s_id (fst (xs ! i'))))) Null\<rparr>"
      by (rule Cons.IH [OF len hj hit])
    with h0 p Suc show ?thesis by simp
  qed
qed

lemma lookupViaGetSongBpm_result:
  assumes "getGetsongApiKey e w = (Inr apiKey, w1)" and "apiKey \<noteq> []"
    and "lookup = js ''song:'' @ normalizeWhitespace (Some title)
                  @ js '' artist:'' @ normalizeWhitespace (Some artist)"
    and "wellFormed lookup"
    and "getsong e w1 lookup apiKey = (Http st (Some (Some items)), d)"
    and "ok st" and "items \<noteq> []"
  shows "lookupViaGetSongBpm e title artist w =
           (Inr (firstParsed (take 5 (rankItems title artist items))),
            issue (GetSongSearch lookup apiKey) d w1)"
  using assms by (simp add: lookupViaGetSongBpm_def Let_def)

lemmas world_defs = world0_def worldWithKey_def constEnv_def GETSONG_KEY_STORAGE_def
  storageGet_def storageSet_def issue_def sleep_def ok_def

lemma getGetsongApiKey_worldWithKey:
  "getGetsongApiKey (constEnv items recs ab) worldWithKey = (Inr (js ''k1''), worldWithKey)"
  by (simp add: getGetsongApiKey_def world_defs string_defs)

lemma parse_strobeExact: "parseGetsongKeyOf (s_key_of strobeExact) = None"
  by (simp add: parseGetsongKeyOf_def strobeExact_def string_defs)

lemma parse_strobeLive: "parseGetsongKeyOf (s_key_of strobeLive) = Some (js ''F#'', js ''minor'')"
  by (simp add: parseGetsongKeyOf_def matchCompact_def isAccidental_def accidentalAscii_def
      normalizeKeyName_def isNoteLetter_def strobeLive_def string_defs)

lemma keyToCamelot_Fsharp_minor:
  "keyToCamelot (Some (js ''F#'')) (Some (js ''minor'')) = Str (js ''11A'')"
  by (simp add: keyToCamelot_def normalizeKeyName_def isNoteLetter_def objGet_def MINOR_def
      jsOr_def string_defs)

lemma floor_numeral_quotient:
  "\<lfloor>(numeral a :: rat) / numeral b\<rfloor> = numeral a div numeral b"
  using floor_divide_of_int_eq [of "numeral a" "numeral b", where ?'a = rat] by simp

lemmas double_defs = toDouble_def roundTo_def binade_def exponentDown.simps exponentUp.simps
  pow2_def roundHalfEven_def floor_numeral_quotient

text \<open>The two weights as doubles: 0.7 and 0.3 are not representable.\<close>

lemma toDouble_weights:
  "toDouble (7 / 10) = 3152519739159347 / 4503599627370496
   \<and> toDouble (3 / 10) = 5404319552844595 / 18014398509481984"
  by (simp add: double_defs Let_def)

lemma toDouble_unit: "toDouble 0 = 0 \<and> toDouble 1 = 1 \<and> toDouble (1 / 2) = 1 / 2"
  by (simp add: double_defs Let_def)

text \<open>\<open>0.1 + 0.2\<close> is \<open>0.30000000000000004\<close>, and \<open>0.7 + 0.3\<close> is 1.\<close>

lemma toDouble_sums:
  "toDouble (toDouble (1 / 10) + toDouble (2 / 10)) = 1351079888211149 / 4503599627370496
   \<and> toDouble (toDouble (7 / 10) + toDouble (3 / 10)) = 1"
  by (simp add: double_defs Let_def)

lemma matchScore_strobeExact: "matchScore (js ''Strobe'') (js ''deadmau5'') strobeExact = 1"
proof -
  have t: "tokenOverlapScore (Some (orEmpty (s_title strobeExact))) (Some (js ''Strobe'')) = 1"
    by (simp add: strobeExact_def match_defs string_defs)
  have a: "tokenOverlapScore (Some (orEmpty (s_artist_name strobeExact)))
             (Some (js ''deadmau5'')) = 1"
    by (simp add: strobeExact_def match_defs string_defs)
  show ?thesis
    unfolding matchScore_def Let_def t a by (simp add: double_defs)
qed

lemma matchScore_strobeLive:
  "matchScore (js ''Strobe'') (js ''deadmau5'') strobeLive =
     1463669878895411 / 2251799813685248"
proof -
  have t: "tokenOverlapScore (Some (orEmpty (s_title strobeLive))) (Some (js ''Strobe'')) = 1 / 2"
    by (simp add: strobeLive_def match_defs string_defs)
  have a: "tokenOverlapScore (Some (orEmpty (s_artist_name strobeLive)))
             (Some (js ''deadmau5'')) = 1"
    by (simp add: strobeLive_def match_defs string_defs)
  show ?thesis
    unfolding matchScore_def Let_def t a by (simp add: double_defs)
qed

lemma rankItems_strobe:
  "rankItems (js ''Strobe'') (js ''deadmau5'') [strobeLive, strobeExact] =
     [(strobeExact, 1), (strobeLive, 1463669878895411 / 2251799813685248)]"
  by (simp add: rankItems_def matchScore_strobeExact matchScore_strobeLive)

text \<open>
  The two results of the second example have the same score in exact arithmetic,
  \<open>3/4 * 7/10 + 3/4 * 3/10 = 7/10 + 1/6 * 3/10 = 3/4\<close>; in double precision the first sum
  is 0.7499999999999999 and the second 0.75.
\<close>

lemma matchScore_nearBoth:
  "matchScore (js ''a b c d'') (js ''w x y z'') nearBoth =
     6755399441055743 / 9007199254740992"
proof -
  have t: "tokenOverlapScore (Some (orEmpty (s_title nearBoth))) (Some (js ''a b c d'')) = 3 / 4"
    by (simp add: nearBoth_def match_defs string_defs)
  have a: "tokenOverlapScore (Some (orEmpty (s_artist_name nearBoth)))
             (Some (js ''w x y z'')) = 3 / 4"
    by (simp add: nearBoth_def match_defs string_defs)
  show ?thesis
    unfolding matchScore_def Let_def t a by (simp add: double_defs)
qed

lemma matchScore_exactTitle:
  "matchScore (js ''a b c d'') (js ''w x y z'') exactTitle = 3 / 4"
proof -
  have t: "tokenOverlapScore (Some (orEmpty (s_title exactTitle))) (Some (js ''a b c d'')) = 1"
    by (simp add: exactTitle_def match_defs string_defs)
  have a: "tokenOverlapScore (Some (orEmpty (s_artist_name exactTitle)))
             (Some (js ''w x y z'')) = 1 / 6"
    by (simp add: exactTitle_def match_defs string_defs)
  show ?thesis
    unfolding matchScore_def Let_def t a by (simp add: double_defs)
qed

lemma rankItems_tie:
  "rankItems (js ''a b c d'') (js ''w x y z'') [nearBoth, exactTitle] =
     [(exactTitle, 3 / 4), (nearBoth, 6755399441055743 / 9007199254740992)]"
  by (simp add: rankItems_def matchScore_nearBoth matchScore_exactTitle)

lemma parse_exactTitle: "parseGetsongKeyOf (s_key_of exactTitle) = Some (js ''E'', js ''minor'')"
  by (simp add: parseGetsongKeyOf_def matchCompact_def isAccidental_def accidentalAscii_def
      normalizeKeyName_def isNoteLetter_def exactTitle_def string_defs)

lemma keyToCamelot_E_minor:
  "keyToCamelot (Some (js ''E'')) (Some (js ''minor'')) = Str (js ''9A'')"
  by (simp add: keyToCamelot_def normalizeKeyName_def isNoteLetter_def objGet_def MINOR_def
      jsOr_def string_defs)

text \<open>
  C5. With a credential configured, a well-formed query and a successful answer holding at
  least one result, \<open>lookupViaGetSongBpm\<close> returns what the loop finds in the first five
  entries of the ranking. The ranking holds every result with its score
  \<open>0.7 * tokenOverlapScore(result title, title) + 0.3 * tokenOverlapScore(result artist
  name, artist)\<close>, computed in double precision (each quotient, weight, product and the sum
  rounded), and is sorted by descending score. The loop returns \<open>null\<close> when none of the
  five parses, and otherwise the record of the first entry that parses, with provider
  \<open>getsongbpm\<close>, whatever the scores of the entries before it.
\<close>

theorem lookupViaGetSongBpm_ranking:
  assumes "getGetsongApiKey e w = (Inr apiKey, w1)" and "apiKey \<noteq> []"
    and "lookup = js ''song:'' @ normalizeWhitespace (Some title)
                  @ js '' artist:'' @ normalizeWhitespace (Some artist)"
    and "wellFormed lookup"
    and "getsong e w1 lookup apiKey = (Http st (Some (Some items)), d)"
    and "ok st" and "items \<noteq> []"
    and "ranked = rankItems title artist items" and "top5 = take 5 ranked"
  shows "fst (lookupViaGetSongBpm e title artist w) = Inr (firstParsed top5)
    \<and> mset ranked =
        mset (map (\<lambda>s. (s, toDouble
                           (toDouble (toDouble (tokenOverlapScore (Some (orEmpty (s_title s)))
                                                  (Some title))
                                      * toDouble (7 / 10))
                            + toDouble (toDouble (tokenOverlapScore
                                                    (Some (orEmpty (s_artist_name s)))
                                                    (Some artist))
                                        * toDouble (3 / 10)))))
               items)
    \<and> sorted_wrt (\<lambda>p q. snd q \<le> snd p) ranked
    \<and> ((\<forall>p \<in> set top5. parseGetsongKeyOf (s_key_of (fst p)) = None) \<longrightarrow>
          firstParsed top5 = None)
    \<and> (\<forall>i k scale.
          i < length top5
          \<and> (\<forall>j < i. parseGetsongKeyOf (s_key_of (fst (top5 ! j))) = None)
          \<and> parseGetsongKeyOf (s_key_of (fst (top5 ! i))) = Some (k, scale) \<longrightarrow>
          firstParsed top5 =
            Some \<lparr>camelot = jsOr (keyToCamelot (Some k) (Some scale)) Null, key = Str k,
                  mode = Str scale, provider = Str (js ''getsongbpm''),
                  providerId = jsOr (Str (orEmpty (s_id (fst (top5 ! i))))) Null\<rparr>)"
proof (intro conjI)
  show "fst (lookupViaGetSongBpm e title artist w) = Inr (firstParsed top5)"
    using lookupViaGetSongBpm_result [OF assms(1-7)] assms(8,9) by simp
  show "mset ranked =
        mset (map (\<lambda>s. (s, toDouble
                           (toDouble (toDouble (tokenOverlapScore (Some (orEmpty (s_title s)))
                                                  (Some title))
                                      * toDouble (7 / 10))
                            + toDouble (toDouble (tokenOverlapScore
                                                    (Some (orEmpty (s_artist_name s)))
                                                    (Some artist))
                                        * toDouble (3 / 10)))))
               items)"
    using mset_rankItems [of title artist items] assms(8) by (simp add: matchScore_def Let_def)
  show "sorted_wrt (\<lambda>p q. snd q \<le> snd p) ranked"
    using sorted_rankItems assms(8) by simp
  show "(\<forall>p \<in> set top5. parseGetsongKeyOf (s_key_of (fst p)) = None) \<longrightarrow>
          firstParsed top5 = None"
    using firstParsed_none by blast
  show "\<forall>i k scale.
          i < length top5
          \<and> (\<forall>j < i. parseGetsongKeyOf (s_key_of (fst (top5 ! j))) = None)
          \<and> parseGetsongKeyOf (s_key_of (fst (top5 ! i))) = Some (k, scale) \<longrightarrow>
          firstParsed top5 =
            Some \<lparr>camelot = jsOr (keyToCamelot (Some k) (Some scale)) Null, key = Str k,
                  mode = Str scale, provider = Str (js ''getsongbpm''),
                  providerId = jsOr (Str (orEmpty (s_id (fst (top5 ! i))))) Null\<rparr>"
    using firstParsed_first by blast
qed

text \<open>
  For \<open>Strobe\<close> the exact match ranks first with score 1 and has no key string; the live
  version, with score 0.6499999999999999, is the first that parses and gives the answer.
  For \<open>a b c d\<close> the result with the exact title scores 0.75 and the other one
  0.7499999999999999, so the former ranks first although it comes second in the answer, and
  gives the key.
\<close>

theorem lookupViaGetSongBpm_ranking_witness:
  "fst (lookupViaGetSongBpm (constEnv [strobeLive, strobeExact] [] noAnalysis)
          (js ''Strobe'') (js ''deadmau5'') worldWithKey) =
     Inr (Some \<lparr>camelot = Str (js ''11A''), key = Str (js ''F#''), mode = Str (js ''minor''),
                provider = Str (js ''getsongbpm''), providerId = Str (js ''42'')\<rparr>)
   \<and> map snd (rankItems (js ''Strobe'') (js ''deadmau5'') [strobeLive, strobeExact]) =
       [1, 1463669878895411 / 2251799813685248]
   \<and> fst (lookupViaGetSongBpm (constEnv [nearBoth, exactTitle] [] noAnalysis)
          (js ''a b c d'') (js ''w x y z'') worldWithKey) =
     Inr (Some \<lparr>camelot = Str (js ''9A''), key = Str (js ''E''), mode = Str (js ''minor''),
                provider = Str (js ''getsongbpm''), providerId = Str (js ''2'')\<rparr>)
   \<and> map snd (rankItems (js ''a b c d'') (js ''w x y z'') [nearBoth, exactTitle]) =
       [3 / 4, 6755399441055743 / 9007199254740992]"
proof -
  let ?e = "constEnv [strobeLive, strobeExact] [] noAnalysis"
  let ?lookup = "js ''song:'' @ normalizeWhitespace (Some (js ''Strobe''))
                  @ js '' artist:'' @ normalizeWhitespace (Some (js ''deadmau5''))"
  have wf: "wellFormed ?lookup" by (simp add: string_defs)
  have resp: "getsong ?e worldWithKey ?lookup (js ''k1'') =
                (Http 200 (Some (Some [strobeLive, strobeExact])), 120)"
    by (simp add: constEnv_def)
  have "fst (lookupViaGetSongBpm ?e (js ''Strobe'') (js ''deadmau5'') worldWithKey) =
          Inr (firstParsed (take 5 (rankItems (js ''Strobe'') (js ''deadmau5'')
                                       [strobeLive, strobeExact])))"
    using lookupViaGetSongBpm_ranking [OF getGetsongApiKey_worldWithKey _ refl wf resp _ _ refl refl]
    by (simp add: ok_def js_def)
  then have 1: "fst (lookupViaGetSongBpm ?e (js ''Strobe'') (js ''deadmau5'') worldWithKey) =
     Inr (Some \<lparr>camelot = Str (js ''11A''), key = Str (js ''F#''), mode = Str (js ''minor''),
                provider = Str (js ''getsongbpm''), providerId = Str (js ''42'')\<rparr>)"
    by (simp add: rankItems_strobe parse_strobeExact parse_strobeLive
        keyToCamelot_Fsharp_minor jsOr_def) (simp add: strobeLive_def js_def)
  let ?e' = "constEnv [nearBoth, exactTitle] [] noAnalysis"
  let ?lookup' = "js ''song:'' @ normalizeWhitespace (Some (js ''a b c d''))
                  @ js '' artist:'' @ normalizeWhitespace (Some (js ''w x y z''))"
  have wf': "wellFormed ?lookup'" by (simp add: string_defs)
  have resp': "getsong ?e' worldWithKey ?lookup' (js ''k1'') =
                (Http 200 (Some (Some [nearBoth, exactTitle])), 120)"
    by (simp add: constEnv_def)
  have "fst (lookupViaGetSongBpm ?e' (js ''a b c d'') (js ''w x y z'') worldWithKey) =
          Inr (firstParsed (take 5 (rankItems (js ''a b c d'') (js ''w x y z'')
                                       [nearBoth, exactTitle])))"
    using lookupViaGetSongBpm_ranking [OF getGetsongApiKey_worldWithKey _ refl wf' resp' _ _ refl refl]
    by (simp add: ok_def js_def)
  then have 2: "fst (lookupViaGetSongBpm ?e' (js ''a b c d'') (js ''w x y z'') worldWithKey) =
     Inr (Some \<lparr>camelot = Str (js ''9A''), key = Str (js ''E''), mode = Str (js ''minor''),
                provider = Str (js ''getsongbpm''), providerId = Str (js ''2'')\<rparr>)"
    by (simp add: rankItems_tie parse_exactTitle keyToCamelot_E_minor jsOr_def)
       (simp add: exactTitle_def js_def)
  from 1 2 show ?thesis
    by (simp add: rankItems_strobe rankItems_tie)
qed

section \<open>What the provider clients leave alone\<close>

lemma calm_refl: "calm w w"
  by (simp add: calm_def)

lemma calm_trans:
  assumes "calm w w'" and "calm w' w''"
  shows "calm w w''"
proof -
  from assms(1) obtain tr where
    1: "trace w' = trace w @ tr" "list_all (\<lambda>p. \<not> isRecordingSearch (fst p)) tr"
    by (auto simp: calm_def)
  from assms(2) obtain tr' where
    2: "trace w'' = trace w' @ tr'" "list_all (\<lambda>p. \<not> isRecordingSearch (fst p)) tr'"
    by (auto simp: calm_def)
  from 1 2 have "trace w'' = trace w @ (tr @ tr')
    \<and> list_all (\<lambda>p. \<not> isRecordingSearch (fst p)) (tr @ tr')"
    by simp
  then have "\<exists>t. trace w'' = trace w @ t \<and> list_all (\<lambda>p. \<not> isRecordingSearch (fst p)) t"
    by blast
  with assms show ?thesis by (simp add: calm_def)
qed

lemma calm_issue: "\<not> isRecordingSearch r \<Longrightarrow> calm w (issue r d w)"
  by (simp add: calm_def issue_def)

lemma calm_storageGet: "calm w (snd (storageGet e k w))"
  by (simp add: calm_def storageGet_def)

lemma calm_getGetsongApiKey: "calm w (snd (getGetsongApiKey e w))"
  using calm_storageGet [of w e GETSONG_KEY_STORAGE]
  by (auto simp: getGetsongApiKey_def storageGet_def split: option.splits stored.splits)

lemma calm_lookupViaGetSongBpm: "calm w (snd (lookupViaGetSongBpm e title artist w))"
proof -
  obtain r w1 where k: "getGetsongApiKey e w = (r, w1)"
    by (cases "getGetsongApiKey e w")
  then have q1: "calm w w1" using calm_getGetsongApiKey [of w e] by simp
  have "calm w1 (snd (lookupViaGetSongBpm e title artist w))"
    using k
    by (auto simp: lookupViaGetSongBpm_def Let_def calm_refl calm_issue
        split: sum.splits prod.splits response.splits option.splits)
  with q1 show ?thesis by (rule calm_trans)
qed

lemma calm_submissionsFrom: "calm w (snd (submissionsFrom e m n w))"
proof (induction e m n w rule: submissionsFrom.induct)
  case (1 e m n w)
  show ?case
  proof (cases "n < 3")
    case False
    then show ?thesis by (subst submissionsFrom.simps) (simp add: calm_refl)
  next
    case True
    obtain res d where a: "acousticbrainz e w m n = (res, d)"
      by (cases "acousticbrainz e w m n")
    let ?w1 = "issue (AcousticBrainzLowLevel m n) d w"
    have q1: "calm w ?w1" by (simp add: calm_issue)
    have "calm ?w1 (snd (submissionsFrom e m n w))"
    proof (cases res)
      case NetworkError
      with True a show ?thesis
        by (subst submissionsFrom.simps) (simp add: calm_refl Let_def)
    next
      case (Http st body)
      show ?thesis
      proof (cases "st = 404 \<or> \<not> ok st")
        case True
        with \<open>n < 3\<close> a Http show ?thesis
          by (subst submissionsFrom.simps) (auto simp: calm_refl Let_def)
      next
        case False
        then have st: "st \<noteq> 404" and okst: "\<not> \<not> ok st" by simp_all
        show ?thesis
        proof (cases body)
          case None
          with \<open>n < 3\<close> a Http False show ?thesis
            by (subst submissionsFrom.simps) (simp add: calm_refl Let_def)
        next
          case (Some t)
          let ?k = "case key_key t of Some x \<Rightarrow> Some x | None \<Rightarrow> chords_key t"
          let ?s = "case key_scale t of Some x \<Rightarrow> Some x | None \<Rightarrow> chords_scale t"
          show ?thesis
          proof (cases "orEmpty ?k \<noteq> [] \<and> orEmpty ?s \<noteq> []")
            case True
            with \<open>n < 3\<close> a Http False Some show ?thesis
              by (subst submissionsFrom.simps) (simp add: calm_refl Let_def)
          next
            case no: False
            have "calm ?w1 (snd (submissionsFrom e m (n + 1) ?w1))"
              by (rule "1.IH" [OF \<open>n < 3\<close> refl a [symmetric] refl Http st okst Some refl refl no])
            with \<open>n < 3\<close> a Http False Some no show ?thesis
              by (subst submissionsFrom.simps) (simp add: Let_def calm_refl)
          qed
        qed
      qed
    qed
    with q1 show ?thesis by (rule calm_trans)
  qed
qed

lemma calm_fetchAcousticBrainz: "calm w (snd (fetchAcousticBrainzKeyAnySubmission e m w))"
  unfolding fetchAcousticBrainzKeyAnySubmission_def by (rule calm_submissionsFrom)

lemma calm_firstTonal: "calm w (snd (firstTonal e cands w))"
proof (induction cands arbitrary: w)
  case Nil
  show ?case by (simp add: calm_refl)
next
  case (Cons mb rest)
  obtain r w1 where f: "fetchAcousticBrainzKeyAnySubmission e (fst mb) w = (r, w1)"
    by (cases "fetchAcousticBrainzKeyAnySubmission e (fst mb) w")
  then have q1: "calm w w1" using calm_fetchAcousticBrainz [of w e "fst mb"] by simp
  have "calm w1 (snd (firstTonal e (mb # rest) w))"
    using f Cons.IH [of w1] by (auto simp: calm_refl split: sum.splits option.splits)
  with q1 show ?case by (rule calm_trans)
qed

lemma mbTimes_append: "mbTimes (tr @ tr') = mbTimes tr @ mbTimes tr'"
  by (simp add: mbTimes_def)

lemma mbTimes_none: "list_all (\<lambda>p. \<not> isRecordingSearch (fst p)) tr \<Longrightarrow> mbTimes tr = []"
  by (induction tr) (simp_all add: mbTimes_def)

lemma quiet_calm: "calm w w' \<Longrightarrow> quiet w w'"
  by (auto simp: calm_def quiet_def mbTimes_append mbTimes_none)

lemma readOnly_calm: "calm w w' \<Longrightarrow> readOnly w w'"
  by (auto simp: calm_def readOnly_def)

lemma readOnly_refl: "readOnly w w"
  by (simp add: readOnly_def)

lemma readOnly_trans: "readOnly w w' \<Longrightarrow> readOnly w' w'' \<Longrightarrow> readOnly w w''"
  by (auto simp: readOnly_def)

text \<open>
  What one call of the limiter leaves behind, whatever the answer: the world after the wait,
  with the time read then as \<open>lastMbRequestAt\<close> and the request logged at that time.
\<close>

lemma snd_rateLimitedMusicBrainzFetch:
  "snd (rateLimitedMusicBrainzFetch e q w) =
     (let wait = max 0 (MB_MIN_INTERVAL_MS - (clock w - lastMbRequestAt w));
          w1 = (if wait \<noteq> 0 then sleep e wait w else w);
          w2 = w1\<lparr>lastMbRequestAt := clock w1\<rparr>
      in issue (MusicBrainzSearch q) (snd (musicbrainz e w2 q)) w2)"
  by (simp add: rateLimitedMusicBrainzFetch_def Let_def
      split: prod.splits response.splits option.splits)

lemma readOnly_rateLimitedMusicBrainzFetch:
  "readOnly w (snd (rateLimitedMusicBrainzFetch e q w))"
  by (simp add: snd_rateLimitedMusicBrainzFetch Let_def readOnly_def issue_def sleep_def)

lemma readOnly_searchQueries: "readOnly w (snd (searchQueries e qs w))"
proof (induction qs arbitrary: w)
  case Nil
  show ?case by (simp add: readOnly_refl)
next
  case (Cons q qs)
  obtain r w1 where f: "rateLimitedMusicBrainzFetch e q w = (r, w1)"
    by (cases "rateLimitedMusicBrainzFetch e q w")
  then have q1: "readOnly w w1"
    using readOnly_rateLimitedMusicBrainzFetch [of w e q] by simp
  have "readOnly w1 (snd (searchQueries e qs w1))" by (rule Cons.IH)
  with q1 have q2: "readOnly w (snd (searchQueries e qs w1))" by (rule readOnly_trans)
  from f q1 q2 show ?case
    by (auto simp: Let_def readOnly_refl split: sum.splits json.splits)
qed

lemma readOnly_searchMusicBrainzRecordings:
  "readOnly w (snd (searchMusicBrainzRecordings e title artist w))"
  unfolding searchMusicBrainzRecordings_def Let_def by (rule readOnly_searchQueries)

section \<open>Properties of the orchestrator\<close>

lemma storage_storageSet: "storage (storageSet e k v w) k = Some v"
  by (simp add: storageSet_def Let_def)

lemma trace_storageSet: "trace (storageSet e k v w) = trace w"
  by (simp add: storageSet_def Let_def)

lemma lookupCamelot_fresh:
  "storage w k = Some (SRecord c) \<Longrightarrow> clock w - cachedAt c < CACHE_TTL_MS \<Longrightarrow>
   lookupCamelot e k title artist w = (Inr c, snd (storageGet e k w))"
  by (simp add: lookupCamelot_def storageGet_def Let_def)

lemma lookupCamelot_stale:
  "storage w k = Some (SRecord c) \<Longrightarrow> CACHE_TTL_MS \<le> clock w - cachedAt c \<Longrightarrow>
   lookupCamelot e k title artist w =
     resolveUncached e (clock w) k title artist (snd (storageGet e k w))"
  by (simp add: lookupCamelot_def storageGet_def Let_def)

lemma lookupCamelot_absent:
  "storage w k = None \<Longrightarrow>
   lookupCamelot e k title artist w =
     resolveUncached e (clock w) k title artist (snd (storageGet e k w))"
  by (simp add: lookupCamelot_def storageGet_def Let_def)

lemma resolveUncached_primary_hit:
  "lookupViaGetSongBpm e title artist w = (Inr (Some gsb), w1) \<Longrightarrow>
   resolveUncached e now k title artist w =
     (let out = \<lparr>camelot = camelot gsb, key = key gsb, mode = mode gsb,
                  provider = provider gsb, providerId = providerId gsb,
                  mbid = Null, score = Null, cachedAt = now\<rparr>
      in (Inr out, storageSet e k (SRecord out) w1))"
  by (simp add: resolveUncached_def)

lemma resolveUncached_primary_nothing:
  "lookupViaGetSongBpm e title artist w = (Inr None, w1) \<Longrightarrow>
   resolveUncached e now k title artist w = fallback e now k title artist w1"
  by (simp add: resolveUncached_def)

lemma firstTonal_first:
  "skipped e pre w = Some w2 \<Longrightarrow>
   fetchAcousticBrainzKeyAnySubmission e (fst mb) w2 = (Inr (Some ab), w3) \<Longrightarrow>
   firstTonal e (pre @ mb # post) w = (Inr (Some (mb, ab)), w3)"
proof (induction pre arbitrary: w)
  case Nil
  then show ?case by simp
next
  case (Cons c pre)
  from Cons.prems(1) obtain w1 where
    c: "fetchAcousticBrainzKeyAnySubmission e (fst c) w = (Inr None, w1)"
    and rest: "skipped e pre w1 = Some w2"
    by (auto split: prod.splits sum.splits option.splits)
  from Cons.IH [OF rest Cons.prems(2)] c show ?case by simp
qed

lemma firstTonal_none: "skipped e cands w = Some w2 \<Longrightarrow> firstTonal e cands w = (Inr None, w2)"
proof (induction cands arbitrary: w)
  case Nil
  then show ?case by simp
next
  case (Cons c cands)
  from Cons.prems obtain w1 where
    c: "fetchAcousticBrainzKeyAnySubmission e (fst c) w = (Inr None, w1)"
    and rest: "skipped e cands w1 = Some w2"
    by (auto split: prod.splits sum.splits option.splits)
  from Cons.IH [OF rest] c show ?case by simp
qed

text \<open>
  A resolution that throws has written nothing, and a resolution only ever adds to the log.
\<close>

lemma fallback_frame:
  assumes "fallback e now k title artist w = (r, w')"
  shows "(\<exists>tr. trace w' = trace w @ tr) \<and> (\<forall>err. r = Inl err \<longrightarrow> storage w' = storage w)"
proof -
  obtain r1 w1 where s: "searchMusicBrainzRecordings e title artist w = (r1, w1)"
    by (cases "searchMusicBrainzRecordings e title artist w")
  then have q1: "readOnly w w1"
    using readOnly_searchMusicBrainzRecordings [of w e title artist] by simp
  show ?thesis
  proof (cases r1)
    case (Inl err)
    with s assms q1 show ?thesis by (auto simp: fallback_def readOnly_def)
  next
    case (Inr cands)
    obtain r2 w2 where t: "firstTonal e cands w1 = (r2, w2)"
      by (cases "firstTonal e cands w1")
    then have "calm w1 w2" using calm_firstTonal [of w1 e cands] by simp
    then have "readOnly w1 w2" by (rule readOnly_calm)
    with q1 have q2: "readOnly w w2" by (rule readOnly_trans)
    from s Inr t assms q1 q2 show ?thesis
      by (auto simp: fallback_def Let_def readOnly_def trace_storageSet
          split: sum.splits option.splits prod.splits if_splits)
  qed
qed

lemma resolveUncached_frame:
  assumes "resolveUncached e now k title artist w = (r, w')"
  shows "(\<exists>tr. trace w' = trace w @ tr) \<and> (\<forall>err. r = Inl err \<longrightarrow> storage w' = storage w)"
proof -
  obtain r1 w1 where p: "lookupViaGetSongBpm e title artist w = (r1, w1)"
    by (cases "lookupViaGetSongBpm e title artist w")
  then have "calm w w1" using calm_lookupViaGetSongBpm [of w e title artist] by simp
  then have q1: "readOnly w w1" by (rule readOnly_calm)
  show ?thesis
  proof (cases r1)
    case (Inl err)
    with p assms q1 show ?thesis by (auto simp: resolveUncached_def readOnly_def)
  next
    case (Inr g)
    show ?thesis
    proof (cases g)
      case (Some gsb)
      with p Inr assms q1 show ?thesis
        by (auto simp: resolveUncached_def Let_def readOnly_def trace_storageSet)
    next
      case None
      with p Inr assms have "fallback e now k title artist w1 = (r, w')"
        by (simp add: resolveUncached_def)
      from fallback_frame [OF this] q1 show ?thesis
        by (auto simp: readOnly_def)
    qed
  qed
qed

lemma lookupCamelot_frame:
  assumes "lookupCamelot e k title artist w = (r, w')"
  shows "(\<exists>tr. trace w' = trace w @ tr) \<and> (\<forall>err. r = Inl err \<longrightarrow> storage w' = storage w)"
proof -
  let ?w1 = "w\<lparr>clock := clock w + lag e w\<rparr>"
  have "(r, w') = (case storage w k of
            Some (SRecord c) \<Rightarrow>
              if clock w - cachedAt c < CACHE_TTL_MS then (Inr c, ?w1)
              else resolveUncached e (clock w) k title artist ?w1
          | _ \<Rightarrow> resolveUncached e (clock w) k title artist ?w1)"
    using assms by (simp add: lookupCamelot_def storageGet_def Let_def)
  then consider "r = Inr (case storage w k of Some (SRecord c) \<Rightarrow> c) \<and> w' = ?w1"
    | "resolveUncached e (clock w) k title artist ?w1 = (r, w')"
    by (auto split: option.splits stored.splits if_splits)
  then show ?thesis
  proof cases
    case 1
    then show ?thesis by simp
  next
    case 2
    from resolveUncached_frame [OF 2] show ?thesis by simp
  qed
qed

lemma set_rankRecordings:
  "c \<in> set (rankRecordings data) \<Longrightarrow> MUSICBRAINZ_MIN_SCORE \<le> snd c \<and> fst c \<noteq> []"
proof -
  assume "c \<in> set (rankRecordings data)"
  then have "c \<in> set (filter (\<lambda>x. snd x \<ge> MUSICBRAINZ_MIN_SCORE)
              (sort_key (\<lambda>x. - snd x)
                 (filter (\<lambda>x. fst x \<noteq> [])
                    (map (\<lambda>r. (orEmpty (r_id r), case r_score r of Some n \<Rightarrow> n | None \<Rightarrow> 0))
                       (case data of Some rs \<Rightarrow> rs | None \<Rightarrow> [])))))"
    unfolding rankRecordings_def Let_def by (rule in_set_takeD)
  then show ?thesis by simp
qed

lemma length_rankRecordings: "length (rankRecordings data) \<le> 6"
  by (simp add: rankRecordings_def Let_def)

text \<open>No candidate is found exactly when no recording has both an identifier and a score of at least 60.\<close>

lemma rankRecordings_empty:
  "rankRecordings (Some recs) = [] \<longleftrightarrow>
     (\<forall>r \<in> set recs. orEmpty (r_id r) = []
        \<or> (case r_score r of Some n \<Rightarrow> n | None \<Rightarrow> 0) < MUSICBRAINZ_MIN_SCORE)"
proof -
  let ?c = "\<lambda>r. (orEmpty (r_id r), case r_score r of Some n \<Rightarrow> n | None \<Rightarrow> (0::int))"
  let ?xs = "filter (\<lambda>x. snd x \<ge> MUSICBRAINZ_MIN_SCORE)
               (sort_key (\<lambda>x. - snd x) (filter (\<lambda>x. fst x \<noteq> []) (map ?c recs)))"
  have "rankRecordings (Some recs) = take 6 ?xs"
    by (simp add: rankRecordings_def)
  then have "rankRecordings (Some recs) = [] \<longleftrightarrow> ?xs = []"
    by simp
  also have "\<dots> \<longleftrightarrow> (\<forall>r \<in> set recs. \<not> (fst (?c r) \<noteq> [] \<and> MUSICBRAINZ_MIN_SCORE \<le> snd (?c r)))"
    by (simp add: filter_empty_conv) blast
  also have "\<dots> \<longleftrightarrow> (\<forall>r \<in> set recs. orEmpty (r_id r) = []
        \<or> (case r_score r of Some n \<Rightarrow> n | None \<Rightarrow> 0) < MUSICBRAINZ_MIN_SCORE)"
    by (simp add: not_le)
  finally show ?thesis .
qed

text \<open>The floor is inclusive: a recording with a score of exactly 60 is a candidate.\<close>

lemma rankRecordings_floor:
  "rankRecordings (Some [\<lparr>r_id = Some (js ''mb-4''), r_score = Some 60\<rparr>]) = [(js ''mb-4'', 60)]"
  by (simp add: rankRecordings_def MUSICBRAINZ_MIN_SCORE_def js_def)

lemma searchQueries_candidates:
  "searchQueries e qs w = (Inr cands, w1) \<Longrightarrow>
   (\<forall>c \<in> set cands. MUSICBRAINZ_MIN_SCORE \<le> snd c \<and> fst c \<noteq> []) \<and> length cands \<le> 6"
proof (induction qs arbitrary: w)
  case Nil
  then show ?case by simp
next
  case (Cons q qs)
  show ?case
  proof (cases "wellFormed q")
    case False
    with Cons.prems show ?thesis by simp
  next
    case True
    obtain r w2 where f: "rateLimitedMusicBrainzFetch e q w = (r, w2)"
      by (cases "rateLimitedMusicBrainzFetch e q w")
    show ?thesis
    proof (cases r)
      case (Inl err)
      with Cons.prems True f show ?thesis by simp
    next
      case (Inr body)
      show ?thesis
      proof (cases body)
        case JsonNull
        with Cons.prems True f Inr show ?thesis by simp
      next
        case (Json data)
        show ?thesis
        proof (cases "rankRecordings data = []")
          case True
          with Cons.prems \<open>wellFormed q\<close> f Inr Json
          have "searchQueries e qs w2 = (Inr cands, w1)"
            by simp
          then show ?thesis by (rule Cons.IH)
        next
          case False
          with Cons.prems \<open>wellFormed q\<close> f Inr Json have "cands = rankRecordings data"
            by simp
          then show ?thesis
            using set_rankRecordings [of _ data] length_rankRecordings [of data] by blast
        qed
      qed
    qed
  qed
qed

lemma searchMusicBrainzRecordings_candidates:
  "searchMusicBrainzRecordings e title artist w = (Inr cands, w1) \<Longrightarrow>
   (\<forall>c \<in> set cands. MUSICBRAINZ_MIN_SCORE \<le> snd c \<and> fst c \<noteq> []) \<and> length cands \<le> 6"
  unfolding searchMusicBrainzRecordings_def Let_def by (rule searchQueries_candidates)


lemmas provider_defs = lookupViaGetSongBpm_def getGetsongApiKey_def
  searchMusicBrainzRecordings_def rateLimitedMusicBrainzFetch_def
  fetchAcousticBrainzKeyAnySubmission_def luceneEscapePhrase_def rankRecordings_def
  MB_MIN_INTERVAL_MS_def MUSICBRAINZ_MIN_SCORE_def Let_def

lemma primary_without_key:
  "lookupViaGetSongBpm (constEnv items recs ab) title artist world0 = (Inr None, world0)"
  by (simp add: provider_defs world_defs string_defs)

lemma search_recA_recB:
  "fst (searchMusicBrainzRecordings (constEnv items [recA, recB] ab)
          (js ''Strobe'') (js ''deadmau5'') world0) =
     Inr [(js ''mb-1'', 100), (js ''mb-2'', 95)]"
  by (simp add: provider_defs world_defs string_defs recA_def recB_def)

lemma search_recLow:
  "fst (searchMusicBrainzRecordings (constEnv items [recLow] ab)
          (js ''Strobe'') (js ''deadmau5'') world0) = Inr []"
  by (simp add: provider_defs world_defs string_defs recLow_def)

lemma analysis_mb1:
  "fetchAcousticBrainzKeyAnySubmission (constEnv items recs analysisOfB) (js ''mb-1'') w =
     (Inr None, issue (AcousticBrainzLowLevel (js ''mb-1'') 0) 50 w)"
  by (simp add: fetchAcousticBrainzKeyAnySubmission_def submissionsFrom.simps constEnv_def analysisOfB_def js_def)

lemma analysis_mb2:
  "fetchAcousticBrainzKeyAnySubmission (constEnv items recs analysisOfB) (js ''mb-2'') w =
     (Inr (Some (js ''A'', js ''minor'')), issue (AcousticBrainzLowLevel (js ''mb-2'') 0) 50 w)"
  by (simp add: fetchAcousticBrainzKeyAnySubmission_def submissionsFrom.simps constEnv_def analysisOfB_def ok_def js_def)

lemma keyToCamelot_A_minor:
  "keyToCamelot (Some (js ''A'')) (Some (js ''minor'')) = Str (js ''8A'')"
  by (simp add: keyToCamelot_def normalizeKeyName_def isNoteLetter_def objGet_def MINOR_def
      jsOr_def string_defs)

lemma normalizeKeyName_A: "normalizeKeyName (Some (js ''A'')) = js ''A''"
  by (simp add: normalizeKeyName_def isNoteLetter_def string_defs)

text \<open>
  C3 (as amended). Suppose the primary provider yields nothing and the recording search
  returns the candidates; each of them has an identifier and a score of at least 60, and
  there are at most six. If there is none, the resolution returns and caches a record with
  \<open>camelot\<close>, \<open>key\<close>, \<open>mode\<close>, \<open>mbid\<close> and \<open>score\<close> null and no \<open>provider\<close> field. If the
  candidates before \<open>mb\<close> have no tonal data and \<open>mb\<close> has, the resolution returns and caches
  a record with the \<open>mbid\<close> and the \<open>score\<close> of \<open>mb\<close>, the key data of its analysis (the
  Camelot code, the normalized key, and as \<open>mode\<close> the scale in the lower case of the
  runtime), and no \<open>provider\<close> field.
\<close>

theorem fallback_spec:
  assumes "lookupViaGetSongBpm e title artist w0 = (Inr None, w)"
    and "searchMusicBrainzRecordings e title artist w = (Inr candidates, w1)"
  shows "(\<forall>c \<in> set candidates. MUSICBRAINZ_MIN_SCORE \<le> snd c \<and> fst c \<noteq> [])
    \<and> length candidates \<le> 6
    \<and> (candidates = [] \<longrightarrow>
         (let miss = \<lparr>camelot = Null, key = Null, mode = Null,
                       provider = Undefined, providerId = Undefined,
                       mbid = Null, score = Null, cachedAt = now\<rparr>;
              w' = storageSet e k (SRecord miss) w1
          in resolveUncached e now k title artist w0 = (Inr miss, w')
             \<and> storage w' k = Some (SRecord miss)))
    \<and> (\<forall>pre mb post w2 ab w3.
          candidates = pre @ mb # post
          \<and> skipped e pre w1 = Some w2
          \<and> fetchAcousticBrainzKeyAnySubmission e (fst mb) w2 = (Inr (Some ab), w3) \<longrightarrow>
         (let out = \<lparr>camelot = jsOr (keyToCamelot (Some (fst ab)) (Some (snd ab))) Null,
                      key = Str (normalizeKeyName (Some (fst ab))),
                      mode = jsOr (Str (toLowerCaseOf e (snd ab))) Null,
                      provider = Undefined, providerId = Undefined,
                      mbid = Str (fst mb), score = Num (snd mb), cachedAt = now\<rparr>;
              w' = storageSet e k (SRecord out) w3
          in resolveUncached e now k title artist w0 = (Inr out, w')
             \<and> storage w' k = Some (SRecord out)))"
proof (intro conjI allI impI)
  show "\<forall>c \<in> set candidates. MUSICBRAINZ_MIN_SCORE \<le> snd c \<and> fst c \<noteq> []"
    using searchMusicBrainzRecordings_candidates [OF assms(2)] by blast
  show "length candidates \<le> 6"
    using searchMusicBrainzRecordings_candidates [OF assms(2)] by blast
next
  assume "candidates = []"
  then show "let miss = \<lparr>camelot = Null, key = Null, mode = Null,
                       provider = Undefined, providerId = Undefined,
                       mbid = Null, score = Null, cachedAt = now\<rparr>;
              w' = storageSet e k (SRecord miss) w1
          in resolveUncached e now k title artist w0 = (Inr miss, w')
             \<and> storage w' k = Some (SRecord miss)"
    using assms by (simp add: resolveUncached_def fallback_def storage_storageSet)
next
  fix pre mb post w2 ab w3
  assume h: "candidates = pre @ mb # post
          \<and> skipped e pre w1 = Some w2
          \<and> fetchAcousticBrainzKeyAnySubmission e (fst mb) w2 = (Inr (Some ab), w3)"
  then have "firstTonal e candidates w1 = (Inr (Some (mb, ab)), w3)"
    using firstTonal_first [of e pre w1 w2 mb ab w3 post] by simp
  moreover from h have "candidates \<noteq> []" by simp
  ultimately show "let out = \<lparr>camelot = jsOr (keyToCamelot (Some (fst ab)) (Some (snd ab))) Null,
                      key = Str (normalizeKeyName (Some (fst ab))),
                      mode = jsOr (Str (toLowerCaseOf e (snd ab))) Null,
                      provider = Undefined, providerId = Undefined,
                      mbid = Str (fst mb), score = Num (snd mb), cachedAt = now\<rparr>;
              w' = storageSet e k (SRecord out) w3
          in resolveUncached e now k title artist w0 = (Inr out, w')
             \<and> storage w' k = Some (SRecord out)"
    using assms by (simp add: resolveUncached_def fallback_def storage_storageSet)
qed

text \<open>
  Without a credential, with the recordings \<open>mb-1\<close> (score 100, no analysis) and \<open>mb-2\<close>
  (score 95, analysed as A minor), the record carries \<open>mb-2\<close> and 95; with one recording
  of score 59 the record is the miss.
\<close>

theorem fallback_spec_witness:
  "fst (resolveUncached (constEnv [] [recA, recB] analysisOfB) 1700000000000 strobeKey
          (js ''Strobe'') (js ''deadmau5'') world0) =
     Inr \<lparr>camelot = Str (js ''8A''), key = Str (js ''A''), mode = Str (js ''minor''),
          provider = Undefined, providerId = Undefined,
          mbid = Str (js ''mb-2''), score = Num 95, cachedAt = 1700000000000\<rparr>
   \<and> fst (resolveUncached (constEnv [] [recLow] analysisOfB) 1700000000000 strobeKey
          (js ''Strobe'') (js ''deadmau5'') world0) =
     Inr \<lparr>camelot = Null, key = Null, mode = Null,
          provider = Undefined, providerId = Undefined,
          mbid = Null, score = Null, cachedAt = 1700000000000\<rparr>"
proof -
  let ?e = "constEnv [] [recA, recB] analysisOfB"
  let ?w1 = "snd (searchMusicBrainzRecordings ?e (js ''Strobe'') (js ''deadmau5'') world0)"
  let ?w2 = "issue (AcousticBrainzLowLevel (js ''mb-1'') 0) 50 ?w1"
  let ?w3 = "issue (AcousticBrainzLowLevel (js ''mb-2'') 0) 50 ?w2"
  have s: "searchMusicBrainzRecordings ?e (js ''Strobe'') (js ''deadmau5'') world0 =
             (Inr [(js ''mb-1'', 100), (js ''mb-2'', 95)], ?w1)"
    using search_recA_recB [of "[]" analysisOfB] by (simp add: prod_eq_iff)
  have sk: "skipped ?e [(js ''mb-1'', 100)] ?w1 = Some ?w2"
    by (simp add: analysis_mb1)
  have hit: "fetchAcousticBrainzKeyAnySubmission ?e (fst (js ''mb-2'', 95::int)) ?w2 =
               (Inr (Some (js ''A'', js ''minor'')), ?w3)"
    by (simp add: analysis_mb2)
  have 1: "fst (resolveUncached ?e 1700000000000 strobeKey (js ''Strobe'') (js ''deadmau5'') world0) =
     Inr \<lparr>camelot = Str (js ''8A''), key = Str (js ''A''), mode = Str (js ''minor''),
          provider = Undefined, providerId = Undefined,
          mbid = Str (js ''mb-2''), score = Num 95, cachedAt = 1700000000000\<rparr>"
    using fallback_spec [OF primary_without_key s, of 1700000000000 strobeKey,
        THEN conjunct2, THEN conjunct2, THEN conjunct2, rule_format,
        of "[(js ''mb-1'', 100)]" "(js ''mb-2'', 95)" "[]" ?w2 "(js ''A'', js ''minor'')" ?w3]
      sk hit
    by (simp add: keyToCamelot_A_minor normalizeKeyName_A jsOr_def Let_def)
       (simp add: toLowerCaseOf_def toLowerCase_def lowerUnit_def js_def)
  let ?e' = "constEnv [] [recLow] analysisOfB"
  let ?v1 = "snd (searchMusicBrainzRecordings ?e' (js ''Strobe'') (js ''deadmau5'') world0)"
  have s': "searchMusicBrainzRecordings ?e' (js ''Strobe'') (js ''deadmau5'') world0 =
              (Inr [], ?v1)"
    using search_recLow [of "[]" analysisOfB] by (simp add: prod_eq_iff)
  have 2: "fst (resolveUncached ?e' 1700000000000 strobeKey (js ''Strobe'') (js ''deadmau5'') world0) =
     Inr \<lparr>camelot = Null, key = Null, mode = Null,
          provider = Undefined, providerId = Undefined,
          mbid = Null, score = Null, cachedAt = 1700000000000\<rparr>"
    using fallback_spec [OF primary_without_key s', of 1700000000000 strobeKey,
        THEN conjunct2, THEN conjunct2, THEN conjunct1]
    by (simp add: Let_def)
  from 1 2 show ?thesis by simp
qed

text \<open>
  C3 as the specification states it fails: in the run above the record of the first candidate with
  tonal data carries its \<open>mbid\<close> and \<open>score\<close>, and its provider field is not
  \<open>musicbrainz\<close>: the field is absent. And a recording with a score of exactly 60, which
  is not above 60, is a candidate: the record is not the miss.
\<close>

theorem fallback_provider_counterexample:
  "fst (fallback (constEnv [] [recA, recB] analysisOfB) 1700000000000 strobeKey
          (js ''Strobe'') (js ''deadmau5'') world0) =
     Inr \<lparr>camelot = Str (js ''8A''), key = Str (js ''A''), mode = Str (js ''minor''),
          provider = Undefined, providerId = Undefined,
          mbid = Str (js ''mb-2''), score = Num 95, cachedAt = 1700000000000\<rparr>
   \<and> Undefined \<noteq> Str (js ''musicbrainz'')
   \<and> r_score recFloor = Some 60
   \<and> fst (resolveUncached (constEnv [] [recFloor] analysisOfB) 1700000000000 strobeKey
            (js ''Strobe'') (js ''deadmau5'') world0) =
       Inr \<lparr>camelot = Str (js ''8A''), key = Str (js ''A''), mode = Str (js ''minor''),
            provider = Undefined, providerId = Undefined,
            mbid = Str (js ''mb-2''), score = Num 60, cachedAt = 1700000000000\<rparr>"
proof -
  let ?e = "constEnv [] [recA, recB] analysisOfB"
  obtain w1 where s: "searchMusicBrainzRecordings ?e (js ''Strobe'') (js ''deadmau5'') world0 =
             (Inr [(js ''mb-1'', 100), (js ''mb-2'', 95)], w1)"
    using search_recA_recB [of "[]" analysisOfB]
    by (cases "searchMusicBrainzRecordings ?e (js ''Strobe'') (js ''deadmau5'') world0") simp
  have lc: "toLowerCaseOf e (js ''minor'') = js ''minor''" for e
    by (simp add: toLowerCaseOf_def toLowerCase_def lowerUnit_def js_def)
  have 1: "fst (fallback ?e 1700000000000 strobeKey (js ''Strobe'') (js ''deadmau5'') world0) =
     Inr \<lparr>camelot = Str (js ''8A''), key = Str (js ''A''), mode = Str (js ''minor''),
          provider = Undefined, providerId = Undefined,
          mbid = Str (js ''mb-2''), score = Num 95, cachedAt = 1700000000000\<rparr>"
    by (simp add: fallback_def s analysis_mb1 analysis_mb2 keyToCamelot_A_minor
        normalizeKeyName_A lc jsOr_def Let_def)
       (simp add: js_def)
  let ?f = "constEnv [] [recFloor] analysisOfB"
  have "fst (searchMusicBrainzRecordings ?f (js ''Strobe'') (js ''deadmau5'') world0) =
          Inr [(js ''mb-2'', 60)]"
    by (simp add: provider_defs world_defs string_defs recFloor_def)
  then obtain v1 where
    s': "searchMusicBrainzRecordings ?f (js ''Strobe'') (js ''deadmau5'') world0 =
           (Inr [(js ''mb-2'', 60)], v1)"
    by (cases "searchMusicBrainzRecordings ?f (js ''Strobe'') (js ''deadmau5'') world0") simp
  have 2: "fst (resolveUncached ?f 1700000000000 strobeKey (js ''Strobe'') (js ''deadmau5'')
                  world0) =
       Inr \<lparr>camelot = Str (js ''8A''), key = Str (js ''A''), mode = Str (js ''minor''),
            provider = Undefined, providerId = Undefined,
            mbid = Str (js ''mb-2''), score = Num 60, cachedAt = 1700000000000\<rparr>"
    by (simp add: resolveUncached_def primary_without_key fallback_def s' analysis_mb2
        keyToCamelot_A_minor normalizeKeyName_A lc jsOr_def Let_def)
       (simp add: js_def)
  from 1 2 show ?thesis by (simp add: recFloor_def)
qed

text \<open>
  When the recording search answers with the JSON value \<open>null\<close>, reading \<open>data.recordings\<close>
  throws: the resolution fails with a \<open>TypeError\<close> and nothing is cached.
\<close>

lemma null_body_throws:
  "fst (lookupCamelot (nullBody (constEnv [] [] noAnalysis)) strobeKey
          (js ''Strobe'') (js ''deadmau5'') world0) = Inl TypeError
   \<and> storage (snd (lookupCamelot (nullBody (constEnv [] [] noAnalysis)) strobeKey
                     (js ''Strobe'') (js ''deadmau5'') world0)) strobeKey = None"
  by (simp add: lookupCamelot_def resolveUncached_def fallback_def provider_defs world_defs
      string_defs nullBody_def strobeKey_def)

text \<open>
  The mode of a record of the fallback is the lower case that the runtime gives: for the
  scale \<open>MAJ\<close>, U+00DA, \<open>R\<close> the example environment gives \<open>maj\<close>, U+00FA, \<open>r\<close>.
\<close>

lemma toLowerCaseOf_latin1:
  "toLowerCaseOf (constEnv items recs ab) [77, 65, 74, 218, 82] = [109, 97, 106, 250, 114]
   \<and> toLowerCaseOf e (js ''Minor'') = js ''minor''"
  by (simp add: toLowerCaseOf_def constEnv_def latin1LowerCase_def toLowerCase_def
      lowerUnit_def js_def)

lemma primary_strobe:
  assumes "storage w GETSONG_KEY_STORAGE = Some (SString (js ''k1''))"
  shows "fst (lookupViaGetSongBpm (constEnv [strobeLive, strobeExact] recs ab)
                (js ''Strobe'') (js ''deadmau5'') w) =
           Inr (Some \<lparr>camelot = Str (js ''11A''), key = Str (js ''F#''),
                      mode = Str (js ''minor''), provider = Str (js ''getsongbpm''),
                      providerId = Str (js ''42'')\<rparr>)"
proof -
  let ?w1 = "w\<lparr>clock := clock w + 0\<rparr>"
  have k: "getGetsongApiKey (constEnv [strobeLive, strobeExact] recs ab) w = (Inr (js ''k1''), ?w1)"
    using assms by (simp add: getGetsongApiKey_def storageGet_def constEnv_def string_defs)
  have wf: "wellFormed (js ''song:'' @ normalizeWhitespace (Some (js ''Strobe''))
                  @ js '' artist:'' @ normalizeWhitespace (Some (js ''deadmau5'')))"
    by (simp add: string_defs)
  have "fst (lookupViaGetSongBpm (constEnv [strobeLive, strobeExact] recs ab)
                (js ''Strobe'') (js ''deadmau5'') w) =
          Inr (firstParsed (take 5 (rankItems (js ''Strobe'') (js ''deadmau5'')
                                       [strobeLive, strobeExact])))"
    using lookupViaGetSongBpm_result [OF k _ refl wf, of 200 "[strobeLive, strobeExact]" 120]
    by (simp add: constEnv_def ok_def js_def)
  then show ?thesis
    by (simp add: rankItems_strobe parse_strobeExact parse_strobeLive
        keyToCamelot_Fsharp_minor jsOr_def) (simp add: strobeLive_def js_def)
qed

lemma lookupCamelot_resolves:
  "(storage w k = None
    \<or> (storage w k = Some (SRecord c) \<and> CACHE_TTL_MS \<le> clock w - cachedAt c))
   \<and> w1 = w\<lparr>clock := clock w + lag e w\<rparr> \<Longrightarrow>
   lookupCamelot e k title artist w = resolveUncached e (clock w) k title artist w1"
  using lookupCamelot_stale [of w k c e title artist] lookupCamelot_absent [of w k e title artist]
  by (auto simp: storageGet_def)

text \<open>
  C4 (as amended). A record cached under \<open>k\<close> less than 30 days before the call is
  returned as it is, and the call leaves the store and the request log as they were: no
  provider is consulted. A record that is 30 days old or older is passed over exactly as a
  missing one is, and the resolution runs from the world \<open>w1\<close> left by the cache read. The
  primary provider comes first; its result, completed and stamped with the time of the call,
  is returned and written under \<open>k\<close>. When it has none the recording search follows, from
  the world the primary provider left: without a candidate the miss is returned and written;
  otherwise the record of the first candidate with tonal data, or the miss that carries the
  first candidate when none has any. Whatever is written replaces what was under \<open>k\<close>.
  When a provider throws, the call throws and the store is as it was: the stale record
  stays.
\<close>

theorem cache_freshness:
  "(storage w k = Some (SRecord c) \<and> clock w - cachedAt c < CACHE_TTL_MS \<longrightarrow>
       lookupCamelot e k title artist w = (Inr c, w\<lparr>clock := clock w + lag e w\<rparr>)
       \<and> storage (snd (lookupCamelot e k title artist w)) = storage w
       \<and> trace (snd (lookupCamelot e k title artist w)) = trace w)
   \<and> ((storage w k = None
        \<or> (storage w k = Some (SRecord c) \<and> CACHE_TTL_MS \<le> clock w - cachedAt c))
       \<and> w1 = w\<lparr>clock := clock w + lag e w\<rparr> \<longrightarrow>
       (\<forall>err w2. lookupViaGetSongBpm e title artist w1 = (Inl err, w2) \<longrightarrow>
          lookupCamelot e k title artist w = (Inl err, w2))
       \<and> (\<forall>gsb w2. lookupViaGetSongBpm e title artist w1 = (Inr (Some gsb), w2) \<longrightarrow>
          (let out = \<lparr>camelot = camelot gsb, key = key gsb, mode = mode gsb,
                       provider = provider gsb, providerId = providerId gsb,
                       mbid = Null, score = Null, cachedAt = clock w\<rparr>;
               w' = storageSet e k (SRecord out) w2
           in lookupCamelot e k title artist w = (Inr out, w')
              \<and> storage w' k = Some (SRecord out)))
       \<and> (\<forall>w2 err w3. lookupViaGetSongBpm e title artist w1 = (Inr None, w2)
             \<and> searchMusicBrainzRecordings e title artist w2 = (Inl err, w3) \<longrightarrow>
          lookupCamelot e k title artist w = (Inl err, w3))
       \<and> (\<forall>w2 w3. lookupViaGetSongBpm e title artist w1 = (Inr None, w2)
             \<and> searchMusicBrainzRecordings e title artist w2 = (Inr [], w3) \<longrightarrow>
          (let miss = \<lparr>camelot = Null, key = Null, mode = Null,
                        provider = Undefined, providerId = Undefined,
                        mbid = Null, score = Null, cachedAt = clock w\<rparr>;
               w' = storageSet e k (SRecord miss) w3
           in lookupCamelot e k title artist w = (Inr miss, w')
              \<and> storage w' k = Some (SRecord miss)))
       \<and> (\<forall>w2 pre mb post w3 w4 ab w5.
             lookupViaGetSongBpm e title artist w1 = (Inr None, w2)
             \<and> searchMusicBrainzRecordings e title artist w2 = (Inr (pre @ mb # post), w3)
             \<and> skipped e pre w3 = Some w4
             \<and> fetchAcousticBrainzKeyAnySubmission e (fst mb) w4 = (Inr (Some ab), w5) \<longrightarrow>
          (let out = \<lparr>camelot = jsOr (keyToCamelot (Some (fst ab)) (Some (snd ab))) Null,
                       key = Str (normalizeKeyName (Some (fst ab))),
                       mode = jsOr (Str (toLowerCaseOf e (snd ab))) Null,
                       provider = Undefined, providerId = Undefined,
                       mbid = Str (fst mb), score = Num (snd mb), cachedAt = clock w\<rparr>;
               w' = storageSet e k (SRecord out) w5
           in lookupCamelot e k title artist w = (Inr out, w')
              \<and> storage w' k = Some (SRecord out)))
       \<and> (\<forall>w2 mb rest w3 w4.
             lookupViaGetSongBpm e title artist w1 = (Inr None, w2)
             \<and> searchMusicBrainzRecordings e title artist w2 = (Inr (mb # rest), w3)
             \<and> skipped e (mb # rest) w3 = Some w4 \<longrightarrow>
          (let miss = \<lparr>camelot = Null, key = Null, mode = Null,
                        provider = Undefined, providerId = Undefined,
                        mbid = Str (fst mb), score = Num (snd mb), cachedAt = clock w\<rparr>;
               w' = storageSet e k (SRecord miss) w4
           in lookupCamelot e k title artist w = (Inr miss, w')
              \<and> storage w' k = Some (SRecord miss)))
       \<and> (\<forall>w2 cands w3 err w4.
             lookupViaGetSongBpm e title artist w1 = (Inr None, w2)
             \<and> searchMusicBrainzRecordings e title artist w2 = (Inr cands, w3)
             \<and> firstTonal e cands w3 = (Inl err, w4) \<longrightarrow>
          lookupCamelot e k title artist w = (Inl err, w4)))
   \<and> (\<forall>err w'. lookupCamelot e k title artist w = (Inl err, w') \<longrightarrow> storage w' = storage w)"
proof (intro conjI impI allI)
  assume h: "storage w k = Some (SRecord c) \<and> clock w - cachedAt c < CACHE_TTL_MS"
  then show f: "lookupCamelot e k title artist w = (Inr c, w\<lparr>clock := clock w + lag e w\<rparr>)"
    using lookupCamelot_fresh [of w k c e title artist] by (simp add: storageGet_def)
  show "storage (snd (lookupCamelot e k title artist w)) = storage w"
    by (simp add: f)
  show "trace (snd (lookupCamelot e k title artist w)) = trace w"
    by (simp add: f)
next
  fix err w2
  assume h: "(storage w k = None
        \<or> (storage w k = Some (SRecord c) \<and> CACHE_TTL_MS \<le> clock w - cachedAt c))
       \<and> w1 = w\<lparr>clock := clock w + lag e w\<rparr>"
    and a: "lookupViaGetSongBpm e title artist w1 = (Inl err, w2)"
  from a show "lookupCamelot e k title artist w = (Inl err, w2)"
    by (simp add: lookupCamelot_resolves [OF h] resolveUncached_def)
next
  fix gsb w2
  assume h: "(storage w k = None
        \<or> (storage w k = Some (SRecord c) \<and> CACHE_TTL_MS \<le> clock w - cachedAt c))
       \<and> w1 = w\<lparr>clock := clock w + lag e w\<rparr>"
    and a: "lookupViaGetSongBpm e title artist w1 = (Inr (Some gsb), w2)"
  from a show "let out = \<lparr>camelot = camelot gsb, key = key gsb, mode = mode gsb,
                       provider = provider gsb, providerId = providerId gsb,
                       mbid = Null, score = Null, cachedAt = clock w\<rparr>;
               w' = storageSet e k (SRecord out) w2
           in lookupCamelot e k title artist w = (Inr out, w')
              \<and> storage w' k = Some (SRecord out)"
    by (simp add: lookupCamelot_resolves [OF h] resolveUncached_def storage_storageSet)
next
  fix w2 err w3
  assume h: "(storage w k = None
        \<or> (storage w k = Some (SRecord c) \<and> CACHE_TTL_MS \<le> clock w - cachedAt c))
       \<and> w1 = w\<lparr>clock := clock w + lag e w\<rparr>"
    and a: "lookupViaGetSongBpm e title artist w1 = (Inr None, w2)
             \<and> searchMusicBrainzRecordings e title artist w2 = (Inl err, w3)"
  from a show "lookupCamelot e k title artist w = (Inl err, w3)"
    by (simp add: lookupCamelot_resolves [OF h] resolveUncached_def fallback_def)
next
  fix w2 w3
  assume h: "(storage w k = None
        \<or> (storage w k = Some (SRecord c) \<and> CACHE_TTL_MS \<le> clock w - cachedAt c))
       \<and> w1 = w\<lparr>clock := clock w + lag e w\<rparr>"
    and a: "lookupViaGetSongBpm e title artist w1 = (Inr None, w2)
             \<and> searchMusicBrainzRecordings e title artist w2 = (Inr [], w3)"
  from a show "let miss = \<lparr>camelot = Null, key = Null, mode = Null,
                        provider = Undefined, providerId = Undefined,
                        mbid = Null, score = Null, cachedAt = clock w\<rparr>;
               w' = storageSet e k (SRecord miss) w3
           in lookupCamelot e k title artist w = (Inr miss, w')
              \<and> storage w' k = Some (SRecord miss)"
    by (simp add: lookupCamelot_resolves [OF h] resolveUncached_def fallback_def
        storage_storageSet)
next
  fix w2 pre mb post w3 w4 ab w5
  assume h: "(storage w k = None
        \<or> (storage w k = Some (SRecord c) \<and> CACHE_TTL_MS \<le> clock w - cachedAt c))
       \<and> w1 = w\<lparr>clock := clock w + lag e w\<rparr>"
    and a: "lookupViaGetSongBpm e title artist w1 = (Inr None, w2)
             \<and> searchMusicBrainzRecordings e title artist w2 = (Inr (pre @ mb # post), w3)
             \<and> skipped e pre w3 = Some w4
             \<and> fetchAcousticBrainzKeyAnySubmission e (fst mb) w4 = (Inr (Some ab), w5)"
  then have "firstTonal e (pre @ mb # post) w3 = (Inr (Some (mb, ab)), w5)"
    using firstTonal_first [of e pre w3 w4 mb ab w5 post] by simp
  with a show "let out = \<lparr>camelot = jsOr (keyToCamelot (Some (fst ab)) (Some (snd ab))) Null,
                       key = Str (normalizeKeyName (Some (fst ab))),
                       mode = jsOr (Str (toLowerCaseOf e (snd ab))) Null,
                       provider = Undefined, providerId = Undefined,
                       mbid = Str (fst mb), score = Num (snd mb), cachedAt = clock w\<rparr>;
               w' = storageSet e k (SRecord out) w5
           in lookupCamelot e k title artist w = (Inr out, w')
              \<and> storage w' k = Some (SRecord out)"
    by (simp add: lookupCamelot_resolves [OF h] resolveUncached_def fallback_def
        storage_storageSet)
next
  fix w2 mb rest w3 w4
  assume h: "(storage w k = None
        \<or> (storage w k = Some (SRecord c) \<and> CACHE_TTL_MS \<le> clock w - cachedAt c))
       \<and> w1 = w\<lparr>clock := clock w + lag e w\<rparr>"
    and a: "lookupViaGetSongBpm e title artist w1 = (Inr None, w2)
             \<and> searchMusicBrainzRecordings e title artist w2 = (Inr (mb # rest), w3)
             \<and> skipped e (mb # rest) w3 = Some w4"
  then have "firstTonal e (mb # rest) w3 = (Inr None, w4)"
    using firstTonal_none [of e "mb # rest" w3 w4] by simp
  with a show "let miss = \<lparr>camelot = Null, key = Null, mode = Null,
                        provider = Undefined, providerId = Undefined,
                        mbid = Str (fst mb), score = Num (snd mb), cachedAt = clock w\<rparr>;
               w' = storageSet e k (SRecord miss) w4
           in lookupCamelot e k title artist w = (Inr miss, w')
              \<and> storage w' k = Some (SRecord miss)"
    by (simp add: lookupCamelot_resolves [OF h] resolveUncached_def fallback_def
        storage_storageSet del: firstTonal.simps skipped.simps)
next
  fix w2 cands w3 err w4
  assume h: "(storage w k = None
        \<or> (storage w k = Some (SRecord c) \<and> CACHE_TTL_MS \<le> clock w - cachedAt c))
       \<and> w1 = w\<lparr>clock := clock w + lag e w\<rparr>"
    and a: "lookupViaGetSongBpm e title artist w1 = (Inr None, w2)
             \<and> searchMusicBrainzRecordings e title artist w2 = (Inr cands, w3)
             \<and> firstTonal e cands w3 = (Inl err, w4)"
  then have "cands \<noteq> []" by auto
  with a show "lookupCamelot e k title artist w = (Inl err, w4)"
    by (simp add: lookupCamelot_resolves [OF h] resolveUncached_def fallback_def)
next
  fix err w'
  assume "lookupCamelot e k title artist w = (Inl err, w')"
  from lookupCamelot_frame [OF this] show "storage w' = storage w" by simp
qed

lemma storage_worldCached_key:
  "storage (worldCached t) GETSONG_KEY_STORAGE = Some (SString (js ''k1''))"
  by (simp add: worldCached_def world_defs strobeKey_def js_def)

lemma storage_worldCached: "storage (worldCached t) strobeKey = Some (SRecord (cachedRecord t))"
  by (simp add: worldCached_def)

lemma primary_strobeExact:
  assumes "storage w GETSONG_KEY_STORAGE = Some (SString (js ''k1''))"
  shows "lookupViaGetSongBpm (constEnv [strobeExact] recs ab) (js ''Strobe'') (js ''deadmau5'') w =
           (Inr None, issue (GetSongSearch (js ''song:Strobe artist:deadmau5'') (js ''k1'')) 120 w)"
proof -
  let ?lookup = "js ''song:'' @ normalizeWhitespace (Some (js ''Strobe''))
                  @ js '' artist:'' @ normalizeWhitespace (Some (js ''deadmau5''))"
  have w: "w\<lparr>clock := clock w\<rparr> = w" by simp
  have k: "getGetsongApiKey (constEnv [strobeExact] recs ab) w = (Inr (js ''k1''), w)"
    using assms w by (simp add: getGetsongApiKey_def storageGet_def constEnv_def string_defs)
  have l: "?lookup = js ''song:Strobe artist:deadmau5''" by (simp add: string_defs)
  have wf: "wellFormed ?lookup" by (simp add: string_defs)
  have "lookupViaGetSongBpm (constEnv [strobeExact] recs ab) (js ''Strobe'') (js ''deadmau5'') w =
     (Inr (firstParsed (take 5 (rankItems (js ''Strobe'') (js ''deadmau5'') [strobeExact]))),
      issue (GetSongSearch ?lookup (js ''k1'')) 120 w)"
    using lookupViaGetSongBpm_result [OF k _ refl wf, of 200 "[strobeExact]" 120]
    by (simp add: constEnv_def ok_def js_def)
  moreover have "firstParsed (take 5 (rankItems (js ''Strobe'') (js ''deadmau5'') [strobeExact])) = None"
    using parse_strobeExact by (simp add: rankItems_def)
  ultimately show ?thesis by (simp only: l)
qed

lemma search_trace:
  "map fst (trace (snd (searchMusicBrainzRecordings (constEnv items [recA, recB] ab)
                          (js ''Strobe'') (js ''deadmau5'') w))) =
     map fst (trace w) @ [MusicBrainzSearch strobeQuery]"
  by (simp add: provider_defs world_defs string_defs recA_def recB_def strobeQuery_def)

lemma search_any_world:
  "fst (searchMusicBrainzRecordings (constEnv items [recA, recB] ab)
          (js ''Strobe'') (js ''deadmau5'') w) =
     Inr [(js ''mb-1'', 100), (js ''mb-2'', 95)]"
  by (simp add: provider_defs world_defs string_defs recA_def recB_def)

text \<open>
  The worker is called at time 1700000000000. A record written 30 days less one millisecond
  before is returned. A record written exactly 30 days before is replaced: by what the
  primary provider answers when it has a key; and when its only result has no key string, by
  the record of the recording \<open>mb-2\<close>, after one request to the primary provider, one
  recording search and one analysis request for each of \<open>mb-1\<close> and \<open>mb-2\<close>.
\<close>

theorem cache_freshness_witness:
  "lookupCamelot (constEnv [strobeLive, strobeExact] [] noAnalysis) strobeKey
       (js ''Strobe'') (js ''deadmau5'') (worldCached 1697408000001) =
     (Inr (cachedRecord 1697408000001), worldCached 1697408000001)
   \<and> fst (lookupCamelot (constEnv [strobeLive, strobeExact] [] noAnalysis) strobeKey
            (js ''Strobe'') (js ''deadmau5'') (worldCached 1697408000000)) =
       Inr \<lparr>camelot = Str (js ''11A''), key = Str (js ''F#''), mode = Str (js ''minor''),
            provider = Str (js ''getsongbpm''), providerId = Str (js ''42''),
            mbid = Null, score = Null, cachedAt = 1700000000000\<rparr>
   \<and> storage (snd (lookupCamelot (constEnv [strobeLive, strobeExact] [] noAnalysis) strobeKey
                     (js ''Strobe'') (js ''deadmau5'') (worldCached 1697408000000))) strobeKey =
       Some (SRecord \<lparr>camelot = Str (js ''11A''), key = Str (js ''F#''),
                      mode = Str (js ''minor''), provider = Str (js ''getsongbpm''),
                      providerId = Str (js ''42''), mbid = Null, score = Null,
                      cachedAt = 1700000000000\<rparr>)
   \<and> fst (lookupCamelot (constEnv [strobeExact] [recA, recB] analysisOfB) strobeKey
            (js ''Strobe'') (js ''deadmau5'') (worldCached 1697408000000)) =
       Inr \<lparr>camelot = Str (js ''8A''), key = Str (js ''A''), mode = Str (js ''minor''),
            provider = Undefined, providerId = Undefined,
            mbid = Str (js ''mb-2''), score = Num 95, cachedAt = 1700000000000\<rparr>
   \<and> storage (snd (lookupCamelot (constEnv [strobeExact] [recA, recB] analysisOfB) strobeKey
                     (js ''Strobe'') (js ''deadmau5'') (worldCached 1697408000000))) strobeKey =
       Some (SRecord \<lparr>camelot = Str (js ''8A''), key = Str (js ''A''),
                      mode = Str (js ''minor''), provider = Undefined, providerId = Undefined,
                      mbid = Str (js ''mb-2''), score = Num 95, cachedAt = 1700000000000\<rparr>)
   \<and> map fst (trace (snd (lookupCamelot (constEnv [strobeExact] [recA, recB] analysisOfB)
                            strobeKey (js ''Strobe'') (js ''deadmau5'')
                            (worldCached 1697408000000)))) =
       [GetSongSearch (js ''song:Strobe artist:deadmau5'') (js ''k1''),
        MusicBrainzSearch strobeQuery,
        AcousticBrainzLowLevel (js ''mb-1'') 0,
        AcousticBrainzLowLevel (js ''mb-2'') 0]"
proof -
  let ?e = "constEnv [strobeLive, strobeExact] [] noAnalysis"
  let ?t = "js ''Strobe''" and ?a = "js ''deadmau5''"
  let ?fresh = "worldCached 1697408000001" and ?stale = "worldCached 1697408000000"
  have clk: "clock (worldCached t) = 1700000000000" for t
    by (simp add: worldCached_def world_defs)
  have lag0: "lag (constEnv items recs ab) w = 0" for items recs ab w
    by (simp add: constEnv_def)
  have same: "worldCached t\<lparr>clock := 1700000000000\<rparr> = worldCached t" for t
    by (simp add: worldCached_def world_defs)
  have st: "(storage ?stale strobeKey = None
             \<or> (storage ?stale strobeKey = Some (SRecord (cachedRecord 1697408000000))
                \<and> CACHE_TTL_MS \<le> clock ?stale - cachedAt (cachedRecord 1697408000000)))
            \<and> ?stale = ?stale\<lparr>clock := clock ?stale + lag (constEnv items recs ab) ?stale\<rparr>"
    for items recs ab
    by (simp add: storage_worldCached clk lag0 same cachedRecord_def CACHE_TTL_MS_def)
  have 1: "lookupCamelot ?e strobeKey ?t ?a ?fresh = (Inr (cachedRecord 1697408000001), ?fresh)"
    using cache_freshness [of ?fresh strobeKey "cachedRecord 1697408000001" ?e ?t ?a,
        THEN conjunct1]
    by (simp add: storage_worldCached clk lag0 same cachedRecord_def CACHE_TTL_MS_def)
  obtain g w2 where p: "lookupViaGetSongBpm ?e ?t ?a ?stale = (Inr (Some g), w2)"
    and g: "g = \<lparr>camelot = Str (js ''11A''), key = Str (js ''F#''),
                  mode = Str (js ''minor''), provider = Str (js ''getsongbpm''),
                  providerId = Str (js ''42'')\<rparr>"
    using primary_strobe [OF storage_worldCached_key, of "[]" noAnalysis 1697408000000]
    by (cases "lookupViaGetSongBpm ?e ?t ?a ?stale") simp
  have 2: "lookupCamelot ?e strobeKey ?t ?a ?stale =
       (Inr \<lparr>camelot = Str (js ''11A''), key = Str (js ''F#''), mode = Str (js ''minor''),
            provider = Str (js ''getsongbpm''), providerId = Str (js ''42''),
            mbid = Null, score = Null, cachedAt = 1700000000000\<rparr>,
        storageSet ?e strobeKey
          (SRecord \<lparr>camelot = Str (js ''11A''), key = Str (js ''F#''), mode = Str (js ''minor''),
            provider = Str (js ''getsongbpm''), providerId = Str (js ''42''),
            mbid = Null, score = Null, cachedAt = 1700000000000\<rparr>) w2)"
    using cache_freshness [of ?stale strobeKey "cachedRecord 1697408000000" ?e ?t ?a ?stale,
        THEN conjunct2, THEN conjunct1, rule_format, OF st, THEN conjunct2, THEN conjunct1,
        rule_format, OF p]
    by (simp add: g clk Let_def)
  let ?e' = "constEnv [strobeExact] [recA, recB] analysisOfB"
  let ?w2 = "issue (GetSongSearch (js ''song:Strobe artist:deadmau5'') (js ''k1'')) 120 ?stale"
  let ?w3 = "snd (searchMusicBrainzRecordings ?e' ?t ?a ?w2)"
  let ?w4 = "issue (AcousticBrainzLowLevel (js ''mb-1'') 0) 50 ?w3"
  let ?w5 = "issue (AcousticBrainzLowLevel (js ''mb-2'') 0) 50 ?w4"
  let ?out = "\<lparr>camelot = Str (js ''8A''), key = Str (js ''A''), mode = Str (js ''minor''),
            provider = Undefined, providerId = Undefined,
            mbid = Str (js ''mb-2''), score = Num 95, cachedAt = 1700000000000\<rparr>"
  have a: "lookupViaGetSongBpm ?e' ?t ?a ?stale = (Inr None, ?w2)"
    by (rule primary_strobeExact [OF storage_worldCached_key])
  have s: "searchMusicBrainzRecordings ?e' ?t ?a ?w2 =
             (Inr ([] @ (js ''mb-1'', 100) # [(js ''mb-2'', 95)]), ?w3)"
    using search_any_world [of "[strobeExact]" analysisOfB ?w2] by (simp add: prod_eq_iff)
  have s': "searchMusicBrainzRecordings ?e' ?t ?a ?w2 =
             (Inr ([(js ''mb-1'', 100)] @ (js ''mb-2'', 95) # []), ?w3)"
    using s by simp
  have sk: "skipped ?e' [(js ''mb-1'', 100)] ?w3 = Some ?w4"
    by (simp add: analysis_mb1)
  have hit: "fetchAcousticBrainzKeyAnySubmission ?e' (fst (js ''mb-2'', 95::int)) ?w4 =
               (Inr (Some (js ''A'', js ''minor'')), ?w5)"
    by (simp add: analysis_mb2)
  have lc: "toLowerCaseOf ?e' (js ''minor'') = js ''minor''"
    by (simp add: toLowerCaseOf_def toLowerCase_def lowerUnit_def js_def)
  have 3: "lookupCamelot ?e' strobeKey ?t ?a ?stale =
             (Inr ?out, storageSet ?e' strobeKey (SRecord ?out) ?w5)"
    using cache_freshness [of ?stale strobeKey "cachedRecord 1697408000000" ?e' ?t ?a ?stale,
        THEN conjunct2, THEN conjunct1, rule_format, OF st, THEN conjunct2, THEN conjunct2,
        THEN conjunct2, THEN conjunct2, THEN conjunct1, rule_format,
        OF conjI [OF a conjI [OF s' conjI [OF sk hit]]]]
    by (simp add: keyToCamelot_A_minor normalizeKeyName_A lc jsOr_def clk Let_def)
       (simp add: js_def)
  have tr: "map fst (trace (storageSet ?e' strobeKey (SRecord ?out) ?w5)) =
       [GetSongSearch (js ''song:Strobe artist:deadmau5'') (js ''k1''),
        MusicBrainzSearch strobeQuery,
        AcousticBrainzLowLevel (js ''mb-1'') 0,
        AcousticBrainzLowLevel (js ''mb-2'') 0]"
    using search_trace [of "[strobeExact]" analysisOfB ?w2]
    by (simp add: trace_storageSet issue_def worldCached_def world_defs)
  from 1 2 3 tr show ?thesis
    by (simp add: storage_storageSet)
qed

text \<open>
  C4 as the specification states it fails: the record under the key is 30 days old and the recording
  search answers with status 503. The call throws, and the stale record is still there.
\<close>

theorem stale_record_kept_counterexample:
  "storage (worldStale 1697408000000) strobeKey = Some (SRecord (cachedRecord 1697408000000))
   \<and> CACHE_TTL_MS \<le> clock (worldStale 1697408000000) - cachedAt (cachedRecord 1697408000000)
   \<and> fst (lookupCamelot (outOfService (constEnv [] [] noAnalysis)) strobeKey
            (js ''Strobe'') (js ''deadmau5'') (worldStale 1697408000000)) = Inl (HttpError 503)
   \<and> storage (snd (lookupCamelot (outOfService (constEnv [] [] noAnalysis)) strobeKey
                     (js ''Strobe'') (js ''deadmau5'') (worldStale 1697408000000))) strobeKey =
       Some (SRecord (cachedRecord 1697408000000))"
  by (simp add: lookupCamelot_def resolveUncached_def fallback_def provider_defs world_defs
      string_defs outOfService_def worldStale_def cachedRecord_def strobeKey_def
      CACHE_TTL_MS_def)

lemma parse_Bsharp: "parseGetsongKeyOf (Some (js ''B#'')) = Some (js ''B#'', js ''major'')"
  by (simp add: parseGetsongKeyOf_def matchCompact_def isAccidental_def accidentalAscii_def
      normalizeKeyName_def isNoteLetter_def string_defs)

lemma parse_Esharp: "parseGetsongKeyOf (Some (js ''E#'')) = Some (js ''E#'', js ''major'')"
  by (simp add: parseGetsongKeyOf_def matchCompact_def isAccidental_def accidentalAscii_def
      normalizeKeyName_def isNoteLetter_def string_defs)

lemma keyToCamelot_Bsharp: "keyToCamelot (Some (js ''B#'')) (Some (js ''major'')) = Null"
  by (simp add: keyToCamelot_def normalizeKeyName_def isNoteLetter_def objGet_def MAJOR_def
      objectPrototypeNames_def jsOr_def string_defs)

lemma keyToCamelot_Esharp: "keyToCamelot (Some (js ''E#'')) (Some (js ''major'')) = Null"
  by (simp add: keyToCamelot_def normalizeKeyName_def isNoteLetter_def objGet_def MAJOR_def
      objectPrototypeNames_def jsOr_def string_defs)

lemma primary_Bsharp:
  "lookupViaGetSongBpm (constEnv [strobeBsharp] recs ab) (js ''Strobe'') (js ''deadmau5'')
       worldWithKey =
     (Inr (Some \<lparr>camelot = Null, key = Str (js ''B#''), mode = Str (js ''major''),
                 provider = Str (js ''getsongbpm''), providerId = Str (js ''9'')\<rparr>),
      issue (GetSongSearch (js ''song:Strobe artist:deadmau5'') (js ''k1'')) 120 worldWithKey)"
proof -
  let ?lookup = "js ''song:'' @ normalizeWhitespace (Some (js ''Strobe''))
                  @ js '' artist:'' @ normalizeWhitespace (Some (js ''deadmau5''))"
  have l: "?lookup = js ''song:Strobe artist:deadmau5''" by (simp add: string_defs)
  have wf: "wellFormed ?lookup" by (simp add: string_defs)
  have "lookupViaGetSongBpm (constEnv [strobeBsharp] recs ab) (js ''Strobe'') (js ''deadmau5'')
       worldWithKey =
     (Inr (firstParsed (take 5 (rankItems (js ''Strobe'') (js ''deadmau5'') [strobeBsharp]))),
      issue (GetSongSearch ?lookup (js ''k1'')) 120 worldWithKey)"
    using lookupViaGetSongBpm_result [OF getGetsongApiKey_worldWithKey _ refl wf,
        of "[strobeBsharp]" recs ab 200 "[strobeBsharp]" 120]
    by (simp add: constEnv_def ok_def js_def)
  moreover have "firstParsed (take 5 (rankItems (js ''Strobe'') (js ''deadmau5'') [strobeBsharp])) =
    Some \<lparr>camelot = Null, key = Str (js ''B#''), mode = Str (js ''major''),
                 provider = Str (js ''getsongbpm''), providerId = Str (js ''9'')\<rparr>"
    using parse_Bsharp
    by (simp add: rankItems_def strobeBsharp_def keyToCamelot_Bsharp jsOr_def)
       (simp add: js_def)
  ultimately show ?thesis by (simp only: l)
qed

text \<open>
  C10. The key strings \<open>B#\<close> and \<open>E#\<close> parse, as the notes \<open>B#\<close> and \<open>E#\<close> in major, and
  have no Camelot code. When the one search result carries \<open>B#\<close>, \<open>lookupViaGetSongBpm\<close>
  returns a record with \<open>camelot\<close> null, the key \<open>B#\<close> and the provider \<open>getsongbpm\<close>; the
  orchestrator returns it, writes it to the cache, and sends no request to the recording
  search or the analysis service, although these would have found a key.
\<close>

theorem primary_hit_without_camelot:
  "parseGetsongKeyOf (Some (js ''B#'')) = Some (js ''B#'', js ''major'')
   \<and> keyToCamelot (Some (js ''B#'')) (Some (js ''major'')) = Null
   \<and> parseGetsongKeyOf (Some (js ''E#'')) = Some (js ''E#'', js ''major'')
   \<and> keyToCamelot (Some (js ''E#'')) (Some (js ''major'')) = Null
   \<and> fst (lookupViaGetSongBpm (constEnv [strobeBsharp] [recA, recB] analysisOfB)
            (js ''Strobe'') (js ''deadmau5'') worldWithKey) =
       Inr (Some \<lparr>camelot = Null, key = Str (js ''B#''), mode = Str (js ''major''),
                  provider = Str (js ''getsongbpm''), providerId = Str (js ''9'')\<rparr>)
   \<and> fst (lookupCamelot (constEnv [strobeBsharp] [recA, recB] analysisOfB) strobeKey
            (js ''Strobe'') (js ''deadmau5'') worldWithKey) =
       Inr \<lparr>camelot = Null, key = Str (js ''B#''), mode = Str (js ''major''),
            provider = Str (js ''getsongbpm''), providerId = Str (js ''9''),
            mbid = Null, score = Null, cachedAt = 1700000000000\<rparr>
   \<and> storage (snd (lookupCamelot (constEnv [strobeBsharp] [recA, recB] analysisOfB) strobeKey
                     (js ''Strobe'') (js ''deadmau5'') worldWithKey)) strobeKey =
       Some (SRecord \<lparr>camelot = Null, key = Str (js ''B#''), mode = Str (js ''major''),
                      provider = Str (js ''getsongbpm''), providerId = Str (js ''9''),
                      mbid = Null, score = Null, cachedAt = 1700000000000\<rparr>)
   \<and> map fst (trace (snd (lookupCamelot (constEnv [strobeBsharp] [recA, recB] analysisOfB)
                            strobeKey (js ''Strobe'') (js ''deadmau5'') worldWithKey))) =
       [GetSongSearch (js ''song:Strobe artist:deadmau5'') (js ''k1'')]
   \<and> fst (fallback (constEnv [strobeBsharp] [recA, recB] analysisOfB) 1700000000000 strobeKey
            (js ''Strobe'') (js ''deadmau5'') world0) =
       Inr \<lparr>camelot = Str (js ''8A''), key = Str (js ''A''), mode = Str (js ''minor''),
            provider = Undefined, providerId = Undefined,
            mbid = Str (js ''mb-2''), score = Num 95, cachedAt = 1700000000000\<rparr>"
proof -
  let ?e = "constEnv [strobeBsharp] [recA, recB] analysisOfB"
  let ?t = "js ''Strobe''" and ?a = "js ''deadmau5''"
  have absent: "storage worldWithKey strobeKey = None"
    by (simp add: world_defs strobeKey_def js_def)
  have w1: "snd (storageGet ?e strobeKey worldWithKey) = worldWithKey"
    by (simp add: storageGet_def constEnv_def)
  have clk: "clock worldWithKey = 1700000000000"
    by (simp add: world_defs)
  have l: "lookupCamelot ?e strobeKey ?t ?a worldWithKey =
             resolveUncached ?e 1700000000000 strobeKey ?t ?a worldWithKey"
    using lookupCamelot_absent [OF absent, of ?e ?t ?a] by (simp add: w1 clk)
  have r: "resolveUncached ?e 1700000000000 strobeKey ?t ?a worldWithKey =
     (let out = \<lparr>camelot = Null, key = Str (js ''B#''), mode = Str (js ''major''),
                  provider = Str (js ''getsongbpm''), providerId = Str (js ''9''),
                  mbid = Null, score = Null, cachedAt = 1700000000000\<rparr>
      in (Inr out, storageSet ?e strobeKey (SRecord out)
            (issue (GetSongSearch (js ''song:Strobe artist:deadmau5'') (js ''k1'')) 120
               worldWithKey)))"
    using resolveUncached_primary_hit [OF primary_Bsharp, of "[recA, recB]" analysisOfB 1700000000000 strobeKey]
    by simp
  obtain v1 where s: "searchMusicBrainzRecordings ?e ?t ?a world0 =
             (Inr [(js ''mb-1'', 100), (js ''mb-2'', 95)], v1)"
    using search_recA_recB [of "[strobeBsharp]" analysisOfB]
    by (cases "searchMusicBrainzRecordings ?e ?t ?a world0") simp
  have f: "fst (fallback ?e 1700000000000 strobeKey ?t ?a world0) =
       Inr \<lparr>camelot = Str (js ''8A''), key = Str (js ''A''), mode = Str (js ''minor''),
            provider = Undefined, providerId = Undefined,
            mbid = Str (js ''mb-2''), score = Num 95, cachedAt = 1700000000000\<rparr>"
    by (simp add: fallback_def s analysis_mb1 analysis_mb2 keyToCamelot_A_minor
        normalizeKeyName_A jsOr_def Let_def)
       (simp add: toLowerCaseOf_def toLowerCase_def lowerUnit_def js_def)
  have tr: "map fst (trace (snd (lookupCamelot ?e strobeKey ?t ?a worldWithKey))) =
       [GetSongSearch (js ''song:Strobe artist:deadmau5'') (js ''k1'')]"
    by (simp add: l r Let_def trace_storageSet) (simp add: world_defs)
  show ?thesis
    using parse_Bsharp parse_Esharp keyToCamelot_Bsharp keyToCamelot_Esharp
      primary_Bsharp [of "[recA, recB]" analysisOfB] f tr
    by (simp add: l r Let_def storage_storageSet)
qed

section \<open>Properties of the rate limiter\<close>

lemma quiet_refl: "quiet w w"
  by (simp add: quiet_def)

lemma quiet_trans: "quiet w w' \<Longrightarrow> quiet w' w'' \<Longrightarrow> quiet w w''"
  by (simp add: quiet_def)

lemma limited_quiet: "limited w \<Longrightarrow> quiet w w' \<Longrightarrow> limited w'"
  by (simp add: limited_def quiet_def)

lemma quiet_storageGet: "quiet w (snd (storageGet e k w))"
  by (simp add: quiet_def storageGet_def)

lemma quiet_storageSet: "quiet w (storageSet e k v w)"
  by (simp add: quiet_def storageSet_def Let_def)

lemma quiet_lookupViaGetSongBpm: "quiet w (snd (lookupViaGetSongBpm e title artist w))"
  by (rule quiet_calm [OF calm_lookupViaGetSongBpm])

lemma quiet_fetchAcousticBrainz: "quiet w (snd (fetchAcousticBrainzKeyAnySubmission e m w))"
  by (rule quiet_calm [OF calm_fetchAcousticBrainz])

lemma quiet_firstTonal: "quiet w (snd (firstTonal e cands w))"
  by (rule quiet_calm [OF calm_firstTonal])

lemma spaced_snoc:
  "spaced ts \<Longrightarrow> \<forall>t \<in> set ts. t + MB_MIN_INTERVAL_MS \<le> t' \<Longrightarrow> spaced (ts @ [t'])"
  by (induction ts rule: spaced.induct) auto

text \<open>
  What one call of the limiter does: the request leaves at the time read after the wait and
  that time becomes \<open>lastMbRequestAt\<close>. When there is nothing to wait for, that time is at
  least the minimum interval after the previous value, by the test itself; after a wait it
  is so when the timer has not fired early.
\<close>

lemma rateLimitedMusicBrainzFetch_effect:
  assumes wait: "wait = max 0 (MB_MIN_INTERVAL_MS - (clock w - lastMbRequestAt w))"
    and w': "w' = snd (rateLimitedMusicBrainzFetch e q w)"
  shows "lastMbRequestAt w' = (if wait = 0 then clock w else clock w + timer e w wait)
    \<and> trace w' = trace w @ [(MusicBrainzSearch q, lastMbRequestAt w')]
    \<and> (wait = 0 \<or> wait \<le> timer e w wait \<longrightarrow>
          lastMbRequestAt w + MB_MIN_INTERVAL_MS \<le> lastMbRequestAt w')"
proof (cases "wait = 0")
  case True
  then have "MB_MIN_INTERVAL_MS - (clock w - lastMbRequestAt w) \<le> 0"
    using wait by simp
  with True wait w' show ?thesis
    by (simp add: snd_rateLimitedMusicBrainzFetch Let_def issue_def)
next
  case False
  then have "wait = MB_MIN_INTERVAL_MS - (clock w - lastMbRequestAt w)"
    using wait by simp
  with False wait w' show ?thesis
    by (simp add: snd_rateLimitedMusicBrainzFetch Let_def issue_def sleep_def)
qed

lemma limited_rateLimitedMusicBrainzFetch:
  assumes "punctual e" and "limited w"
  shows "limited (snd (rateLimitedMusicBrainzFetch e q w))"
proof -
  let ?w' = "snd (rateLimitedMusicBrainzFetch e q w)"
  let ?wait = "max 0 (MB_MIN_INTERVAL_MS - (clock w - lastMbRequestAt w))"
  note E = rateLimitedMusicBrainzFetch_effect [of _ w _ e q, OF refl refl]
  from E have tr: "mbTimes (trace ?w') = mbTimes (trace w) @ [lastMbRequestAt ?w']"
    by (simp add: mbTimes_def)
  from assms(1) have "?wait \<le> timer e w ?wait" by (simp add: punctual_def)
  with E have step: "lastMbRequestAt w + MB_MIN_INTERVAL_MS \<le> lastMbRequestAt ?w'" by blast
  have old: "\<forall>t \<in> set (mbTimes (trace w)). t + MB_MIN_INTERVAL_MS \<le> lastMbRequestAt ?w'"
    using assms(2) step by (auto simp: limited_def)
  have "spaced (mbTimes (trace ?w'))"
    using assms(2) old by (simp add: tr limited_def spaced_snoc)
  moreover have "\<forall>t \<in> set (mbTimes (trace ?w')). t \<le> lastMbRequestAt ?w'"
    using old by (auto simp: tr MB_MIN_INTERVAL_MS_def)
  ultimately show ?thesis by (simp add: limited_def)
qed

lemma limited_searchQueries:
  "punctual e \<Longrightarrow> limited w \<Longrightarrow> limited (snd (searchQueries e qs w))"
proof (induction qs arbitrary: w)
  case Nil
  then show ?case by simp
next
  case (Cons q qs)
  obtain r w1 where f: "rateLimitedMusicBrainzFetch e q w = (r, w1)"
    by (cases "rateLimitedMusicBrainzFetch e q w")
  with Cons.prems have l1: "limited w1"
    using limited_rateLimitedMusicBrainzFetch [of e w q] by simp
  with Cons.prems have "limited (snd (searchQueries e qs w1))" by (intro Cons.IH)
  with Cons.prems l1 f show ?case
    by (auto simp: Let_def split: sum.splits json.splits)
qed

lemma limited_searchMusicBrainzRecordings:
  "punctual e \<Longrightarrow> limited w \<Longrightarrow> limited (snd (searchMusicBrainzRecordings e title artist w))"
  unfolding searchMusicBrainzRecordings_def Let_def by (rule limited_searchQueries)

lemma limited_fallback:
  assumes "punctual e" and "limited w"
  shows "limited (snd (fallback e now k title artist w))"
proof -
  obtain r w1 where s: "searchMusicBrainzRecordings e title artist w = (r, w1)"
    by (cases "searchMusicBrainzRecordings e title artist w")
  with assms have l1: "limited w1"
    using limited_searchMusicBrainzRecordings [of e w title artist] by simp
  show ?thesis
  proof (cases r)
    case (Inl err)
    with s l1 show ?thesis by (simp add: fallback_def)
  next
    case (Inr cands)
    obtain r2 w2 where t: "firstTonal e cands w1 = (r2, w2)"
      by (cases "firstTonal e cands w1")
    then have "quiet w1 w2" using quiet_firstTonal [of w1 e cands] by simp
    with l1 have l2: "limited w2" by (rule limited_quiet)
    have st: "limited (storageSet e k v w')" if "limited w'" for v w'
      using that quiet_storageSet by (rule limited_quiet)
    from s Inr t l1 l2 show ?thesis
      by (auto simp: fallback_def Let_def st split: sum.splits option.splits prod.splits)
  qed
qed

lemma limited_resolveUncached:
  assumes "punctual e" and "limited w"
  shows "limited (snd (resolveUncached e now k title artist w))"
proof -
  obtain r w1 where p: "lookupViaGetSongBpm e title artist w = (r, w1)"
    by (cases "lookupViaGetSongBpm e title artist w")
  then have "quiet w w1" using quiet_lookupViaGetSongBpm [of w e title artist] by simp
  with assms(2) have l1: "limited w1" by (rule limited_quiet)
  have st: "limited (storageSet e k v w1)" for v
    using l1 quiet_storageSet by (rule limited_quiet)
  from p l1 show ?thesis
    by (auto simp: resolveUncached_def Let_def st limited_fallback [OF assms(1)]
        split: sum.splits option.splits)
qed

lemma limited_lookupCamelot:
  assumes "punctual e" and "limited w"
  shows "limited (snd (lookupCamelot e k title artist w))"
proof -
  have l1: "limited (snd (storageGet e k w))"
    using assms(2) quiet_storageGet by (rule limited_quiet)
  with assms(1)
  have "limited (snd (resolveUncached e (clock w) k title artist (snd (storageGet e k w))))"
    by (rule limited_resolveUncached)
  with l1 show ?thesis
    by (auto simp: lookupCamelot_def Let_def storageGet_def
        split: option.splits stored.splits)
qed

lemma limited_job: "punctual e \<Longrightarrow> limited w \<Longrightarrow> limited (snd (job e msg w))"
  using limited_lookupCamelot [of e w "orEmpty (msg_cacheKey msg)"
      "normalizeWhitespace (msg_title msg)" "normalizeWhitespace (msg_artist msg)"]
  by (auto simp: job_def Let_def split: prod.splits sum.splits)

lemma limited_runJobs: "punctual e \<Longrightarrow> limited w \<Longrightarrow> limited (runJobs e msgs w)"
  unfolding runJobs_def by (induction msgs arbitrary: w) (simp_all add: limited_job)

lemma limited_step:
  "step e k k' \<Longrightarrow> punctual e \<Longrightarrow> limited (wstate k) \<Longrightarrow> limited (wstate k')"
proof (induction rule: step.induct)
  case (arrive k msg)
  then show ?case by (simp add: onMessage_def Let_def)
next
  case (idle k d)
  then show ?case by (simp add: limited_def later_def)
next
  case (start k before msg rest)
  then show ?case by simp
next
  case (send k before msg q qs rest)
  then show ?case by simp
next
  case (receive k before msg q qs rest)
  then show ?case by simp
next
  case (finish k before msg rest r w')
  then show ?case using limited_job [of e "wstate k" msg] by simp
qed

lemma limited_steps:
  "(step e)\<^sup>*\<^sup>* k k' \<Longrightarrow> punctual e \<Longrightarrow> limited (wstate k) \<Longrightarrow> limited (wstate k')"
  by (induction rule: rtranclp_induct) (auto intro: limited_step)

lemma limited_initial: "trace w = [] \<Longrightarrow> limited w"
  by (simp add: limited_def mbTimes_def)

lemma punctual_constEnv: "punctual (constEnv items recs ab)"
  by (simp add: punctual_def constEnv_def)

text \<open>
  C2 (as amended). Only the requests to the recording search go through the limiter.
  Before each of them the limiter computes \<open>wait = max(0, 1100 - (now - lastMbRequestAt))\<close>,
  sleeps once when \<open>wait\<close> is not zero, and sets \<open>lastMbRequestAt\<close> to the time read after
  the sleep, at which the request leaves; it does not look at the clock again to see whether
  the sleep lasted. That time is at least 1100 ms after the previous value when there was
  nothing to wait for or the clock has moved by at least \<open>wait\<close> during the sleep. So, when
  no timer fires early, any two consecutive requests to the recording search are at least
  1100 ms apart in every run of the worker from its start, whatever else the environment
  does and whatever time passes between the lookups. A lookup of tonal data sends its requests without the limiter: it adds no recording
  search to the log and leaves \<open>lastMbRequestAt\<close> as it was.
\<close>

theorem rate_limit:
  "(punctual e \<and> limited w \<longrightarrow> limited (snd (job e msg w)) \<and> limited (runJobs e msgs w))
   \<and> (punctual e \<and> limited (wstate k) \<and> (step e)\<^sup>*\<^sup>* k k' \<longrightarrow> limited (wstate k'))
   \<and> (punctual e \<and> trace (wstate k) = [] \<and> (step e)\<^sup>*\<^sup>* k k' \<longrightarrow>
        spaced (mbTimes (trace (wstate k'))))
   \<and> (punctual e \<and> trace w = [] \<longrightarrow> spaced (mbTimes (trace (runJobs e msgs w))))
   \<and> (let wait = max 0 (MB_MIN_INTERVAL_MS - (clock w - lastMbRequestAt w));
           w' = snd (rateLimitedMusicBrainzFetch e q w)
       in lastMbRequestAt w' = (if wait = 0 then clock w else clock w + timer e w wait)
          \<and> trace w' = trace w @ [(MusicBrainzSearch q, lastMbRequestAt w')]
          \<and> (wait = 0 \<or> wait \<le> timer e w wait \<longrightarrow>
                lastMbRequestAt w + MB_MIN_INTERVAL_MS \<le> lastMbRequestAt w'))
   \<and> lastMbRequestAt (snd (fetchAcousticBrainzKeyAnySubmission e m w)) = lastMbRequestAt w
   \<and> mbTimes (trace (snd (fetchAcousticBrainzKeyAnySubmission e m w))) = mbTimes (trace w)"
proof (intro conjI impI)
  assume h: "punctual e \<and> limited w"
  then show "limited (snd (job e msg w))" by (simp add: limited_job)
  from h show "limited (runJobs e msgs w)" by (simp add: limited_runJobs)
next
  assume "punctual e \<and> limited (wstate k) \<and> (step e)\<^sup>*\<^sup>* k k'"
  then show "limited (wstate k')" using limited_steps by blast
next
  assume h: "punctual e \<and> trace (wstate k) = [] \<and> (step e)\<^sup>*\<^sup>* k k'"
  then have "limited (wstate k)" by (simp add: limited_initial)
  with h have "limited (wstate k')" using limited_steps by blast
  then show "spaced (mbTimes (trace (wstate k')))" by (simp add: limited_def)
next
  assume h: "punctual e \<and> trace w = []"
  then have "limited w" by (simp add: limited_initial)
  with h have "limited (runJobs e msgs w)" by (simp add: limited_runJobs)
  then show "spaced (mbTimes (trace (runJobs e msgs w)))" by (simp add: limited_def)
next
  show "let wait = max 0 (MB_MIN_INTERVAL_MS - (clock w - lastMbRequestAt w));
           w' = snd (rateLimitedMusicBrainzFetch e q w)
       in lastMbRequestAt w' = (if wait = 0 then clock w else clock w + timer e w wait)
          \<and> trace w' = trace w @ [(MusicBrainzSearch q, lastMbRequestAt w')]
          \<and> (wait = 0 \<or> wait \<le> timer e w wait \<longrightarrow>
                lastMbRequestAt w + MB_MIN_INTERVAL_MS \<le> lastMbRequestAt w')"
    unfolding Let_def by (rule rateLimitedMusicBrainzFetch_effect [OF refl refl])
next
  show "lastMbRequestAt (snd (fetchAcousticBrainzKeyAnySubmission e m w)) = lastMbRequestAt w"
    using quiet_fetchAcousticBrainz [of w e m] by (simp add: quiet_def)
next
  show "mbTimes (trace (snd (fetchAcousticBrainzKeyAnySubmission e m w))) = mbTimes (trace w)"
    using quiet_fetchAcousticBrainz [of w e m] by (simp add: quiet_def)
qed

lemmas run_defs = runJobs_def job_def lookupCamelot_def resolveUncached_def fallback_def

text \<open>
  One lookup without a credential, against a recording search that never has a result of
  score 60 and with timers that fire when they are due: the three queries leave at 0, 1100
  and 2200 ms. The first of them leaves at once, the worker having sent none before.
\<close>

theorem rate_limit_witness:
  "limited world0
   \<and> limited (snd (job (constEnv [] [recLow] noAnalysis) strobeMessage world0))
   \<and> limited (wstate (onMessage strobeMessage worker0))
   \<and> spaced (mbTimes (trace (runJobs (constEnv [] [recLow] noAnalysis) [strobeMessage] world0)))
   \<and> mbTimes (trace (runJobs (constEnv [] [recLow] noAnalysis) [strobeMessage] world0)) =
       [1700000000000, 1700000001100, 1700000002200]
   \<and> lastMbRequestAt (snd (rateLimitedMusicBrainzFetch (constEnv [] [recLow] noAnalysis)
                             strobeQuery world0)) = 1700000000000
   \<and> lastMbRequestAt world0 + MB_MIN_INTERVAL_MS \<le> 1700000000000"
proof -
  let ?e = "constEnv [] [recLow] noAnalysis"
  have p: "punctual ?e" by (rule punctual_constEnv)
  have i: "trace world0 = []"
    by (simp add: world0_def)
  have l: "limited world0"
    by (simp add: limited_def mbTimes_def world0_def)
  have s: "(step ?e)\<^sup>*\<^sup>* worker0 (onMessage strobeMessage worker0)"
    using step.arrive [of ?e worker0 strobeMessage] by blast
  have w0: "wstate worker0 = world0" by (simp add: worker0_def)
  note T = rate_limit [of ?e world0 strobeMessage "[strobeMessage]" worker0
      "onMessage strobeMessage worker0" strobeQuery]
  from p l T have 1: "limited (snd (job ?e strobeMessage world0))"
    by blast
  from p l s w0 T have 2: "limited (wstate (onMessage strobeMessage worker0))"
    by simp
  from p i T have 3: "spaced (mbTimes (trace (runJobs ?e [strobeMessage] world0)))"
    by blast
  have 4: "mbTimes (trace (runJobs ?e [strobeMessage] world0)) =
       [1700000000000, 1700000001100, 1700000002200]"
    by (simp add: run_defs provider_defs world0_def constEnv_def storageGet_def
        storageSet_def issue_def sleep_def ok_def GETSONG_KEY_STORAGE_def string_defs
        strobeMessage_def strobeKey_def recLow_def mbTimes_def)
  have wait0: "max 0 (MB_MIN_INTERVAL_MS - (clock world0 - lastMbRequestAt world0)) = 0"
    by (simp add: world0_def MB_MIN_INTERVAL_MS_def)
  from T [THEN conjunct2, THEN conjunct2, THEN conjunct2, THEN conjunct2, THEN conjunct1]
  have 5: "lastMbRequestAt (snd (rateLimitedMusicBrainzFetch ?e strobeQuery world0)) =
             1700000000000
           \<and> lastMbRequestAt world0 + MB_MIN_INTERVAL_MS \<le> 1700000000000"
    by (simp add: Let_def wait0) (simp add: world0_def)
  from l 1 2 3 4 5 show ?thesis by simp
qed

text \<open>
  C2 as the specification states it fails, in two ways. The three requests of one lookup of tonal
  data go to the analysis service 50 ms apart. And with timers that fire one millisecond
  early, the three queries of one lookup go to the recording search 1099 ms apart.
\<close>

theorem rate_limit_counterexample:
  "trace (snd (fetchAcousticBrainzKeyAnySubmission (constEnv [] [] analysisEmpty)
                 (js ''mb-1'') world0)) =
     [(AcousticBrainzLowLevel (js ''mb-1'') 0, 1700000000000),
      (AcousticBrainzLowLevel (js ''mb-1'') 1, 1700000000050),
      (AcousticBrainzLowLevel (js ''mb-1'') 2, 1700000000100)]
   \<and> \<not> spaced [1700000000000, 1700000000050, 1700000000100]
   \<and> mbTimes (trace (runJobs (hasty (constEnv [] [recLow] noAnalysis)) [strobeMessage]
                       world0)) =
       [1700000000000, 1700000001099, 1700000002198]
   \<and> \<not> spaced [1700000000000, 1700000001099, 1700000002198]"
proof -
  have 1: "trace (snd (fetchAcousticBrainzKeyAnySubmission (constEnv [] [] analysisEmpty)
                 (js ''mb-1'') world0)) =
     [(AcousticBrainzLowLevel (js ''mb-1'') 0, 1700000000000),
      (AcousticBrainzLowLevel (js ''mb-1'') 1, 1700000000050),
      (AcousticBrainzLowLevel (js ''mb-1'') 2, 1700000000100)]"
    by (simp add: fetchAcousticBrainzKeyAnySubmission_def submissionsFrom.simps
        analysisEmpty_def world_defs)
  have 2: "mbTimes (trace (runJobs (hasty (constEnv [] [recLow] noAnalysis)) [strobeMessage]
                       world0)) =
       [1700000000000, 1700000001099, 1700000002198]"
    by (simp add: run_defs provider_defs world0_def constEnv_def hasty_def storageGet_def
        storageSet_def issue_def sleep_def ok_def GETSONG_KEY_STORAGE_def string_defs
        strobeMessage_def strobeKey_def recLow_def mbTimes_def)
  from 1 2 show ?thesis by (simp add: MB_MIN_INTERVAL_MS_def)
qed

section \<open>Properties of the listener and the queue\<close>

text \<open>
  C9 (as amended). For a lookup message whose title or artist is missing or normalizes to
  the empty string, or whose cache key is missing or empty, the continuation answers
  \<open>{ok: true, data: null}\<close> and leaves the world as it is: no storage access, no request.
  The listener appends that continuation to the chain like any other, so the answer is
  given when its turn comes.
\<close>

theorem incomplete_message:
  "isLookup msg \<and> incomplete msg \<longrightarrow>
     job e msg w = (Okay None, w)
     \<and> onMessage msg k = k\<lparr>chain := chain k @ [(msg, Waiting)]\<rparr>"
  by (auto simp: isLookup_def incomplete_def job_def onMessage_def Let_def)

lemma untitledMessage_incomplete: "isLookup untitledMessage \<and> incomplete untitledMessage"
  by (simp add: isLookup_def incomplete_def untitledMessage_def string_defs)

theorem incomplete_message_witness:
  "job (constEnv [] [recA] analysisOfB) untitledMessage world0 = (Okay None, world0)
   \<and> onMessage untitledMessage worker0 = worker0\<lparr>chain := [(untitledMessage, Waiting)]\<rparr>"
  using incomplete_message [of untitledMessage "constEnv [] [recA] analysisOfB" world0 worker0]
    untitledMessage_incomplete
  by (simp add: worker0_def)

text \<open>
  C9 as the specification states it fails: the lookup message without a title is put on the chain.
\<close>

theorem incomplete_enqueued_counterexample:
  "isLookup untitledMessage \<and> incomplete untitledMessage
   \<and> chain (onMessage untitledMessage worker0) \<noteq> chain worker0"
  using untitledMessage_incomplete
  by (simp add: onMessage_def untitledMessage_def worker0_def Let_def js_def)

lemma serial_append_settled: "list_all isSettled bs \<Longrightarrow> serial (bs @ ss) = serial ss"
proof (induction bs)
  case Nil
  show ?case by simp
next
  case (Cons b bs)
  then show ?case by (cases b) simp_all
qed

lemma serial_Running_split:
  "serial (bs @ Running a rs # ss) \<Longrightarrow>
   list_all isSettled bs \<and> list_all (\<lambda>s. s = Waiting) ss"
proof (induction bs)
  case Nil
  then show ?case by simp
next
  case (Cons b bs)
  then show ?case by (cases b) simp_all
qed

lemma serial_Waiting_split:
  "serial (bs @ Waiting # rs) \<Longrightarrow> bs = [] \<or> isSettled (last bs) \<Longrightarrow>
   list_all isSettled bs \<and> list_all (\<lambda>s. s = Waiting) rs"
proof (induction bs)
  case Nil
  then show ?case by simp
next
  case (Cons b bs)
  show ?case
  proof (cases "isSettled b")
    case True
    then obtain r where b: "b = Settled r" by (cases b) simp_all
    with Cons.prems have "serial (bs @ Waiting # rs)" and "bs = [] \<or> isSettled (last bs)"
      by (simp_all split: if_splits)
    then have "list_all isSettled bs \<and> list_all (\<lambda>s. s = Waiting) rs" by (rule Cons.IH)
    with b show ?thesis by simp
  next
    case False
    with Cons.prems(1) have all: "list_all (\<lambda>s. s = Waiting) (bs @ Waiting # rs)"
      by (cases b) simp_all
    from Cons.prems(2) False have "bs \<noteq> []" and "isSettled (last bs)"
      by (auto split: if_splits)
    moreover from all \<open>bs \<noteq> []\<close> have "last bs = Waiting"
      by (simp add: list_all_iff)
    ultimately show ?thesis by simp
  qed
qed

lemma serial_snoc_Waiting: "serial ss \<Longrightarrow> serial (ss @ [Waiting])"
  by (induction ss rule: serial.induct) simp_all

lemma waiting_not_running: "list_all (\<lambda>s. s = Waiting) ss \<Longrightarrow> filter isRunning ss = []"
  by (induction ss) auto

lemma waiting_not_awaited: "list_all (\<lambda>s. s = Waiting) ss \<Longrightarrow> concat (map awaited ss) = []"
  by (induction ss) auto

lemma waiting_not_settled: "list_all (\<lambda>s. s = Waiting) ss \<Longrightarrow> filter isSettled ss = []"
  by (induction ss) auto

lemma length_awaited: "length (awaited s) \<le> Suc 0"
  by (cases s rule: awaited.cases) simp_all

lemma serial_Running_count: "serial ss \<Longrightarrow> length (filter isRunning ss) \<le> 1"
  by (induction ss rule: serial.induct) (simp_all add: waiting_not_running)

text \<open>In a serial chain at most one request is awaited: that of the running continuation.\<close>

lemma serial_awaited: "serial ss \<Longrightarrow> length (concat (map awaited ss)) \<le> 1"
  by (induction ss rule: serial.induct) (simp_all add: waiting_not_awaited length_awaited)

lemma serial_settled_prefix:
  "serial ss \<Longrightarrow> i < j \<Longrightarrow> j < length ss \<Longrightarrow> isSettled (ss ! j) \<Longrightarrow> isSettled (ss ! i)"
proof (induction ss arbitrary: i j rule: serial.induct)
  case 1
  then show ?case by simp
next
  case (2 r ss)
  show ?case
  proof (cases i)
    case 0
    then show ?thesis by simp
  next
    case (Suc i')
    with "2.prems" obtain j' where j: "j = Suc j'" by (cases j) auto
    with "2.prems" Suc have "isSettled (ss ! i')"
      using "2.IH" [of i' j'] by simp
    with Suc show ?thesis by simp
  qed
next
  case (3 a rs ss)
  from "3.prems" obtain j' where j: "j = Suc j'" by (cases j) auto
  with "3.prems" have "j' < length ss" and "isSettled (ss ! j')" by simp_all
  moreover from "3.prems"(1) \<open>j' < length ss\<close> have "ss ! j' = Waiting"
    by (simp add: list_all_length)
  ultimately show ?case by simp
next
  case (4 ss)
  from "4.prems" obtain j' where j: "j = Suc j'" by (cases j) auto
  with "4.prems" have "j' < length ss" and "isSettled (ss ! j')" by simp_all
  moreover from "4.prems"(1) \<open>j' < length ss\<close> have "ss ! j' = Waiting"
    by (simp add: list_all_length)
  ultimately show ?case by simp
qed

lemma serial_running_replaced:
  assumes "serial (map snd (before @ (msg, Running a rs) # rest))"
  shows "serial (map snd (before @ (msg, Running a' rs') # rest))"
proof -
  from assms have "serial (map snd before @ Running a rs # map snd rest)" by simp
  then have "list_all isSettled (map snd before) \<and> list_all (\<lambda>s. s = Waiting) (map snd rest)"
    by (rule serial_Running_split)
  then show ?thesis by (simp add: serial_append_settled)
qed

lemma serial_step: "step e k k' \<Longrightarrow> serial (map snd (chain k)) \<Longrightarrow> serial (map snd (chain k'))"
proof (induction rule: step.induct)
  case (arrive k msg)
  then show ?case by (simp add: onMessage_def Let_def serial_snoc_Waiting)
next
  case (idle k d)
  then show ?case by simp
next
  case (start k before msg rest)
  have l: "before = [] \<or> isSettled (last (map snd before))"
    using start.hyps(2) by (cases "before = []") (simp_all add: last_map)
  from start.prems start.hyps(1)
  have "serial (map snd before @ Waiting # map snd rest)" by simp
  then have "list_all isSettled (map snd before) \<and> list_all (\<lambda>s. s = Waiting) (map snd rest)"
    using l by (intro serial_Waiting_split) auto
  then show ?case by (simp add: serial_append_settled)
next
  case (send k before msg q qs rest)
  then show ?case using serial_running_replaced [of before msg None "q # qs" rest] by simp
next
  case (receive k before msg q qs rest)
  then show ?case using serial_running_replaced [of before msg "Some q" qs rest] by simp
next
  case (finish k before msg rest r w')
  from finish.prems finish.hyps(1)
  have "serial (map snd before @ Running None [] # map snd rest)" by simp
  then have s: "list_all isSettled (map snd before) \<and> list_all (\<lambda>s. s = Waiting) (map snd rest)"
    by (rule serial_Running_split)
  have "serial (map snd rest)"
  proof (cases "map snd rest")
    case Nil
    then show ?thesis by simp
  next
    case (Cons a as)
    with s show ?thesis by simp
  qed
  with s show ?case by (simp add: serial_append_settled)
qed

lemma serial_steps:
  "(step e)\<^sup>*\<^sup>* k k' \<Longrightarrow> serial (map snd (chain k)) \<Longrightarrow> serial (map snd (chain k'))"
  by (induction rule: rtranclp_induct) (auto intro: serial_step)

lemma order_step: "step e k k' \<Longrightarrow> \<exists>ms. map fst (chain k') = map fst (chain k) @ ms"
  by (induction rule: step.induct) (auto simp: onMessage_def Let_def)

lemma order_steps: "(step e)\<^sup>*\<^sup>* k k' \<Longrightarrow> \<exists>ms. map fst (chain k') = map fst (chain k) @ ms"
proof (induction rule: rtranclp_induct)
  case base
  show ?case by simp
next
  case (step k' k'')
  from step.IH obtain ms where "map fst (chain k') = map fst (chain k) @ ms" by blast
  moreover from order_step [OF step.hyps(2)]
  obtain ms' where "map fst (chain k'') = map fst (chain k') @ ms'" by blast
  ultimately have "map fst (chain k'') = map fst (chain k) @ (ms @ ms')" by simp
  then show ?case by blast
qed

text \<open>
  The replies on the chain are those of the continuations run one after the other, each
  from the world the one before it left, later by the time that passed in between; and the
  state of the world is what the last of them left, later by the time that has passed since.
\<close>

lemma later_zero: "later 0 w = w"
  by (simp add: later_def)

lemma later_later: "later t (later d w) = later (d + t) w"
  by (simp add: later_def)

lemma runAt_snoc:
  "runAt e (sched @ [(d, m)]) w = snd (job e m (later d (runAt e sched w)))"
  by (induction sched arbitrary: w) auto

lemma repliesAt_snoc:
  "repliesAt e (sched @ [(d, m)]) w =
     repliesAt e sched w @ [fst (job e m (later d (runAt e sched w)))]"
  by (induction sched arbitrary: w) auto

lemma settled_all: "list_all isSettled (map snd xs) \<Longrightarrow> filter (\<lambda>p. isSettled (snd p)) xs = xs"
  by (induction xs) auto

lemma settled_none:
  "list_all (\<lambda>s. s = Waiting) (map snd xs) \<Longrightarrow> filter (\<lambda>p. isSettled (snd p)) xs = []"
  by (induction xs) auto

lemma settled_step:
  assumes "step e k k'" and "serial (map snd (chain k))"
    and "map snd sched = map fst (settled k)"
    and "map snd (settled k) = map Settled (repliesAt e sched w0)"
    and "wstate k = later d (runAt e sched w0)"
  shows "\<exists>sched' d'. map snd sched' = map fst (settled k')
    \<and> map snd (settled k') = map Settled (repliesAt e sched' w0)
    \<and> wstate k' = later d' (runAt e sched' w0)"
  using assms
proof (induction rule: step.induct)
  case (arrive k msg)
  then have "map snd sched = map fst (settled (onMessage msg k))
    \<and> map snd (settled (onMessage msg k)) = map Settled (repliesAt e sched w0)
    \<and> wstate (onMessage msg k) = later d (runAt e sched w0)"
    by (simp add: onMessage_def Let_def settled_def)
  then show ?case by blast
next
  case (idle k t)
  then have "map snd sched = map fst (settled (k\<lparr>wstate := later t (wstate k)\<rparr>))
    \<and> map snd (settled (k\<lparr>wstate := later t (wstate k)\<rparr>)) = map Settled (repliesAt e sched w0)
    \<and> wstate (k\<lparr>wstate := later t (wstate k)\<rparr>) = later (d + t) (runAt e sched w0)"
    by (simp add: settled_def later_later)
  then show ?case by blast
next
  case (start k before msg rest)
  let ?k' = "k\<lparr>chain := before @ (msg, Running None (requestsOf e msg (wstate k))) # rest\<rparr>"
  from start have "map snd sched = map fst (settled ?k')
    \<and> map snd (settled ?k') = map Settled (repliesAt e sched w0)
    \<and> wstate ?k' = later d (runAt e sched w0)"
    by (simp add: settled_def)
  then show ?case by blast
next
  case (send k before msg q qs rest)
  let ?k' = "k\<lparr>chain := before @ (msg, Running (Some q) qs) # rest\<rparr>"
  from send have "map snd sched = map fst (settled ?k')
    \<and> map snd (settled ?k') = map Settled (repliesAt e sched w0)
    \<and> wstate ?k' = later d (runAt e sched w0)"
    by (simp add: settled_def)
  then show ?case by blast
next
  case (receive k before msg q qs rest)
  let ?k' = "k\<lparr>chain := before @ (msg, Running None qs) # rest\<rparr>"
  from receive have "map snd sched = map fst (settled ?k')
    \<and> map snd (settled ?k') = map Settled (repliesAt e sched w0)
    \<and> wstate ?k' = later d (runAt e sched w0)"
    by (simp add: settled_def)
  then show ?case by blast
next
  case (finish k before msg rest r w')
  let ?k' = "k\<lparr>wstate := w', chain := before @ (msg, Settled r) # rest\<rparr>"
  from finish.prems(1) finish.hyps(1)
  have "serial (map snd before @ Running None [] # map snd rest)" by simp
  then have s: "list_all isSettled (map snd before) \<and> list_all (\<lambda>s. s = Waiting) (map snd rest)"
    by (rule serial_Running_split)
  from s finish.hyps(1) have old: "settled k = before"
    by (simp add: settled_def settled_all settled_none)
  from s have new: "settled ?k' = before @ [(msg, Settled r)]"
    by (simp add: settled_def settled_all settled_none)
  from finish.hyps(2) finish.prems(4)
  have j: "job e msg (later d (runAt e sched w0)) = (r, w')" by simp
  from finish.prems(2,3) old j
  have "map snd (sched @ [(d, msg)]) = map fst (settled ?k')
    \<and> map snd (settled ?k') = map Settled (repliesAt e (sched @ [(d, msg)]) w0)
    \<and> wstate ?k' = later 0 (runAt e (sched @ [(d, msg)]) w0)"
    by (simp add: new repliesAt_snoc runAt_snoc later_zero)
  then show ?case by blast
qed

lemma settled_steps:
  assumes "(step e)\<^sup>*\<^sup>* k k'" and "chain k = []"
  shows "serial (map snd (chain k'))
    \<and> (\<exists>sched d. map snd sched = map fst (settled k')
          \<and> map snd (settled k') = map Settled (repliesAt e sched (wstate k))
          \<and> wstate k' = later d (runAt e sched (wstate k)))"
  using assms
proof (induction rule: rtranclp_induct)
  case base
  then have "map snd [] = map fst (settled k)
    \<and> map snd (settled k) = map Settled (repliesAt e [] (wstate k))
    \<and> wstate k = later 0 (runAt e [] (wstate k))"
    by (simp add: settled_def later_zero)
  with base show ?case by (metis list.simps(8) serial.simps(1))
next
  case (step k' k'')
  then have s: "serial (map snd (chain k'))" by simp
  from step obtain sched d where i: "map snd sched = map fst (settled k')"
    "map snd (settled k') = map Settled (repliesAt e sched (wstate k))"
    "wstate k' = later d (runAt e sched (wstate k))"
    by auto
  from s step.hyps(2) have "serial (map snd (chain k''))" using serial_step by blast
  moreover from settled_step [OF step.hyps(2) s i]
  have "\<exists>sched d. map snd sched = map fst (settled k'')
          \<and> map snd (settled k'') = map Settled (repliesAt e sched (wstate k))
          \<and> wstate k'' = later d (runAt e sched (wstate k))" .
  ultimately show ?case by simp
qed

text \<open>
  A running continuation sends the requests of its \<open>job\<close>, in their order: those it has
  sent, the one it awaits and those it will send are together the requests that \<open>job\<close>
  makes from the current world.
\<close>

lemma planned_step:
  assumes "step e k k'" and "serial (map snd (chain k))"
    and "\<forall>msg a rs. (msg, Running a rs) \<in> set (chain k) \<longrightarrow>
           (\<exists>sent. requestsOf e msg (wstate k) = sent @ awaited (Running a rs) @ rs)"
  shows "\<forall>msg a rs. (msg, Running a rs) \<in> set (chain k') \<longrightarrow>
           (\<exists>sent. requestsOf e msg (wstate k') = sent @ awaited (Running a rs) @ rs)"
  using assms
proof (induction rule: step.induct)
  case (arrive k msg)
  then show ?case by (auto simp: onMessage_def Let_def)
next
  case (idle k d)
  have "(m, Running a rs) \<notin> set (chain k)" for m a rs
    using idle.hyps by (auto simp: list_all_iff)
  then show ?case by simp
next
  case (start k before msg rest)
  show ?case
  proof (intro allI impI)
    fix m a rs
    assume "(m, Running a rs) \<in> set (chain (k\<lparr>chain := before @
              (msg, Running None (requestsOf e msg (wstate k))) # rest\<rparr>))"
    then consider "(m, Running a rs) \<in> set (chain k)"
      | "m = msg \<and> a = None \<and> rs = requestsOf e msg (wstate k)"
      using start.hyps(1) by auto
    then show "\<exists>sent. requestsOf e m
                  (wstate (k\<lparr>chain := before @
                     (msg, Running None (requestsOf e msg (wstate k))) # rest\<rparr>)) =
                sent @ awaited (Running a rs) @ rs"
    proof cases
      case 1
      with start.prems(2) show ?thesis by simp
    next
      case 2
      then show ?thesis by simp
    qed
  qed
next
  case (send k before msg q qs rest)
  show ?case
  proof (intro allI impI)
    fix m a rs
    assume "(m, Running a rs) \<in> set (chain (k\<lparr>chain := before @
              (msg, Running (Some q) qs) # rest\<rparr>))"
    then consider "(m, Running a rs) \<in> set (chain k)"
      | "m = msg \<and> a = Some q \<and> rs = qs"
      using send.hyps(1) by auto
    then show "\<exists>sent. requestsOf e m
                  (wstate (k\<lparr>chain := before @ (msg, Running (Some q) qs) # rest\<rparr>)) =
                sent @ awaited (Running a rs) @ rs"
    proof cases
      case 1
      with send.prems(2) show ?thesis by simp
    next
      case 2
      have "(msg, Running None (q # qs)) \<in> set (chain k)" using send.hyps(1) by simp
      with send.prems(2) obtain sent where
        "requestsOf e msg (wstate k) = sent @ awaited (Running None (q # qs)) @ q # qs"
        by blast
      with 2 show ?thesis by simp
    qed
  qed
next
  case (receive k before msg q qs rest)
  show ?case
  proof (intro allI impI)
    fix m a rs
    assume "(m, Running a rs) \<in> set (chain (k\<lparr>chain := before @
              (msg, Running None qs) # rest\<rparr>))"
    then consider "(m, Running a rs) \<in> set (chain k)"
      | "m = msg \<and> a = None \<and> rs = qs"
      using receive.hyps(1) by auto
    then show "\<exists>sent. requestsOf e m
                  (wstate (k\<lparr>chain := before @ (msg, Running None qs) # rest\<rparr>)) =
                sent @ awaited (Running a rs) @ rs"
    proof cases
      case 1
      with receive.prems(2) show ?thesis by simp
    next
      case 2
      have "(msg, Running (Some q) qs) \<in> set (chain k)" using receive.hyps(1) by simp
      with receive.prems(2) obtain sent where
        "requestsOf e msg (wstate k) = sent @ awaited (Running (Some q) qs) @ qs"
        by blast
      then have "requestsOf e msg (wstate k) = (sent @ [q]) @ qs" by simp
      with 2 show ?thesis by auto
    qed
  qed
next
  case (finish k before msg rest r w')
  from finish.prems(1) finish.hyps(1)
  have "serial (map snd before @ Running None [] # map snd rest)" by simp
  then have s: "list_all isSettled (map snd before) \<and> list_all (\<lambda>s. s = Waiting) (map snd rest)"
    by (rule serial_Running_split)
  have "(m, Running a rs) \<notin> set (before @ (msg, Settled r) # rest)" for m a rs
    using s by (auto simp: list_all_iff)
  then show ?case by simp
qed

lemma planned_steps:
  assumes "(step e)\<^sup>*\<^sup>* k k'" and "chain k = []"
  shows "\<forall>msg a rs. (msg, Running a rs) \<in> set (chain k') \<longrightarrow>
           (\<exists>sent. requestsOf e msg (wstate k') = sent @ awaited (Running a rs) @ rs)"
  using assms
proof (induction rule: rtranclp_induct)
  case base
  then show ?case by simp
next
  case (step k' k'')
  from step.hyps(1) step.prems have "serial (map snd (chain k'))"
    using serial_steps [of e k k'] by simp
  with step show ?case using planned_step [of e k' k''] by blast
qed

text \<open>What a continuation answers, and that it only adds to the log.\<close>

lemma job_reply:
  "fst (job e msg w) =
     (if incomplete msg then Okay None
      else case fst (lookupCamelot e (orEmpty (msg_cacheKey msg))
                       (normalizeWhitespace (msg_title msg))
                       (normalizeWhitespace (msg_artist msg)) w) of
             Inl err \<Rightarrow> Failed err
           | Inr data \<Rightarrow> Okay (Some data))"
  by (auto simp: job_def incomplete_def Let_def split: prod.splits sum.splits)

lemma trace_job: "\<exists>tr. trace (snd (job e msg w)) = trace w @ tr"
proof (cases "incomplete msg")
  case True
  then show ?thesis by (simp add: job_def incomplete_def Let_def)
next
  case False
  obtain r w' where l: "lookupCamelot e (orEmpty (msg_cacheKey msg))
                       (normalizeWhitespace (msg_title msg))
                       (normalizeWhitespace (msg_artist msg)) w = (r, w')"
    by (cases "lookupCamelot e (orEmpty (msg_cacheKey msg))
                       (normalizeWhitespace (msg_title msg))
                       (normalizeWhitespace (msg_artist msg)) w")
  from lookupCamelot_frame [OF l] have "\<exists>tr. trace w' = trace w @ tr" by simp
  moreover from False l have "snd (job e msg w) = w'"
    by (auto simp: job_def incomplete_def Let_def split: sum.splits)
  ultimately show ?thesis by simp
qed

lemma requestsOf_log:
  "map fst (trace (snd (job e msg w))) = map fst (trace w) @ requestsOf e msg w"
proof -
  from trace_job [of e msg w] obtain tr where "trace (snd (job e msg w)) = trace w @ tr"
    by blast
  then show ?thesis by (simp add: requestsOf_def)
qed

text \<open>
  C6. The chain keeps the messages in the order of their arrival, and in every state the
  worker reaches it is serial: the answered entries come first, then at most one
  continuation is running, and those after it wait. So the entries are answered in the order
  of arrival, and at most one provider request is awaited at any time, that of the running
  continuation. From the start of the worker, the answers on the chain are the replies of
  the continuations run one after the other in that order, each from the world the one
  before it left, whatever time has passed in between; a running continuation sends the
  requests of its run, one at a time. The reply of a continuation is
  \<open>{ok: true, data: null}\<close> for a message that lacks a field; otherwise it is the record
  that \<open>lookupCamelot\<close> returns, or the error it throws, caught and made a failure
  payload. An entry gets its reply in the step that finishes its own continuation.
\<close>

theorem serial_queue:
  "(serial (map snd (chain k)) \<and> (step e)\<^sup>*\<^sup>* k k' \<longrightarrow>
      serial (map snd (chain k'))
      \<and> length (filter (\<lambda>p. isRunning (snd p)) (chain k')) \<le> 1
      \<and> length (inFlight k') \<le> 1
      \<and> (\<forall>i j. i < j \<and> j < length (chain k') \<and> isSettled (snd (chain k' ! j)) \<longrightarrow>
            isSettled (snd (chain k' ! i)))
      \<and> (\<exists>ms. map fst (chain k') = map fst (chain k) @ ms))
   \<and> (chain k = [] \<and> (step e)\<^sup>*\<^sup>* k k' \<longrightarrow>
      (\<exists>sched d. map snd sched = map fst (settled k')
          \<and> map snd (settled k') = map Settled (repliesAt e sched (wstate k))
          \<and> wstate k' = later d (runAt e sched (wstate k)))
      \<and> (\<forall>m a rs. (m, Running a rs) \<in> set (chain k') \<longrightarrow>
            (\<exists>sent. requestsOf e m (wstate k') = sent @ awaited (Running a rs) @ rs)))
   \<and> fst (job e msg w) =
       (if incomplete msg then Okay None
        else case fst (lookupCamelot e (orEmpty (msg_cacheKey msg))
                         (normalizeWhitespace (msg_title msg))
                         (normalizeWhitespace (msg_artist msg)) w) of
               Inl err \<Rightarrow> Failed err
             | Inr data \<Rightarrow> Okay (Some data))
   \<and> map fst (trace (snd (job e msg w))) = map fst (trace w) @ requestsOf e msg w"
proof (intro conjI impI)
  assume h: "serial (map snd (chain k)) \<and> (step e)\<^sup>*\<^sup>* k k'"
  then show s: "serial (map snd (chain k'))" using serial_steps by blast
  have "length (filter isRunning (map snd (chain k'))) \<le> 1"
    using s by (rule serial_Running_count)
  then show "length (filter (\<lambda>p. isRunning (snd p)) (chain k')) \<le> 1"
    by (simp add: filter_map comp_def)
  have "length (concat (map awaited (map snd (chain k')))) \<le> 1"
    using s by (rule serial_awaited)
  then show "length (inFlight k') \<le> 1"
    by (simp add: inFlight_def comp_def)
  show "\<forall>i j. i < j \<and> j < length (chain k') \<and> isSettled (snd (chain k' ! j)) \<longrightarrow>
           isSettled (snd (chain k' ! i))"
  proof (intro allI impI)
    fix i j
    assume a: "i < j \<and> j < length (chain k') \<and> isSettled (snd (chain k' ! j))"
    then have "isSettled (map snd (chain k') ! i)"
      using serial_settled_prefix [OF s, of i j] by simp
    with a show "isSettled (snd (chain k' ! i))" by simp
  qed
  from h show "\<exists>ms. map fst (chain k') = map fst (chain k) @ ms"
    using order_steps by blast
next
  assume h: "chain k = [] \<and> (step e)\<^sup>*\<^sup>* k k'"
  then show "\<exists>sched d. map snd sched = map fst (settled k')
          \<and> map snd (settled k') = map Settled (repliesAt e sched (wstate k))
          \<and> wstate k' = later d (runAt e sched (wstate k))"
    using settled_steps [of e k k'] by simp
  from h show "\<forall>m a rs. (m, Running a rs) \<in> set (chain k') \<longrightarrow>
            (\<exists>sent. requestsOf e m (wstate k') = sent @ awaited (Running a rs) @ rs)"
    using planned_steps [of e k k'] by simp
next
  show "fst (job e msg w) =
       (if incomplete msg then Okay None
        else case fst (lookupCamelot e (orEmpty (msg_cacheKey msg))
                         (normalizeWhitespace (msg_title msg))
                         (normalizeWhitespace (msg_artist msg)) w) of
               Inl err \<Rightarrow> Failed err
             | Inr data \<Rightarrow> Okay (Some data))"
    by (rule job_reply)
next
  show "map fst (trace (snd (job e msg w))) = map fst (trace w) @ requestsOf e msg w"
    by (rule requestsOf_log)
qed

lemma primary_strobe_world:
  "lookupViaGetSongBpm (constEnv [strobeLive, strobeExact] recs ab) (js ''Strobe'')
       (js ''deadmau5'') worldWithKey =
     (Inr (Some \<lparr>camelot = Str (js ''11A''), key = Str (js ''F#''), mode = Str (js ''minor''),
                 provider = Str (js ''getsongbpm''), providerId = Str (js ''42'')\<rparr>),
      issue strobeSearch 120 worldWithKey)"
proof -
  let ?lookup = "js ''song:'' @ normalizeWhitespace (Some (js ''Strobe''))
                  @ js '' artist:'' @ normalizeWhitespace (Some (js ''deadmau5''))"
  have l: "GetSongSearch ?lookup (js ''k1'') = strobeSearch"
    by (simp add: strobeSearch_def string_defs)
  have wf: "wellFormed ?lookup" by (simp add: string_defs)
  have "lookupViaGetSongBpm (constEnv [strobeLive, strobeExact] recs ab) (js ''Strobe'')
       (js ''deadmau5'') worldWithKey =
     (Inr (firstParsed (take 5 (rankItems (js ''Strobe'') (js ''deadmau5'')
                                  [strobeLive, strobeExact]))),
      issue (GetSongSearch ?lookup (js ''k1'')) 120 worldWithKey)"
    using lookupViaGetSongBpm_result [OF getGetsongApiKey_worldWithKey _ refl wf,
        of "[strobeLive, strobeExact]" recs ab 200 "[strobeLive, strobeExact]" 120]
    by (simp add: constEnv_def ok_def js_def)
  moreover have "firstParsed (take 5 (rankItems (js ''Strobe'') (js ''deadmau5'')
                                  [strobeLive, strobeExact])) =
    Some \<lparr>camelot = Str (js ''11A''), key = Str (js ''F#''), mode = Str (js ''minor''),
          provider = Str (js ''getsongbpm''), providerId = Str (js ''42'')\<rparr>"
    by (simp add: rankItems_strobe parse_strobeExact parse_strobeLive
        keyToCamelot_Fsharp_minor jsOr_def) (simp add: strobeLive_def js_def)
  ultimately show ?thesis by (simp only: l)
qed

lemma job_strobe:
  "job (constEnv [strobeLive, strobeExact] recs ab) strobeMessage worldWithKey =
     (Okay (Some strobeRecord),
      storageSet (constEnv [strobeLive, strobeExact] recs ab) strobeKey (SRecord strobeRecord)
        (issue strobeSearch 120 worldWithKey))"
proof -
  let ?e = "constEnv [strobeLive, strobeExact] recs ab"
  have absent: "storage worldWithKey strobeKey = None"
    by (simp add: world_defs strobeKey_def js_def)
  have w1: "snd (storageGet ?e strobeKey worldWithKey) = worldWithKey"
    by (simp add: storageGet_def constEnv_def)
  have clk: "clock worldWithKey = 1700000000000"
    by (simp add: world_defs)
  have "lookupCamelot ?e strobeKey (js ''Strobe'') (js ''deadmau5'') worldWithKey =
          (Inr strobeRecord,
           storageSet ?e strobeKey (SRecord strobeRecord) (issue strobeSearch 120 worldWithKey))"
    using lookupCamelot_absent [OF absent, of ?e "js ''Strobe''" "js ''deadmau5''"]
      resolveUncached_primary_hit [OF primary_strobe_world, of recs ab 1700000000000 strobeKey]
    by (simp add: w1 clk strobeRecord_def Let_def)
  moreover have "normalizeWhitespace (msg_title strobeMessage) = js ''Strobe''
    \<and> normalizeWhitespace (msg_artist strobeMessage) = js ''deadmau5''
    \<and> orEmpty (msg_cacheKey strobeMessage) = strobeKey"
    by (simp add: strobeMessage_def string_defs)
  moreover have "js ''Strobe'' \<noteq> [] \<and> js ''deadmau5'' \<noteq> [] \<and> strobeKey \<noteq> []"
    by (simp add: strobeKey_def js_def)
  ultimately show ?thesis by (simp add: job_def)
qed

lemma requestsOf_strobe:
  "requestsOf (constEnv [strobeLive, strobeExact] recs ab) strobeMessage worldWithKey =
     [strobeSearch]"
proof -
  have "trace worldWithKey = []" by (simp add: world_defs)
  then show ?thesis
    by (simp add: requestsOf_def job_strobe trace_storageSet issue_def)
qed

text \<open>
  Two messages arrive at a worker with a credential, the first for \<open>Strobe\<close> and the second
  without a title. The first continuation starts and sends its request to the primary
  provider: one request is in flight. The answer arrives and the continuation finishes with
  the record; five milliseconds pass and the second continuation starts. When the recording
  search is out of service and there is no credential, the reply is the failure payload.
\<close>

theorem serial_queue_witness:
  "(step (constEnv [strobeLive, strobeExact] [] noAnalysis))\<^sup>*\<^sup>* workerWithKey
      \<lparr>wstate = worldWithKey,
       chain = [(strobeMessage, Running (Some strobeSearch) []), (untitledMessage, Waiting)]\<rparr>
   \<and> inFlight \<lparr>wstate = worldWithKey,
                chain = [(strobeMessage, Running (Some strobeSearch) []),
                         (untitledMessage, Waiting)]\<rparr> = [strobeSearch]
   \<and> (step (constEnv [strobeLive, strobeExact] [] noAnalysis))\<^sup>*\<^sup>* workerWithKey
      \<lparr>wstate = later 5 (snd (job (constEnv [strobeLive, strobeExact] [] noAnalysis)
                                 strobeMessage worldWithKey)),
       chain = [(strobeMessage, Settled (Okay (Some strobeRecord))),
                (untitledMessage, Running None [])]\<rparr>
   \<and> serial [Settled (Okay (Some strobeRecord)), Running None []]
   \<and> (\<exists>sched d.
         map snd sched = [strobeMessage]
         \<and> [Settled (Okay (Some strobeRecord))] =
             map Settled (repliesAt (constEnv [strobeLive, strobeExact] [] noAnalysis) sched
                            worldWithKey)
         \<and> later 5 (snd (job (constEnv [strobeLive, strobeExact] [] noAnalysis)
                           strobeMessage worldWithKey)) =
             later d (runAt (constEnv [strobeLive, strobeExact] [] noAnalysis) sched
                        worldWithKey))
   \<and> repliesAt (constEnv [strobeLive, strobeExact] [] noAnalysis) [(0, strobeMessage)]
        worldWithKey = [Okay (Some strobeRecord)]
   \<and> map fst (trace (snd (job (constEnv [strobeLive, strobeExact] [] noAnalysis) strobeMessage
                             worldWithKey))) = [strobeSearch]
   \<and> fst (job (outOfService (constEnv [] [] noAnalysis)) strobeMessage world0) =
       Failed (HttpError 503)"
proof -
  let ?e = "constEnv [strobeLive, strobeExact] [] noAnalysis"
  let ?w' = "snd (job ?e strobeMessage worldWithKey)"
  let ?k1 = "\<lparr>wstate = worldWithKey, chain = [(strobeMessage, Waiting)]\<rparr>"
  let ?k2 = "\<lparr>wstate = worldWithKey,
              chain = [(strobeMessage, Waiting), (untitledMessage, Waiting)]\<rparr>"
  let ?k3 = "\<lparr>wstate = worldWithKey,
              chain = [(strobeMessage, Running None [strobeSearch]),
                       (untitledMessage, Waiting)]\<rparr>"
  let ?k4 = "\<lparr>wstate = worldWithKey,
              chain = [(strobeMessage, Running (Some strobeSearch) []),
                       (untitledMessage, Waiting)]\<rparr>"
  let ?k5 = "\<lparr>wstate = worldWithKey,
              chain = [(strobeMessage, Running None []), (untitledMessage, Waiting)]\<rparr>"
  let ?k6 = "\<lparr>wstate = ?w',
              chain = [(strobeMessage, Settled (Okay (Some strobeRecord))),
                       (untitledMessage, Waiting)]\<rparr>"
  let ?k7 = "\<lparr>wstate = later 5 ?w',
              chain = [(strobeMessage, Settled (Okay (Some strobeRecord))),
                       (untitledMessage, Waiting)]\<rparr>"
  let ?k8 = "\<lparr>wstate = later 5 ?w',
              chain = [(strobeMessage, Settled (Okay (Some strobeRecord))),
                       (untitledMessage, Running None [])]\<rparr>"
  have 1: "step ?e workerWithKey ?k1"
    using step.arrive [of ?e workerWithKey strobeMessage]
    by (simp add: onMessage_def strobeMessage_def workerWithKey_def Let_def js_def)
  have 2: "step ?e ?k1 ?k2"
    using step.arrive [of ?e ?k1 untitledMessage]
    by (simp add: onMessage_def untitledMessage_def Let_def js_def)
  have 3: "step ?e ?k2 ?k3"
    using step.start [of ?k2 "[]" strobeMessage "[(untitledMessage, Waiting)]" ?e]
    by (simp add: requestsOf_strobe)
  have 4: "step ?e ?k3 ?k4"
    using step.send [of ?k3 "[]" strobeMessage strobeSearch "[]" "[(untitledMessage, Waiting)]" ?e]
    by simp
  have 5: "step ?e ?k4 ?k5"
    using step.receive [of ?k4 "[]" strobeMessage strobeSearch "[]"
        "[(untitledMessage, Waiting)]" ?e]
    by simp
  have j: "job ?e strobeMessage worldWithKey = (Okay (Some strobeRecord), ?w')"
    by (simp add: job_strobe)
  have 6: "step ?e ?k5 ?k6"
    using step.finish [of ?k5 "[]" strobeMessage "[(untitledMessage, Waiting)]" ?e
        "Okay (Some strobeRecord)" ?w'] j
    by simp
  have 7: "step ?e ?k6 ?k7"
    using step.idle [of ?k6 ?e 5] by simp
  have u: "job ?e untitledMessage w = (Okay None, w)" for w
    using untitledMessage_incomplete by (simp add: job_def incomplete_def Let_def)
  have 8: "step ?e ?k7 ?k8"
    using step.start [of ?k7 "[(strobeMessage, Settled (Okay (Some strobeRecord)))]"
        untitledMessage "[]" ?e]
    by (simp add: requestsOf_def u)
  have reach4: "(step ?e)\<^sup>*\<^sup>* workerWithKey ?k4"
    using 1 2 3 4 by (meson rtranclp.rtrancl_into_rtrancl rtranclp.rtrancl_refl)
  then have reach8: "(step ?e)\<^sup>*\<^sup>* workerWithKey ?k8"
    using 5 6 7 8 by (meson rtranclp.rtrancl_into_rtrancl)
  have empty: "chain workerWithKey = []" by (simp add: workerWithKey_def)
  have w0: "wstate workerWithKey = worldWithKey" by (simp add: workerWithKey_def)
  note T4 = serial_queue [of workerWithKey ?e ?k4 strobeMessage worldWithKey]
  note T8 = serial_queue [of workerWithKey ?e ?k8 strobeMessage worldWithKey]
  have a: "inFlight ?k4 = [strobeSearch]"
    by (simp add: inFlight_def)
  from T4 reach4 empty have "length (inFlight ?k4) \<le> 1" by simp
  from T8 reach8 empty have b: "serial [Settled (Okay (Some strobeRecord)), Running None []]"
    by simp
  have st: "settled ?k8 = [(strobeMessage, Settled (Okay (Some strobeRecord)))]"
    by (simp add: settled_def)
  from T8 reach8 empty
  have "\<exists>sched d. map snd sched = map fst (settled ?k8)
          \<and> map snd (settled ?k8) = map Settled (repliesAt ?e sched (wstate workerWithKey))
          \<and> wstate ?k8 = later d (runAt ?e sched (wstate workerWithKey))"
    by blast
  then have c: "\<exists>sched d. map snd sched = [strobeMessage]
         \<and> [Settled (Okay (Some strobeRecord))] = map Settled (repliesAt ?e sched worldWithKey)
         \<and> later 5 ?w' = later d (runAt ?e sched worldWithKey)"
    unfolding st w0 by simp
  have c': "repliesAt ?e [(0, strobeMessage)] worldWithKey = [Okay (Some strobeRecord)]"
    by (simp add: later_zero job_strobe)
  from T8 have "map fst (trace ?w') =
                  map fst (trace worldWithKey) @ requestsOf ?e strobeMessage worldWithKey"
    by simp
  moreover have "trace worldWithKey = []" by (simp add: world_defs)
  ultimately have d: "map fst (trace ?w') = [strobeSearch]"
    by (simp add: requestsOf_strobe)
  have f: "fst (job (outOfService (constEnv [] [] noAnalysis)) strobeMessage world0) =
       Failed (HttpError 503)"
    by (simp add: run_defs provider_defs world_defs string_defs outOfService_def
        strobeMessage_def strobeKey_def)
  from reach4 a reach8 b c c' d f show ?thesis by blast
qed

end
